(* ===== verification/Prelude.thy ===== *)
theory Prelude
  imports Main "HOL-Library.AList"
begin

text \<open>
  Shared vocabulary of the Mini Triangle development: the error-sum bind that
  models Python's exception propagation, the character classes of Python 2's
  \<open>str.isspace\<close>, \<open>str.isdigit\<close> and \<open>str.isalpha\<close> (byte strings in the C
  locale), Python's \<open>int()\<close> of a digit string and \<open>str()\<close> of a
  non-negative integer, and the lemma collections the component theories share.
\<close>

named_theorems bind_res_simps "rewriting of error-sum binds"
named_theorems py_str_simps "evaluation of the Python string predicates"

section \<open>Exceptions as the left summand\<close>

text \<open>
  A Python call that may raise is a value of \<open>'e + 'a\<close>: \<open>Inl\<close> carries the
  exception, \<open>Inr\<close> the result. \<open>bind_res m f\<close> is the sequencing of two
  statements: an exception raised by \<open>m\<close> propagates unchanged, otherwise \<open>f\<close>
  runs on the result.
\<close>

definition bind_res :: "'e + 'a \<Rightarrow> ('a \<Rightarrow> 'e + 'b) \<Rightarrow> 'e + 'b" where
  "bind_res m f = (case m of Inl e \<Rightarrow> Inl e | Inr a \<Rightarrow> f a)"

lemma bind_res_Inl [simp, bind_res_simps]: "bind_res (Inl e) f = Inl e"
  by (simp add: bind_res_def)

lemma bind_res_Inr [simp, bind_res_simps]: "bind_res (Inr a) f = f a"
  by (simp add: bind_res_def)

lemma bind_res_eq_Inr [bind_res_simps]:
  "bind_res m f = Inr b \<longleftrightarrow> (\<exists>a. m = Inr a \<and> f a = Inr b)"
  by (cases m) simp_all

lemma bind_res_eq_Inl [bind_res_simps]:
  "bind_res m f = Inl e \<longleftrightarrow> m = Inl e \<or> (\<exists>a. m = Inr a \<and> f a = Inl e)"
  by (cases m) simp_all

lemma bind_res_cong [fundef_cong]:
  "m = m' \<Longrightarrow> (\<And>a. m' = Inr a \<Longrightarrow> f a = g a) \<Longrightarrow> bind_res m f = bind_res m' g"
  by (cases m) (auto simp: bind_res_def)

lemma bind_res_assoc [bind_res_simps]:
  "bind_res (bind_res m f) g = bind_res m (\<lambda>a. bind_res (f a) g)"
  by (cases m) simp_all

lemma bind_res_InrE [elim!]:
  assumes "bind_res m f = Inr b"
  obtains a where "m = Inr a" and "f a = Inr b"
  using assms by (auto simp: bind_res_eq_Inr)

text \<open>A computation evaluated to \<open>Inr\<close> is \<open>Inr\<close> of its result.\<close>

lemma Inr_projr: "(case x of Inl e \<Rightarrow> False | Inr a \<Rightarrow> True) \<Longrightarrow> x = Inr (projr x)"
  by (cases x) simp_all

section \<open>Python 2 character classes\<close>

text \<open>
  Python 2 \<open>str\<close> is a byte string, like \<open>string\<close> here. The predicates hold of a
  string when it is non-empty and every byte is in the class: \<open>''.isdigit()\<close> is
  False, which the scanner relies on at the end of the input, where the current
  character is the empty string.
\<close>

definition py_space_char :: "char \<Rightarrow> bool" where
  "py_space_char c \<longleftrightarrow> c = CHR '' '' \<or> c = CHR 0x09 \<or> c = CHR 0x0A \<or> c = CHR 0x0B
     \<or> c = CHR 0x0C \<or> c = CHR 0x0D"

definition py_digit_char :: "char \<Rightarrow> bool" where
  "py_digit_char c \<longleftrightarrow> 48 \<le> (of_char c :: nat) \<and> (of_char c :: nat) \<le> 57"

definition py_alpha_char :: "char \<Rightarrow> bool" where
  "py_alpha_char c \<longleftrightarrow> (65 \<le> (of_char c :: nat) \<and> (of_char c :: nat) \<le> 90)
     \<or> (97 \<le> (of_char c :: nat) \<and> (of_char c :: nat) \<le> 122)"

definition py_isspace :: "string \<Rightarrow> bool" where
  "py_isspace s \<longleftrightarrow> s \<noteq> [] \<and> list_all py_space_char s"

definition py_isdigit :: "string \<Rightarrow> bool" where
  "py_isdigit s \<longleftrightarrow> s \<noteq> [] \<and> list_all py_digit_char s"

definition py_isalpha :: "string \<Rightarrow> bool" where
  "py_isalpha s \<longleftrightarrow> s \<noteq> [] \<and> list_all py_alpha_char s"

lemma py_str_Nil [simp, py_str_simps]:
  "\<not> py_isspace []" "\<not> py_isdigit []" "\<not> py_isalpha []"
  by (simp_all add: py_isspace_def py_isdigit_def py_isalpha_def)

lemma py_str_single [simp, py_str_simps]:
  "py_isspace [c] \<longleftrightarrow> py_space_char c"
  "py_isdigit [c] \<longleftrightarrow> py_digit_char c"
  "py_isalpha [c] \<longleftrightarrow> py_alpha_char c"
  by (simp_all add: py_isspace_def py_isdigit_def py_isalpha_def)

lemma py_str_nonempty [py_str_simps]:
  "py_isspace s \<Longrightarrow> s \<noteq> []" "py_isdigit s \<Longrightarrow> s \<noteq> []" "py_isalpha s \<Longrightarrow> s \<noteq> []"
  by (simp_all add: py_isspace_def py_isdigit_def py_isalpha_def)

lemma py_classes_disjoint [py_str_simps]:
  "py_digit_char c \<Longrightarrow> \<not> py_alpha_char c"
  "py_digit_char c \<Longrightarrow> \<not> py_space_char c"
  "py_alpha_char c \<Longrightarrow> \<not> py_space_char c"
  by (auto simp: py_digit_char_def py_alpha_char_def py_space_char_def)

section \<open>Python's int() of a digit string and str() of a natural number\<close>

text \<open>\<open>int(''.join(numlist))\<close> on a string of decimal digits.\<close>

definition digit_val :: "char \<Rightarrow> nat" where
  "digit_val c = of_char c - 48"

definition py_int :: "string \<Rightarrow> nat" where
  "py_int s = foldl (\<lambda>n c. 10 * n + digit_val c) 0 s"

text \<open>\<open>str(n)\<close> for \<open>n \<ge> 0\<close>: the decimal digits, most significant first.\<close>

fun py_str_nat :: "nat \<Rightarrow> string" where
  "py_str_nat n =
     (if n < 10 then [char_of (48 + n)] else py_str_nat (n div 10) @ [char_of (48 + n mod 10)])"

declare py_str_nat.simps [simp del]

lemma py_str_nat_nonempty [simp]: "py_str_nat n \<noteq> []"
  by (subst py_str_nat.simps) simp

lemma digit_char_of: "(d::nat) < 10 \<Longrightarrow> py_digit_char (char_of (48 + d))"
  by (simp add: py_digit_char_def of_char_of)

lemma digit_val_char_of: "(d::nat) < 10 \<Longrightarrow> digit_val (char_of (48 + d)) = d"
  by (simp add: digit_val_def of_char_of)

lemma py_str_nat_digits: "list_all py_digit_char (py_str_nat n)"
proof (induction n rule: py_str_nat.induct)
  case (1 n)
  then show ?case
    by (subst py_str_nat.simps) (simp add: digit_char_of)
qed

lemma py_int_append: "py_int (s @ [c]) = 10 * py_int s + digit_val c"
  by (simp add: py_int_def)

text \<open>Reading back what \<open>str\<close> printed gives the number again.\<close>

lemma py_int_py_str_nat [simp]: "py_int (py_str_nat n) = n"
proof (induction n rule: py_str_nat.induct)
  case (1 n)
  show ?case
  proof (cases "n < 10")
    case True
    then show ?thesis
      by (subst py_str_nat.simps) (simp add: py_int_def digit_val_char_of)
  next
    case False
    with "1.IH" have "py_int (py_str_nat (n div 10)) = n div 10" by simp
    with False show ?thesis
      by (subst py_str_nat.simps) (simp add: py_int_append digit_val_char_of)
  qed
qed

lemma py_str_nat_inj: "py_str_nat m = py_str_nat n \<Longrightarrow> m = n"
  by (metis py_int_py_str_nat)

end
