(* ===== verification/Scanner.thy ===== *)
theory Scanner
  imports Prelude
begin

text \<open>
  The scanner of \<open>src/scanner.py\<close>: token kinds, the \<open>Token\<close> structure, the
  keyword table and operator list, the character cursor of class \<open>Scanner\<close>
  (\<open>char_take\<close>, \<open>char_pos\<close>, \<open>char_eot\<close>), its loops \<open>scan_token\<close>,
  \<open>scan_int\<close>, \<open>scan_keyword\<close> and \<open>scan\<close>. Every loop is a function with a
  termination proof on one measure of the cursor. The lemmas show that the
  cursor always describes a position of the input, that every token but the
  last consumes input, that \<open>scan\<close> ends with exactly one end-of-text token at
  the end of the input, that positions strictly increase, what a scanner error
  reports, and that the values of the tokens agree with their kinds, which is
  what the parser expects of its input.
\<close>

section \<open>Tokens\<close>

datatype token_kind =
    TK_IDENTIFIER | TK_INTLITERAL | TK_OPERATOR | TK_BEGIN | TK_CONST | TK_DO
  | TK_ELSE | TK_END | TK_IF | TK_IN | TK_LET | TK_THEN | TK_VAR | TK_WHILE
  | TK_SEMICOLON | TK_COLON | TK_BECOMES | TK_IS | TK_LPAREN | TK_RPAREN | TK_EOT
  | TK_FUNCDEF | TK_RETURN | TK_COMMA

text \<open>
  \<open>Token.val\<close> is dynamically typed in Python: the text of an identifier or
  operator, the integer of a literal, and \<open>0\<close> for every other kind.
\<close>

datatype token_val = VStr string | VInt nat

record token =
  tok_type :: token_kind
  tok_val :: token_val
  tok_pos :: nat

definition KEYWORDS :: "(string \<times> token_kind) list" where
  "KEYWORDS =
     [(''begin'', TK_BEGIN), (''const'', TK_CONST), (''do'', TK_DO), (''else'', TK_ELSE),
      (''end'', TK_END), (''if'', TK_IF), (''in'', TK_IN), (''let'', TK_LET),
      (''then'', TK_THEN), (''var'', TK_VAR), (''while'', TK_WHILE),
      (''func'', TK_FUNCDEF), (''return'', TK_RETURN)]"

definition OPERATORS :: "string list" where
  "OPERATORS = [''+'', ''*'', ''-'', ''/'', ''<'', ''>'', ''='', ''!='', [CHR 0x5C]]"

datatype scan_error = ScannerError nat string

section \<open>The character cursor\<close>

text \<open>
  The fields of class \<open>Scanner\<close>: \<open>char\<close> is the current character as a Python
  string (empty at the end of the text), \<open>inputstr\<close> is the unread rest of the
  \<open>StringIO\<close>, \<open>pos\<close> counts the characters taken, \<open>eot\<close> is set once
  \<open>char\<close> becomes empty.
\<close>

record scanner =
  sc_char :: string
  sc_rest :: string
  sc_pos :: nat
  sc_eot :: bool

definition char_take :: "scanner \<Rightarrow> string \<times> scanner" where
  "char_take st =
     (let char_prev = sc_char st;
          c = take 1 (sc_rest st);
          st' = st\<lparr>sc_char := c, sc_rest := drop 1 (sc_rest st),
                   sc_eot := (if c = [] then True else sc_eot st), sc_pos := Suc (sc_pos st)\<rparr>
      in (char_prev, st'))"

definition char_pos :: "scanner \<Rightarrow> nat" where
  "char_pos st = sc_pos st - 1"

definition scanner_init :: "string \<Rightarrow> scanner" where
  "scanner_init input =
     snd (char_take \<lparr>sc_char = [], sc_rest = input, sc_pos = 0, sc_eot = False\<rparr>)"

text \<open>
  The measure every scanner loop decreases: taking a character shortens the
  unread rest or empties the current character, and the last take sets \<open>eot\<close>.
\<close>

definition sc_measure :: "scanner \<Rightarrow> nat" where
  "sc_measure st = 2 * length (sc_rest st) + length (sc_char st) + (if sc_eot st then 0 else 1)"

lemma char_take_measure:
  "sc_char st \<noteq> [] \<or> \<not> sc_eot st \<Longrightarrow> sc_measure (snd (char_take st)) < sc_measure st"
  by (cases "sc_rest st") (auto simp: char_take_def sc_measure_def Let_def)

lemma char_take_fst [simp]: "fst (char_take st) = sc_char st"
  by (simp add: char_take_def Let_def)

section \<open>Scanning loops\<close>

text \<open>The comment loop: \<open>while self.char_current() != '\n' and not self.char_eot()\<close>.\<close>

function skip_comment :: "scanner \<Rightarrow> scanner" where
  "skip_comment st =
     (if sc_char st \<noteq> ''\<newline>'' \<and> \<not> sc_eot st then skip_comment (snd (char_take st)) else st)"
  by pat_completeness auto
termination
  by (relation "measure sc_measure") (auto intro: char_take_measure)

declare skip_comment.simps [simp del]

lemma skip_comment_measure_le: "sc_measure (skip_comment st) \<le> sc_measure st"
proof (induction st rule: skip_comment.induct)
  case (1 st)
  then show ?case
    using char_take_measure [of st]
    by (subst skip_comment.simps) (auto simp del: char_take_fst)
qed

lemma skip_comment_measure_less:
  "sc_char st \<noteq> ''\<newline>'' \<Longrightarrow> \<not> sc_eot st \<Longrightarrow> sc_measure (skip_comment st) < sc_measure st"
  using char_take_measure [of st] skip_comment_measure_le [of "snd (char_take st)"]
  by (subst skip_comment.simps) simp

text \<open>\<open>scan_int\<close>'s loop: \<open>while self.char_current().isdigit(): numlist.append(self.char_take())\<close>.\<close>

function scan_digits :: "string list \<Rightarrow> scanner \<Rightarrow> string list \<times> scanner" where
  "scan_digits numlist st =
     (if py_isdigit (sc_char st)
      then scan_digits (numlist @ [fst (char_take st)]) (snd (char_take st))
      else (numlist, st))"
  by pat_completeness auto
termination
  by (relation "measure (\<lambda>(numlist, st). sc_measure st)")
     (auto intro: char_take_measure dest: py_str_nonempty)

declare scan_digits.simps [simp del]

definition scan_int :: "scanner \<Rightarrow> token \<times> scanner" where
  "scan_int st =
     (let pos = char_pos st;
          (c, st1) = char_take st;
          (numlist, st2) = scan_digits [c] st1
      in (\<lparr>tok_type = TK_INTLITERAL, tok_val = VInt (py_int (concat numlist)), tok_pos = pos\<rparr>, st2))"

text \<open>\<open>scan_keyword\<close>'s loop: \<open>while current.isalpha() or current.isdigit(): word += self.char_take()\<close>.\<close>

function scan_alnum :: "string \<Rightarrow> scanner \<Rightarrow> string \<times> scanner" where
  "scan_alnum word st =
     (if py_isalpha (sc_char st) \<or> py_isdigit (sc_char st)
      then scan_alnum (word @ fst (char_take st)) (snd (char_take st))
      else (word, st))"
  by pat_completeness auto
termination
  by (relation "measure (\<lambda>(word, st). sc_measure st)")
     (auto intro: char_take_measure dest: py_str_nonempty)

declare scan_alnum.simps [simp del]

definition scan_keyword :: "scanner \<Rightarrow> string \<times> scanner" where
  "scan_keyword st = (let (word, st1) = char_take st in scan_alnum word st1)"

text \<open>The keyword/identifier branch of \<open>scan_token\<close>.\<close>

definition scan_word_token :: "scanner \<Rightarrow> token \<times> scanner" where
  "scan_word_token st =
     (let pos = char_pos st;
          (word, st1) = scan_keyword st
      in (case map_of KEYWORDS word of
            None \<Rightarrow> (\<lparr>tok_type = TK_IDENTIFIER, tok_val = VStr word, tok_pos = pos\<rparr>, st1)
          | Some k \<Rightarrow> (\<lparr>tok_type = k, tok_val = VInt 0, tok_pos = pos\<rparr>, st1)))"

text \<open>
  The branches of \<open>scan_token\<close> for a one-character token: record the
  position, take the character, build the token. Operators carry the character
  as their value, the punctuation tokens carry \<open>0\<close>.
\<close>

definition scan_operator :: "scanner \<Rightarrow> token \<times> scanner" where
  "scan_operator st =
     (let pos = char_pos st; (val, st1) = char_take st
      in (\<lparr>tok_type = TK_OPERATOR, tok_val = VStr val, tok_pos = pos\<rparr>, st1))"

definition scan_punct :: "token_kind \<Rightarrow> scanner \<Rightarrow> token \<times> scanner" where
  "scan_punct k st =
     (let pos = char_pos st; (val, st1) = char_take st
      in (\<lparr>tok_type = k, tok_val = VInt 0, tok_pos = pos\<rparr>, st1))"

text \<open>The \<open>:\<close> branch: a \<open>:=\<close> if the next character is \<open>=\<close>, else a colon.\<close>

definition scan_colon :: "scanner \<Rightarrow> token \<times> scanner" where
  "scan_colon st =
     (let pos = char_pos st; (val, st1) = char_take st
      in if sc_char st1 = ''=''
         then (\<lparr>tok_type = TK_BECOMES, tok_val = VInt 0, tok_pos = pos\<rparr>, snd (char_take st1))
         else (\<lparr>tok_type = TK_COLON, tok_val = VInt 0, tok_pos = pos\<rparr>, st1))"

text \<open>
  \<open>scan_token\<close>: skip blanks and comments while not at the end of the text,
  then dispatch on the current character; at the end of the text the result is
  the end-of-text token at the current position.
\<close>

function scan_token :: "scanner \<Rightarrow> scan_error + token \<times> scanner" where
  "scan_token st =
     (if \<not> sc_eot st then
        (let c = sc_char st in
         if py_isspace c then scan_token (snd (char_take st))
         else if c = ''!'' then scan_token (skip_comment st)
         else if py_isdigit c then Inr (scan_int st)
         else if py_isalpha c then Inr (scan_word_token st)
         else if c \<in> set OPERATORS then Inr (scan_operator st)
         else if c = '';'' then Inr (scan_punct TK_SEMICOLON st)
         else if c = '':'' then Inr (scan_colon st)
         else if c = ''~'' then Inr (scan_punct TK_IS st)
         else if c = ''('' then Inr (scan_punct TK_LPAREN st)
         else if c = '')'' then Inr (scan_punct TK_RPAREN st)
         else if c = '','' then Inr (scan_punct TK_COMMA st)
         else Inl (ScannerError (char_pos st) c))
      else Inr (\<lparr>tok_type = TK_EOT, tok_val = VInt 0, tok_pos = char_pos st\<rparr>, st))"
  by pat_completeness auto
termination
proof (relation "measure sc_measure")
  fix st :: scanner and c
  assume "\<not> sc_eot st" "c = sc_char st" "\<not> py_isspace c" "c = ''!''"
  then have "sc_char st = ''!''" by simp
  then have "sc_char st \<noteq> ''\<newline>''" by simp
  with \<open>\<not> sc_eot st\<close> show "(skip_comment st, st) \<in> measure sc_measure"
    by (simp add: skip_comment_measure_less)
qed (auto intro: char_take_measure dest: py_str_nonempty)

declare scan_token.simps [simp del]

section \<open>Every token but the last consumes input\<close>

lemma scan_digits_measure: "sc_measure (snd (scan_digits numlist st)) \<le> sc_measure st"
proof (induction numlist st rule: scan_digits.induct)
  case (1 numlist st)
  then show ?case
    using char_take_measure [of st] py_str_nonempty(2) [of "sc_char st"]
    by (subst scan_digits.simps) (auto simp del: char_take_fst)
qed

lemma scan_alnum_measure: "sc_measure (snd (scan_alnum word st)) \<le> sc_measure st"
proof (induction word st rule: scan_alnum.induct)
  case (1 word st)
  then show ?case
    using char_take_measure [of st] py_str_nonempty(2,3) [of "sc_char st"]
    by (subst scan_alnum.simps) (auto simp del: char_take_fst)
qed

lemma OPERATORS_nonempty: "c \<in> set OPERATORS \<Longrightarrow> c \<noteq> []"
  by (auto simp: OPERATORS_def)

lemma take_char_measure:
  "sc_char st \<noteq> [] \<Longrightarrow> sc_measure (snd (char_take st)) < sc_measure st"
  by (simp add: char_take_measure)

lemma scan_branch_measure:
  assumes "sc_char st \<noteq> []"
  shows "sc_measure (snd (scan_int st)) < sc_measure st"
    and "sc_measure (snd (scan_word_token st)) < sc_measure st"
    and "sc_measure (snd (scan_operator st)) < sc_measure st"
    and "sc_measure (snd (scan_punct k st)) < sc_measure st"
    and "sc_measure (snd (scan_colon st)) < sc_measure st"
proof -
  note lt = take_char_measure [OF assms]
  show "sc_measure (snd (scan_int st)) < sc_measure st"
    using lt scan_digits_measure [of "[fst (char_take st)]" "snd (char_take st)"]
    by (simp add: scan_int_def Let_def split_beta del: char_take_fst)
  have "sc_measure (snd (scan_keyword st)) < sc_measure st"
    using lt scan_alnum_measure [of "fst (char_take st)" "snd (char_take st)"]
    by (simp add: scan_keyword_def split_beta del: char_take_fst)
  then show "sc_measure (snd (scan_word_token st)) < sc_measure st"
    by (simp add: scan_word_token_def Let_def split_beta split: option.split)
  show "sc_measure (snd (scan_operator st)) < sc_measure st"
    using lt by (simp add: scan_operator_def Let_def split_beta del: char_take_fst)
  show "sc_measure (snd (scan_punct k st)) < sc_measure st"
    using lt by (simp add: scan_punct_def Let_def split_beta del: char_take_fst)
  have "sc_measure (snd (char_take (snd (char_take st)))) < sc_measure (snd (char_take st))"
    if "sc_char (snd (char_take st)) = ''=''"
    using that by (simp add: take_char_measure del: char_take_fst)
  with lt show "sc_measure (snd (scan_colon st)) < sc_measure st"
    by (auto simp add: scan_colon_def Let_def split_beta simp del: char_take_fst)
qed

lemma scan_token_measure:
  "scan_token st = Inr (token, st') \<Longrightarrow> tok_type token \<noteq> TK_EOT \<Longrightarrow> sc_measure st' < sc_measure st"
proof (induction st rule: scan_token.induct)
  case (1 st)
  show ?case
  proof (cases "sc_eot st")
    case True
    with "1.prems" show ?thesis by (auto simp add: scan_token.simps)
  next
    case False
    note ne = py_str_nonempty [of "sc_char st"]
    show ?thesis
    proof (cases "py_isspace (sc_char st)")
      case True
      with False "1.prems" "1.IH"(1) [OF False refl True] take_char_measure [of st] ne(1)
      show ?thesis by (simp add: scan_token.simps [of st] del: char_take_fst)
    next
      case nsp: False
      show ?thesis
      proof (cases "sc_char st = ''!''")
        case True
        then have "sc_measure (skip_comment st) < sc_measure st"
          using False by (simp add: skip_comment_measure_less)
        with True False nsp "1.prems" "1.IH"(2) [OF False refl nsp True] show ?thesis
          by (simp add: scan_token.simps [of st])
      next
        case nbang: False
        from False nsp nbang "1.prems" scan_branch_measure [of st] ne(2,3)
          OPERATORS_nonempty [of "sc_char st"]
        show ?thesis
          by (auto simp add: scan_token.simps [of st] Let_def split: if_splits
              dest!: arg_cong [where f = snd])
      qed
    qed
  qed
qed

text \<open>\<open>scan\<close>: append tokens until the end-of-text token has been appended.\<close>

function scan_loop :: "token list \<Rightarrow> scanner \<Rightarrow> scan_error + token list" where
  "scan_loop tokens st =
     bind_res (scan_token st)
       (\<lambda>(token, st'). if tok_type token = TK_EOT then Inr (tokens @ [token])
                       else scan_loop (tokens @ [token]) st')"
  by pat_completeness auto
termination
  by (relation "measure (\<lambda>(tokens, st). sc_measure st)") (auto dest: scan_token_measure)

declare scan_loop.simps [simp del]

definition scan :: "string \<Rightarrow> scan_error + token list" where
  "scan input = scan_loop [] (scanner_init input)"

section \<open>The cursor is always a position of the input\<close>

text \<open>
  After \<open>__init__\<close> the fields are determined by the input and \<open>pos\<close>:
  \<open>char\<close> is the character at \<open>pos - 1\<close> (empty past the end), the rest is
  what follows it, and \<open>eot\<close> holds exactly past the end.
\<close>

definition scanner_at :: "string \<Rightarrow> scanner \<Rightarrow> bool" where
  "scanner_at input st \<longleftrightarrow>
     1 \<le> sc_pos st \<and> sc_pos st \<le> Suc (length input)
     \<and> sc_char st = take 1 (drop (sc_pos st - 1) input)
     \<and> sc_rest st = drop (sc_pos st) input
     \<and> (sc_eot st \<longleftrightarrow> length input < sc_pos st)"

lemma scanner_at_char_eq:
  "scanner_at input st \<Longrightarrow> char_pos st < length input \<Longrightarrow> sc_char st = [input ! char_pos st]"
  by (auto simp: scanner_at_def char_pos_def take_Suc_conv_app_nth)

lemma scanner_at_char_Nil_iff:
  "scanner_at input st \<Longrightarrow> sc_char st = [] \<longleftrightarrow> sc_eot st"
  by (auto simp: scanner_at_def)

lemma scanner_at_eot_iff:
  "scanner_at input st \<Longrightarrow> sc_eot st \<longleftrightarrow> char_pos st = length input"
  by (auto simp: scanner_at_def char_pos_def)

lemma scanner_at_pos_le:
  "scanner_at input st \<Longrightarrow> char_pos st \<le> length input"
  by (auto simp: scanner_at_def char_pos_def)

lemma scanner_at_init: "scanner_at input (scanner_init input)"
  by (cases input) (auto simp: scanner_at_def scanner_init_def char_take_def)

lemma char_take_at:
  assumes "scanner_at input st" and "\<not> sc_eot st"
  shows "scanner_at input (snd (char_take st))"
    and "char_pos (snd (char_take st)) = Suc (char_pos st)"
proof -
  from assms have p: "1 \<le> sc_pos st" "sc_pos st \<le> length input"
    by (auto simp: scanner_at_def)
  have "take 1 (drop (sc_pos st) input) = [] \<longleftrightarrow> length input \<le> sc_pos st" by auto
  with assms p show "scanner_at input (snd (char_take st))"
    by (auto simp: scanner_at_def char_take_def Let_def drop_Suc tl_drop)
  from p show "char_pos (snd (char_take st)) = Suc (char_pos st)"
    by (simp add: char_take_def char_pos_def Let_def)
qed


text \<open>A cursor that advances: still on the input, and not backwards.\<close>

definition advances :: "string \<Rightarrow> scanner \<Rightarrow> scanner \<Rightarrow> bool" where
  "advances input st st' \<longleftrightarrow> scanner_at input st' \<and> char_pos st \<le> char_pos st'"

lemma advances_refl: "scanner_at input st \<Longrightarrow> advances input st st"
  by (simp add: advances_def)

lemma advances_trans: "advances input st1 st2 \<Longrightarrow> advances input st2 st3 \<Longrightarrow> advances input st1 st3"
  by (auto simp: advances_def)

lemma char_take_advances:
  "scanner_at input st \<Longrightarrow> \<not> sc_eot st \<Longrightarrow> advances input st (snd (char_take st))"
  by (simp add: advances_def char_take_at)

lemma nonempty_not_eot: "scanner_at input st \<Longrightarrow> sc_char st \<noteq> [] \<Longrightarrow> \<not> sc_eot st"
  by (simp add: scanner_at_char_Nil_iff)

lemma class_not_eot:
  "scanner_at input st \<Longrightarrow> py_isdigit (sc_char st) \<or> py_isalpha (sc_char st) \<or> py_isspace (sc_char st)
   \<Longrightarrow> \<not> sc_eot st"
  using scanner_at_char_Nil_iff [of input st] by (auto dest: py_str_nonempty)

lemma skip_comment_advances:
  "scanner_at input st \<Longrightarrow> advances input st (skip_comment st)"
proof (induction st rule: skip_comment.induct)
  case (1 st)
  show ?case
  proof (cases "sc_char st \<noteq> ''\<newline>'' \<and> \<not> sc_eot st")
    case True
    with "1.prems" have "advances input st (snd (char_take st))"
      by (simp add: char_take_advances)
    moreover from True "1.prems" this have "advances input (snd (char_take st)) (skip_comment (snd (char_take st)))"
      by (intro "1.IH") (auto simp: advances_def)
    ultimately show ?thesis
      using True by (subst skip_comment.simps) (auto intro: advances_trans simp del: char_take_fst)
  next
    case False
    with "1.prems" show ?thesis by (subst skip_comment.simps) (auto simp: advances_refl)
  qed
qed

lemma scan_digits_advances:
  "scanner_at input st \<Longrightarrow> advances input st (snd (scan_digits numlist st))"
proof (induction numlist st rule: scan_digits.induct)
  case (1 numlist st)
  show ?case
  proof (cases "py_isdigit (sc_char st)")
    case True
    with "1.prems" have ne: "\<not> sc_eot st" by (simp add: class_not_eot)
    with "1.prems" have "advances input st (snd (char_take st))"
      by (simp add: char_take_advances)
    moreover from True this have "advances input (snd (char_take st)) (snd (scan_digits (numlist @ [fst (char_take st)]) (snd (char_take st))))"
      by (intro "1.IH") (auto simp: advances_def)
    ultimately show ?thesis
      using True by (subst scan_digits.simps) (auto intro: advances_trans simp del: char_take_fst)
  next
    case False
    with "1.prems" show ?thesis by (subst scan_digits.simps) (simp add: advances_refl)
  qed
qed


lemma scan_alnum_advances:
  "scanner_at input st \<Longrightarrow> advances input st (snd (scan_alnum word st))"
proof (induction word st rule: scan_alnum.induct)
  case (1 word st)
  show ?case
  proof (cases "py_isalpha (sc_char st) \<or> py_isdigit (sc_char st)")
    case True
    with "1.prems" have ne: "\<not> sc_eot st" by (auto simp add: class_not_eot)
    with "1.prems" have "advances input st (snd (char_take st))"
      by (simp add: char_take_advances)
    moreover from True this have "advances input (snd (char_take st)) (snd (scan_alnum (word @ fst (char_take st)) (snd (char_take st))))"
      by (intro "1.IH") (auto simp: advances_def)
    ultimately show ?thesis
      using True by (subst scan_alnum.simps) (auto intro: advances_trans simp del: char_take_fst)
  next
    case False
    with "1.prems" show ?thesis by (subst scan_alnum.simps) (simp add: advances_refl)
  qed
qed

lemma take_then_advance:
  assumes "scanner_at input st" "\<not> sc_eot st" "advances input (snd (char_take st)) st'"
  shows "scanner_at input st'" and "char_pos st < char_pos st'"
  using assms char_take_at [OF assms(1,2)] by (auto simp: advances_def)

lemma scan_branches_at:
  assumes at: "scanner_at input st" and ne: "\<not> sc_eot st"
  shows "scan_int st = (t, st') \<Longrightarrow> scanner_at input st' \<and> char_pos st < char_pos st' \<and> tok_pos t = char_pos st"
    and "scan_word_token st = (t, st') \<Longrightarrow> scanner_at input st' \<and> char_pos st < char_pos st' \<and> tok_pos t = char_pos st"
    and "scan_operator st = (t, st') \<Longrightarrow> scanner_at input st' \<and> char_pos st < char_pos st' \<and> tok_pos t = char_pos st"
    and "scan_punct k st = (t, st') \<Longrightarrow> scanner_at input st' \<and> char_pos st < char_pos st' \<and> tok_pos t = char_pos st"
    and "scan_colon st = (t, st') \<Longrightarrow> scanner_at input st' \<and> char_pos st < char_pos st' \<and> tok_pos t = char_pos st"
proof -
  let ?st1 = "snd (char_take st)"
  have at1: "scanner_at input ?st1" by (rule char_take_at(1) [OF at ne])
  note step = take_then_advance [OF at ne]
  show "scan_int st = (t, st') \<Longrightarrow> scanner_at input st' \<and> char_pos st < char_pos st' \<and> tok_pos t = char_pos st"
    using step [OF scan_digits_advances [OF at1, of "[sc_char st]"]]
    by (auto simp: scan_int_def Let_def split_beta)
  show "scan_word_token st = (t, st') \<Longrightarrow> scanner_at input st' \<and> char_pos st < char_pos st' \<and> tok_pos t = char_pos st"
    using step [OF scan_alnum_advances [OF at1, of "sc_char st"]]
    by (auto simp: scan_word_token_def scan_keyword_def Let_def split_beta split: option.splits)
  show "scan_operator st = (t, st') \<Longrightarrow> scanner_at input st' \<and> char_pos st < char_pos st' \<and> tok_pos t = char_pos st"
    using step [OF advances_refl [OF at1]] by (auto simp: scan_operator_def Let_def split_beta)
  show "scan_punct k st = (t, st') \<Longrightarrow> scanner_at input st' \<and> char_pos st < char_pos st' \<and> tok_pos t = char_pos st"
    using step [OF advances_refl [OF at1]] by (auto simp: scan_punct_def Let_def split_beta)
  have "advances input ?st1 (snd (char_take ?st1))" if "sc_char ?st1 = ''=''"
    using that at1 by (intro char_take_advances) (auto simp: scanner_at_char_Nil_iff [symmetric])
  then show "scan_colon st = (t, st') \<Longrightarrow> scanner_at input st' \<and> char_pos st < char_pos st' \<and> tok_pos t = char_pos st"
    using step [OF advances_refl [OF at1]] step
    by (auto simp: scan_colon_def Let_def split_beta split: if_splits)
qed


lemma KEYWORDS_not_EOT: "map_of KEYWORDS w = Some k \<Longrightarrow> k \<noteq> TK_EOT"
  by (auto simp: KEYWORDS_def split: if_splits)

lemma scan_branch_types:
  "tok_type (fst (scan_int st)) = TK_INTLITERAL"
  "tok_type (fst (scan_word_token st)) \<noteq> TK_EOT"
  "tok_type (fst (scan_operator st)) = TK_OPERATOR"
  "tok_type (fst (scan_punct k st)) = k"
  "tok_type (fst (scan_colon st)) \<in> {TK_BECOMES, TK_COLON}"
  by (auto simp: scan_int_def scan_word_token_def scan_operator_def scan_punct_def scan_colon_def
      Let_def split_beta dest: KEYWORDS_not_EOT split: option.split)

lemma scan_token_at:
  "scanner_at input st \<Longrightarrow> scan_token st = Inr (t, st') \<Longrightarrow>
   scanner_at input st' \<and> char_pos st \<le> tok_pos t \<and>
   (if tok_type t = TK_EOT then tok_pos t = length input \<and> sc_eot st' else tok_pos t < char_pos st')"
proof (induction st rule: scan_token.induct)
  case (1 st)
  show ?case
  proof (cases "sc_eot st")
    case True
    with "1.prems" show ?thesis
      by (auto simp add: scan_token.simps scanner_at_eot_iff)
  next
    case False
    show ?thesis
    proof (cases "py_isspace (sc_char st)")
      case True
      have adv: "advances input st (snd (char_take st))"
        using "1.prems"(1) False by (rule char_take_advances)
      with "1.prems" False True "1.IH"(1) [OF False refl True]
      show ?thesis by (auto simp add: scan_token.simps [of st] advances_def simp del: char_take_fst)
    next
      case nsp: False
      show ?thesis
      proof (cases "sc_char st = ''!''")
        case True
        have adv: "advances input st (skip_comment st)"
          using "1.prems"(1) by (rule skip_comment_advances)
        with "1.prems" False nsp True "1.IH"(2) [OF False refl nsp True]
        show ?thesis by (auto simp add: scan_token.simps [of st] advances_def)
      next
        case nbang: False
        note br = scan_branches_at [OF "1.prems"(1) False]
        from "1.prems"(2) False nsp nbang have
          "(scan_int st = (t, st') \<or> scan_word_token st = (t, st') \<or> scan_operator st = (t, st')
            \<or> (\<exists>k. k \<noteq> TK_EOT \<and> scan_punct k st = (t, st')) \<or> scan_colon st = (t, st'))"
          by (auto simp add: scan_token.simps [of st] Let_def split: if_splits)
        moreover have "tok_type t \<noteq> TK_EOT" if "scan_int st = (t, st') \<or> scan_word_token st = (t, st')
            \<or> scan_operator st = (t, st') \<or> (\<exists>k. k \<noteq> TK_EOT \<and> scan_punct k st = (t, st'))
            \<or> scan_colon st = (t, st')"
          using that scan_branch_types [where st = st] by (auto dest!: arg_cong [where f = fst])
        ultimately show ?thesis
          using br by (auto simp: scanner_at_pos_le)
      qed
    qed
  qed
qed


lemma scan_loop_at:
  "scanner_at input st \<Longrightarrow> scan_loop toks st = Inr res \<Longrightarrow>
   \<exists>ts. res = toks @ ts \<and> ts \<noteq> [] \<and> tok_type (last ts) = TK_EOT \<and> tok_pos (last ts) = length input
      \<and> (\<forall>t \<in> set (butlast ts). tok_type t \<noteq> TK_EOT)
      \<and> sorted_wrt (<) (map tok_pos ts) \<and> (\<forall>t \<in> set ts. char_pos st \<le> tok_pos t)"
proof (induction toks st arbitrary: res rule: scan_loop.induct)
  case (1 toks st)
  from "1.prems"(2) obtain t st' where tok: "scan_token st = Inr (t, st')"
    and rest: "(if tok_type t = TK_EOT then Inr (toks @ [t]) else scan_loop (toks @ [t]) st') = Inr res"
    by (subst (asm) scan_loop.simps) (auto simp: bind_res_eq_Inr)
  note at = scan_token_at [OF "1.prems"(1) tok]
  show ?case
  proof (cases "tok_type t = TK_EOT")
    case True
    with rest at show ?thesis by (intro exI [of _ "[t]"]) auto
  next
    case False
    with rest have "scan_loop (toks @ [t]) st' = Inr res" by simp
    from "1.IH" [OF tok refl False] at this False obtain ts where
      ts: "res = (toks @ [t]) @ ts" "ts \<noteq> []" "tok_type (last ts) = TK_EOT"
        "tok_pos (last ts) = length input" "\<forall>t \<in> set (butlast ts). tok_type t \<noteq> TK_EOT"
        "sorted_wrt (<) (map tok_pos ts)" "\<forall>u \<in> set ts. char_pos st' \<le> tok_pos u"
      by auto
    from at False have "tok_pos t < char_pos st'" by simp
    with ts at False show ?thesis
      by (intro exI [of _ "t # ts"]) (auto simp: butlast.simps(2))
  qed
qed

section \<open>Properties of the scanner\<close>

lemma sorted_wrt_less_le_last:
  "sorted_wrt (<) (xs :: nat list) \<Longrightarrow> x \<in> set xs \<Longrightarrow> x \<le> last xs"
proof (induction xs)
  case (Cons y ys)
  show ?case
  proof (cases "ys = []")
    case False
    with Cons have "x \<le> last ys \<or> x = y" by auto
    moreover from False Cons.prems(1) have "y < last ys" by simp
    ultimately show ?thesis using False by auto
  qed (use Cons.prems in simp)
qed simp

text \<open>
  C1: A successful scan returns a non-empty token list whose last token is the end-of-
  text token, at the position just past the input, and no earlier token is an end-of-
  text token.
\<close>

theorem scan_ends_with_eot:
  assumes "scan input = Inr toks"
  shows "toks \<noteq> [] \<and> tok_type (last toks) = TK_EOT \<and> tok_pos (last toks) = length input
         \<and> (\<forall>t \<in> set (butlast toks). tok_type t \<noteq> TK_EOT)"
  using scan_loop_at [OF scanner_at_init assms [unfolded scan_def]] by auto

theorem scan_ends_with_eot_witness:
  "\<exists>toks. scan ''x := 1;'' = Inr toks \<and> toks \<noteq> [] \<and> tok_type (last toks) = TK_EOT
     \<and> tok_pos (last toks) = 7 \<and> (\<forall>t \<in> set (butlast toks). tok_type t \<noteq> TK_EOT)"
proof -
  have h: "scan ''x := 1;'' = Inr (projr (scan ''x := 1;''))" by code_simp
  from scan_ends_with_eot [OF h] h show ?thesis by auto
qed

lemma scan_positions:
  assumes "scan input = Inr toks"
  shows "sorted_wrt (<) (map tok_pos toks) \<and> (\<forall>t \<in> set toks. tok_pos t \<le> length input)"
proof -
  obtain ts where ts: "toks = ts" "ts \<noteq> []" "tok_pos (last ts) = length input"
    "sorted_wrt (<) (map tok_pos ts)"
    using scan_loop_at [OF scanner_at_init assms [unfolded scan_def]] by auto
  have "tok_pos t \<le> length input" if "t \<in> set toks" for t
  proof -
    from that ts have "tok_pos t \<in> set (map tok_pos ts)" by simp
    with ts(4) have "tok_pos t \<le> last (map tok_pos ts)" by (rule sorted_wrt_less_le_last)
    with ts(2,3) show ?thesis by (simp add: last_map)
  qed
  with ts show ?thesis by simp
qed

text \<open>
  C8: The positions of the tokens of a successful scan are strictly increasing and never
  beyond the end of the input.
\<close>

theorem scan_positions_increasing:
  assumes "scan input = Inr toks"
  shows "sorted_wrt (<) (map tok_pos toks) \<and> (\<forall>t \<in> set toks. tok_pos t \<le> length input)"
  using assms by (rule scan_positions)

theorem scan_positions_increasing_witness:
  "\<exists>toks. scan ''if a then b := 1; else b := 2;'' = Inr toks
     \<and> sorted_wrt (<) (map tok_pos toks) \<and> (\<forall>t \<in> set toks. tok_pos t \<le> length ''if a then b := 1; else b := 2;'')"
proof -
  have h: "scan ''if a then b := 1; else b := 2;'' = Inr (projr (scan ''if a then b := 1; else b := 2;''))"
    by code_simp
  from scan_positions_increasing [OF h] h show ?thesis by auto
qed

text \<open>
  C16: A successful scan returns at most one token more than the input has characters.
\<close>

theorem scan_token_count:
  assumes "scan input = Inr toks"
  shows "length toks \<le> Suc (length input)"
proof -
  from scan_positions [OF assms]
  have d: "distinct (map tok_pos toks)" and sub: "set (map tok_pos toks) \<subseteq> {0..length input}"
    by (auto simp: strict_sorted_iff)
  from d have "length toks = card (set (map tok_pos toks))" by (metis distinct_card length_map)
  also from sub have "\<dots> \<le> card {0..length input}" by (rule card_mono [rotated]) simp
  finally show ?thesis by simp
qed


definition token_start_char :: "char \<Rightarrow> bool" where
  "token_start_char ch \<longleftrightarrow>
     py_space_char ch \<or> ch = CHR ''!'' \<or> py_digit_char ch \<or> py_alpha_char ch
     \<or> [ch] \<in> set OPERATORS \<or> ch \<in> set '';:~(),''"

lemma scan_token_error:
  "scanner_at input st \<Longrightarrow> scan_token st = Inl (ScannerError p c) \<Longrightarrow>
   p < length input \<and> c = [input ! p] \<and> \<not> token_start_char (input ! p)"
proof (induction st rule: scan_token.induct)
  case (1 st)
  show ?case
  proof (cases "sc_eot st")
    case True
    with "1.prems" show ?thesis by (simp add: scan_token.simps)
  next
    case False
    show ?thesis
    proof (cases "py_isspace (sc_char st)")
      case True
      with "1.prems" False "1.IH"(1) [OF False refl True] char_take_at(1) [OF "1.prems"(1) False]
      show ?thesis by (simp add: scan_token.simps [of st] del: char_take_fst)
    next
      case nsp: False
      show ?thesis
      proof (cases "sc_char st = ''!''")
        case True
        with "1.prems" False nsp "1.IH"(2) [OF False refl nsp True]
          skip_comment_advances [OF "1.prems"(1)]
        show ?thesis by (simp add: scan_token.simps [of st] advances_def)
      next
        case nbang: False
        from "1.prems"(1) False have lt: "char_pos st < length input"
          using scanner_at_eot_iff scanner_at_pos_le by (metis le_neq_implies_less)
        with "1.prems"(1) have ch: "sc_char st = [input ! char_pos st]"
          by (rule scanner_at_char_eq)
        from "1.prems"(2) False nsp nbang
        have "p = char_pos st \<and> c = sc_char st \<and> \<not> py_isdigit c \<and> \<not> py_isalpha c
              \<and> c \<notin> set OPERATORS \<and> c \<notin> {'';'', '':'', ''~'', ''('', '')'', '',''}"
          by (auto simp add: scan_token.simps [of st] Let_def split: if_splits)
        with lt ch nsp nbang show ?thesis
          by (auto simp add: token_start_char_def)
      qed
    qed
  qed
qed

lemma scan_loop_error:
  "scanner_at input st \<Longrightarrow> scan_loop toks st = Inl e \<Longrightarrow>
   \<exists>st'. scanner_at input st' \<and> scan_token st' = Inl e"
proof (induction toks st rule: scan_loop.induct)
  case (1 toks st)
  show ?case
  proof (cases "scan_token st")
    case (Inl e')
    with "1.prems" show ?thesis by (subst (asm) scan_loop.simps) auto
  next
    case (Inr r)
    obtain t st' where r: "r = (t, st')" by (cases r)
    with Inr "1.prems" have "tok_type t \<noteq> TK_EOT" and "scan_loop (toks @ [t]) st' = Inl e"
      by (subst (asm) scan_loop.simps; simp split: if_splits)+
    moreover have "scanner_at input st'"
      using scan_token_at [OF "1.prems"(1)] Inr r by auto
    ultimately show ?thesis using "1.IH" [OF Inr [unfolded r] refl] by blast
  qed
qed

text \<open>
  C15: When the scanner fails, the error carries a position inside the input and the
  one-character string found there, and that character starts no token.
\<close>

theorem scan_error_reports_char:
  assumes "scan input = Inl (ScannerError p c)"
  shows "p < length input \<and> c = [input ! p] \<and> \<not> token_start_char (input ! p)"
proof -
  from scan_loop_error [OF scanner_at_init assms [unfolded scan_def]]
  obtain st' where "scanner_at input st'" "scan_token st' = Inl (ScannerError p c)" by blast
  then show ?thesis by (rule scan_token_error)
qed

theorem scan_error_reports_char_witness:
  "scan ''a # b'' = Inl (ScannerError 2 ''#'') \<and> 2 < length ''a # b''
   \<and> ''#'' = [''a # b'' ! 2] \<and> \<not> token_start_char (''a # b'' ! 2)"
proof -
  have h: "scan ''a # b'' = Inl (ScannerError 2 ''#'')" by code_simp
  from h scan_error_reports_char [OF h] show ?thesis by blast
qed


definition ident_word :: "string \<Rightarrow> bool" where
  "ident_word w \<longleftrightarrow> w \<noteq> [] \<and> py_alpha_char (hd w) \<and> list_all (\<lambda>c. py_alpha_char c \<or> py_digit_char c) w"

definition token_wf :: "token \<Rightarrow> bool" where
  "token_wf t =
     (if tok_type t = TK_IDENTIFIER then
        (case tok_val t of VStr w \<Rightarrow> ident_word w \<and> map_of KEYWORDS w = None | VInt _ \<Rightarrow> False)
      else if tok_type t = TK_INTLITERAL then (case tok_val t of VInt _ \<Rightarrow> True | VStr _ \<Rightarrow> False)
      else if tok_type t = TK_OPERATOR then
        (case tok_val t of VStr s \<Rightarrow> s \<in> set OPERATORS \<and> length s = 1 | VInt _ \<Rightarrow> False)
      else tok_val t = VInt 0)"

lemma KEYWORDS_kinds:
  "map_of KEYWORDS w = Some k \<Longrightarrow> k \<notin> {TK_IDENTIFIER, TK_INTLITERAL, TK_OPERATOR}"
  by (auto simp: KEYWORDS_def split: if_splits)

lemma scan_alnum_word:
  "\<exists>w'. fst (scan_alnum w st) = w @ w' \<and> list_all (\<lambda>c. py_alpha_char c \<or> py_digit_char c) w'"
proof (induction w st rule: scan_alnum.induct)
  case (1 word st)
  show ?case
  proof (cases "py_isalpha (sc_char st) \<or> py_isdigit (sc_char st)")
    case True
    then have "list_all (\<lambda>c. py_alpha_char c \<or> py_digit_char c) (sc_char st)"
      by (auto simp: py_isalpha_def py_isdigit_def list_all_iff)
    with True "1.IH" show ?thesis
      by (subst scan_alnum.simps) auto
  next
    case False
    then show ?thesis by (subst scan_alnum.simps) simp
  qed
qed

lemma scan_token_wf:
  assumes at: "scanner_at input st" and tok: "scan_token st = Inr (t, st')"
  shows "token_wf t"
  using at tok
proof (induction st rule: scan_token.induct)
  case (1 st)
  show ?case
  proof (cases "sc_eot st")
    case True
    with "1.prems" show ?thesis by (auto simp add: scan_token.simps token_wf_def)
  next
    case False
    from "1.prems"(1) False have lt: "char_pos st < length input"
      using scanner_at_eot_iff scanner_at_pos_le by (metis le_neq_implies_less)
    with "1.prems"(1) have ch: "sc_char st = [input ! char_pos st]"
      by (rule scanner_at_char_eq)
    show ?thesis
    proof (cases "py_isspace (sc_char st)")
      case True
      with "1.prems" False "1.IH"(1) [OF False refl True] char_take_at(1) [OF "1.prems"(1) False]
      show ?thesis by (simp add: scan_token.simps [of st] del: char_take_fst)
    next
      case nsp: False
      show ?thesis
      proof (cases "sc_char st = ''!''")
        case True
        with "1.prems" False nsp "1.IH"(2) [OF False refl nsp True]
          skip_comment_advances [OF "1.prems"(1)]
        show ?thesis by (simp add: scan_token.simps [of st] advances_def)
      next
        case nbang: False
        obtain w' where w': "fst (scan_alnum (sc_char st) (snd (char_take st))) = sc_char st @ w'"
          "list_all (\<lambda>c. py_alpha_char c \<or> py_digit_char c) w'"
          using scan_alnum_word by blast
        have word: "ident_word (fst (scan_keyword st))" if "py_isalpha (sc_char st)"
          using that w' ch by (simp add: scan_keyword_def split_beta ident_word_def)
        from "1.prems"(2) False nsp nbang word ch show ?thesis
          by (auto simp add: scan_token.simps [of st] Let_def token_wf_def scan_int_def
              scan_word_token_def scan_operator_def scan_punct_def scan_colon_def split_beta
              split: if_splits option.splits dest: KEYWORDS_kinds)
      qed
    qed
  qed
qed

lemma scan_loop_wf:
  "scanner_at input st \<Longrightarrow> scan_loop toks st = Inr res \<Longrightarrow> list_all token_wf toks \<Longrightarrow>
   list_all token_wf res"
proof (induction toks st rule: scan_loop.induct)
  case (1 toks st)
  from "1.prems"(2) obtain t st' where tok: "scan_token st = Inr (t, st')"
    and rest: "(if tok_type t = TK_EOT then Inr (toks @ [t]) else scan_loop (toks @ [t]) st') = Inr res"
    by (subst (asm) scan_loop.simps) (auto simp: bind_res_eq_Inr)
  have wf: "token_wf t" using "1.prems"(1) tok by (rule scan_token_wf)
  have at': "scanner_at input st'" using scan_token_at [OF "1.prems"(1) tok] by simp
  show ?case
  proof (cases "tok_type t = TK_EOT")
    case True
    with rest wf "1.prems"(3) show ?thesis by auto
  next
    case False
    with rest have "scan_loop (toks @ [t]) st' = Inr res" by simp
    with "1.IH" [OF tok refl False at'] wf "1.prems"(3) show ?thesis by simp
  qed
qed

text \<open>
  C9: Every token of a successful scan is well formed: an identifier carries an
  alphanumeric word that is not a keyword, an integer literal an integer, an operator a
  one-character operator string, every other kind the value 0.
\<close>

theorem scan_tokens_wf:
  assumes "scan input = Inr toks"
  shows "list_all token_wf toks"
  using scan_loop_wf [OF scanner_at_init assms [unfolded scan_def]] by simp

theorem scan_tokens_wf_witness:
  "\<exists>toks. scan ''let f := a + 10;'' = Inr toks \<and> list_all token_wf toks"
proof -
  have h: "scan ''let f := a + 10;'' = Inr (projr (scan ''let f := a + 10;''))" by code_simp
  from scan_tokens_wf [OF h] h show ?thesis by blast
qed

theorem scan_token_count_witness:
  "\<exists>toks. scan ''x:=1'' = Inr toks \<and> length toks \<le> Suc (length ''x:=1'')"
proof -
  have h: "scan ''x:=1'' = Inr (projr (scan ''x:=1''))" by code_simp
  from scan_token_count [OF h] h show ?thesis by blast
qed

end
