(* ===== verification/AST.thy ===== *)
theory AST
  imports Prelude
begin

text \<open>
  The abstract syntax of Mini Triangle. The module \<open>ast\<close> that \<open>parser.py\<close> and
  \<open>codegen.py\<close> import is not part of the sources, so its classes are modelled from
  the spec's data model and from the constructor calls of \<open>src/parser.py\<close> and the
  attribute reads of \<open>src/codegen.py\<close>: one constructor per class, with the
  arguments in the order the parser passes them. The parser builds an
  \<open>ast.CallCommand\<close> both for a call statement and for a call inside an
  expression; the expression occurrence is the constructor \<open>CallExpression\<close>,
  and the code generator treats it exactly as the statement (it calls
  \<open>gen_command\<close> on it). The \<open>return_type\<close> of a function declaration is the raw
  token value, a string, as the parser passes it.
\<close>

datatype vname = Vname string

datatype type_denoter = TypeDenoter string

datatype expression =
    BinaryExpression expression string expression
  | UnaryExpression string expression
  | IntegerExpression nat
  | VnameExpression vname
  | CallExpression string "expression list"

datatype command =
    SequentialCommand command command
  | AssignCommand vname expression
  | CallCommand string "expression list"
  | IfCommand expression command command
  | WhileCommand expression command
  | LetCommand decl command
  | ReturnCommand expression
and decl =
    ConstDeclaration string expression
  | VarDeclaration string type_denoter
  | SequentialDeclaration decl decl
  | FunctionDeclaration string "(vname \<times> type_denoter) list" string command

datatype program = Program command

text \<open>
  The binary operators that occur in a tree: the parser admits only those of its
  three precedence tiers, and the code generator dispatches on them.
\<close>

fun binops_expr :: "expression \<Rightarrow> string set"
  and binops_exprs :: "expression list \<Rightarrow> string set" where
  "binops_expr (BinaryExpression e1 oper e2) = insert oper (binops_expr e1 \<union> binops_expr e2)"
| "binops_expr (UnaryExpression oper e) = binops_expr e"
| "binops_expr (IntegerExpression n) = {}"
| "binops_expr (VnameExpression v) = {}"
| "binops_expr (CallExpression f args) = binops_exprs args"
| "binops_exprs [] = {}"
| "binops_exprs (e # es) = binops_expr e \<union> binops_exprs es"

fun binops_cmd :: "command \<Rightarrow> string set"
  and binops_decl :: "decl \<Rightarrow> string set" where
  "binops_cmd (SequentialCommand c1 c2) = binops_cmd c1 \<union> binops_cmd c2"
| "binops_cmd (AssignCommand v e) = binops_expr e"
| "binops_cmd (CallCommand f args) = binops_exprs args"
| "binops_cmd (IfCommand e c1 c2) = binops_expr e \<union> binops_cmd c1 \<union> binops_cmd c2"
| "binops_cmd (WhileCommand e c) = binops_expr e \<union> binops_cmd c"
| "binops_cmd (LetCommand d c) = binops_decl d \<union> binops_cmd c"
| "binops_cmd (ReturnCommand e) = binops_expr e"
| "binops_decl (ConstDeclaration x e) = binops_expr e"
| "binops_decl (VarDeclaration x t) = {}"
| "binops_decl (SequentialDeclaration d1 d2) = binops_decl d1 \<union> binops_decl d2"
| "binops_decl (FunctionDeclaration f ps r c) = binops_cmd c"

end
