(* ===== verification/Parser.thy ===== *)
theory Parser
  imports Scanner AST
begin

text \<open>
  The recursive-descent parser of \<open>src/parser.py\<close>. The state of class
  \<open>Parser\<close> is a record with the token list, \<open>curindex\<close> and \<open>curtoken\<close>;
  \<open>token_accept_any\<close>, \<open>token_accept\<close> and \<open>token_look_ahead\<close> are functions
  on it; every \<open>parse_*\<close> method is a function from the state to a
  \<open>ParserException\<close> or the tree built and the new state, and each \<open>while\<close>
  loop of a method is a function of its own (\<open>..._loop\<close>) with the loop's
  accumulator as argument. The methods call each other recursively, so they are
  defined together and take a fuel argument that each call decreases; running out
  is the error \<open>ParserOutOfFuel\<close>, which the Python code does not have. The
  lemmas prove that every method leaves the token list alone and never moves the
  cursor backwards, that the methods which must read a token move it forwards, and
  that the fuel \<open>parser_fuel\<close> given by \<open>parse\<close> is always enough: the parser
  never runs out of fuel on any token list.
\<close>

section \<open>Parser state and token primitives\<close>

datatype parse_error =
    ParserException nat token_kind "token_kind option"
  | ParserIndexError
  | ParserAttributeError
  | ParserOutOfFuel

record parser =
  p_tokens :: "token list"
  curindex :: nat
  curtoken :: token

text \<open>\<open>Parser.__init__\<close> reads \<open>tokens[0]\<close>, an \<open>IndexError\<close> on an empty list.\<close>

definition parser_init :: "token list \<Rightarrow> parse_error + parser" where
  "parser_init tokens =
     (if tokens = [] then Inl ParserIndexError
      else Inr \<lparr>p_tokens = tokens, curindex = 0, curtoken = tokens ! 0\<rparr>)"

definition token_accept_any :: "parser \<Rightarrow> parse_error + parser" where
  "token_accept_any p =
     (if tok_type (curtoken p) \<noteq> TK_EOT then
        (if Suc (curindex p) < length (p_tokens p)
         then Inr (p\<lparr>curindex := Suc (curindex p), curtoken := p_tokens p ! Suc (curindex p)\<rparr>)
         else Inl ParserIndexError)
      else Inr p)"

text \<open>\<open>token_look_ahead\<close> reads the misspelt attribute \<open>curtoken.tye\<close> first.\<close>

definition token_look_ahead :: "parser \<Rightarrow> parse_error + token" where
  "token_look_ahead p = Inl ParserAttributeError"

definition token_accept :: "token_kind \<Rightarrow> parser \<Rightarrow> parse_error + parser" where
  "token_accept k p =
     (if tok_type (curtoken p) \<noteq> k
      then Inl (ParserException (tok_pos (curtoken p)) (tok_type (curtoken p)) (Some k))
      else token_accept_any p)"

text \<open>\<open>raise ParserException(self.curtoken.pos, self.curtoken.type)\<close>, no expected kind.\<close>

definition unexpected :: "parser \<Rightarrow> parse_error" where
  "unexpected p = ParserException (tok_pos (curtoken p)) (tok_type (curtoken p)) None"

text \<open>
  The token value read as a name or as an integer literal. The scanner gives
  identifiers and operators a string and literals an integer
  (as the scanner lemmas show); the empty string and 0 stand for a value of the
  other shape, which scanned input never has.
\<close>

fun val_str :: "token_val \<Rightarrow> string" where
  "val_str (VStr s) = s"
| "val_str (VInt n) = []"

fun val_int :: "token_val \<Rightarrow> nat" where
  "val_int (VInt n) = n"
| "val_int (VStr s) = 0"

text \<open>\<open>token.type == TK_OPERATOR and token.val in ops\<close>.\<close>

definition is_oper_in :: "string list \<Rightarrow> token \<Rightarrow> bool" where
  "is_oper_in ops t \<longleftrightarrow> tok_type t = TK_OPERATOR \<and> tok_val t \<in> set (map VStr ops)"

section \<open>The parameter list\<close>

text \<open>One \<open>Identifier ':' Type-denoter\<close> of \<open>parse_parameter_list\<close>.\<close>

definition parse_param :: "parser \<Rightarrow> parse_error + ((vname \<times> type_denoter) \<times> parser)" where
  "parse_param p =
     (let var_name = val_str (tok_val (curtoken p)) in
      bind_res (token_accept TK_IDENTIFIER p) (\<lambda>p1.
      bind_res (token_accept TK_COLON p1) (\<lambda>p2.
      (let var_type = val_str (tok_val (curtoken p2)) in
       bind_res (token_accept TK_IDENTIFIER p2) (\<lambda>p3.
       Inr ((Vname var_name, TypeDenoter var_type), p3))))))"

text \<open>
  The invariant of a parser object: the cursor is on the token list and
  \<open>curtoken\<close> is the token under it. How a parsing step moves the cursor:
  never backwards (\<open>adv\<close>), or strictly forwards from a position on the list
  (\<open>sadv\<close>); in both cases the token list is left alone.
\<close>

definition parser_wf :: "parser \<Rightarrow> bool" where
  "parser_wf p \<longleftrightarrow> curindex p < length (p_tokens p) \<and> curtoken p = p_tokens p ! curindex p"

definition adv :: "parser \<Rightarrow> parser \<Rightarrow> bool" where
  "adv p p' \<longleftrightarrow> p_tokens p' = p_tokens p \<and> curindex p \<le> curindex p'"

definition sadv :: "parser \<Rightarrow> parser \<Rightarrow> bool" where
  "sadv p p' \<longleftrightarrow> p_tokens p' = p_tokens p \<and> curindex p < curindex p' \<and> curindex p < length (p_tokens p)"

named_theorems parse_adv_intros "how the token primitives move the cursor"

lemma parser_init_wf: "parser_init tokens = Inr p \<Longrightarrow> parser_wf p \<and> p_tokens p = tokens \<and> curindex p = 0"
  by (auto simp: parser_init_def parser_wf_def split: if_splits)

lemma token_accept_any_adv [parse_adv_intros]:
  "token_accept_any p = Inr p' \<Longrightarrow> adv p p' \<and> (tok_type (curtoken p) \<noteq> TK_EOT \<longrightarrow> sadv p p')"
  by (auto simp: token_accept_any_def adv_def sadv_def split: if_splits)

lemma token_accept_any_wf:
  "token_accept_any p = Inr p' \<Longrightarrow> parser_wf p \<Longrightarrow> parser_wf p'"
  by (auto simp: token_accept_any_def parser_wf_def split: if_splits)

lemma token_accept_wf: "token_accept k p = Inr p' \<Longrightarrow> parser_wf p \<Longrightarrow> parser_wf p'"
  by (auto simp: token_accept_def split: if_splits intro: token_accept_any_wf)

lemma token_accept_any_EOT: "tok_type (curtoken p) = TK_EOT \<Longrightarrow> token_accept_any p = Inr p"
  by (simp add: token_accept_any_def)

lemma token_accept_adv [parse_adv_intros]:
  "token_accept k p = Inr p' \<Longrightarrow> adv p p' \<and> (k \<noteq> TK_EOT \<longrightarrow> sadv p p')"
  by (auto simp: token_accept_def split: if_splits dest: token_accept_any_adv)

lemma token_accept_kind: "token_accept k p = Inr p' \<Longrightarrow> tok_type (curtoken p) = k"
  by (simp add: token_accept_def split: if_splits)

lemma adv_trans [trans]: "adv p1 p2 \<Longrightarrow> adv p2 p3 \<Longrightarrow> adv p1 p3"
  by (auto simp: adv_def)

lemma sadv_adv_trans [trans]: "sadv p1 p2 \<Longrightarrow> adv p2 p3 \<Longrightarrow> sadv p1 p3"
  by (auto simp: adv_def sadv_def)

lemma adv_sadv_trans [trans]: "adv p1 p2 \<Longrightarrow> sadv p2 p3 \<Longrightarrow> sadv p1 p3"
  by (auto simp: adv_def sadv_def)

lemma sadv_imp_adv: "sadv p p' \<Longrightarrow> adv p p'"
  by (auto simp add: adv_def sadv_def)

lemma adv_refl [simp]: "adv p p"
  by (simp add: adv_def)

lemma parse_param_sadv: "parse_param p = Inr (x, p') \<Longrightarrow> sadv p p'"
proof -
  assume "parse_param p = Inr (x, p')"
  then obtain p1 p2 where a: "token_accept TK_IDENTIFIER p = Inr p1" "token_accept TK_COLON p1 = Inr p2"
    "token_accept TK_IDENTIFIER p2 = Inr p'"
    by (auto simp: parse_param_def Let_def bind_res_eq_Inr)
  have "sadv p p1" using token_accept_adv [OF a(1)] by simp
  also have "adv p1 p2" using token_accept_adv [OF a(2)] by simp
  also have "adv p2 p'" using token_accept_adv [OF a(3)] by simp
  finally show ?thesis .
qed

text \<open>The \<open>while self.curtoken.type == TK_COMMA\<close> loop of \<open>parse_parameter_list\<close>.\<close>

function parse_parameter_loop ::
  "(vname \<times> type_denoter) list \<Rightarrow> parser \<Rightarrow> parse_error + ((vname \<times> type_denoter) list \<times> parser)" where
  "parse_parameter_loop param_list p =
     (if tok_type (curtoken p) = TK_COMMA then
        bind_res (token_accept_any p) (\<lambda>p1.
        bind_res (parse_param p1) (\<lambda>(x, p2).
        parse_parameter_loop (param_list @ [x]) p2))
      else Inr (param_list, p))"
  by pat_completeness auto
termination
proof (relation "measure (\<lambda>(param_list, p). length (p_tokens p) - curindex p)")
  fix param_list p p1 xp2 x p2
  assume "tok_type (curtoken p) = TK_COMMA" "token_accept_any p = Inr p1"
    "parse_param p1 = Inr xp2" "(x, p2) = xp2"
  then have "sadv p p1" "sadv p1 p2"
    using token_accept_any_adv [of p p1] parse_param_sadv [of p1 x p2] by auto
  then show "((param_list @ [x], p2), param_list, p) \<in>
      measure (\<lambda>(param_list, p). length (p_tokens p) - curindex p)"
    by (auto simp: sadv_def)
qed simp

declare parse_parameter_loop.simps [simp del]

definition parse_parameter_list ::
  "parser \<Rightarrow> parse_error + ((vname \<times> type_denoter) list \<times> parser)" where
  "parse_parameter_list p = bind_res (parse_param p) (\<lambda>(x, p1). parse_parameter_loop [x] p1)"

section \<open>The mutually recursive parsing methods\<close>

function (sequential) parse_command :: "nat \<Rightarrow> parser \<Rightarrow> parse_error + (command \<times> parser)"
  and parse_command_loop :: "nat \<Rightarrow> command \<Rightarrow> parser \<Rightarrow> parse_error + (command \<times> parser)"
  and parse_single_command :: "nat \<Rightarrow> parser \<Rightarrow> parse_error + (command \<times> parser)"
  and parse_expression :: "nat \<Rightarrow> parser \<Rightarrow> parse_error + (expression \<times> parser)"
  and parse_expression_loop :: "nat \<Rightarrow> expression \<Rightarrow> parser \<Rightarrow> parse_error + (expression \<times> parser)"
  and parse_tertiary_expression :: "nat \<Rightarrow> parser \<Rightarrow> parse_error + (expression \<times> parser)"
  and parse_tertiary_loop :: "nat \<Rightarrow> expression \<Rightarrow> parser \<Rightarrow> parse_error + (expression \<times> parser)"
  and parse_secondary_expression :: "nat \<Rightarrow> parser \<Rightarrow> parse_error + (expression \<times> parser)"
  and parse_secondary_loop :: "nat \<Rightarrow> expression \<Rightarrow> parser \<Rightarrow> parse_error + (expression \<times> parser)"
  and parse_primary_expression :: "nat \<Rightarrow> parser \<Rightarrow> parse_error + (expression \<times> parser)"
  and parse_declaration :: "nat \<Rightarrow> parser \<Rightarrow> parse_error + (decl \<times> parser)"
  and parse_declaration_loop :: "nat \<Rightarrow> decl \<Rightarrow> parser \<Rightarrow> parse_error + (decl \<times> parser)"
  and parse_single_declaration :: "nat \<Rightarrow> parser \<Rightarrow> parse_error + (decl \<times> parser)"
  and parse_function_declaration :: "nat \<Rightarrow> parser \<Rightarrow> parse_error + (decl \<times> parser)"
  and parse_argument_list :: "nat \<Rightarrow> parser \<Rightarrow> parse_error + (expression list \<times> parser)"
  and parse_argument_loop :: "nat \<Rightarrow> expression list \<Rightarrow> parser \<Rightarrow> parse_error + (expression list \<times> parser)"
where
  "parse_command 0 p = Inl ParserOutOfFuel"
| "parse_command (Suc n) p =
     bind_res (parse_single_command n p) (\<lambda>(c1, p1). parse_command_loop n c1 p1)"
| "parse_command_loop 0 c1 p = Inl ParserOutOfFuel"
| "parse_command_loop (Suc n) c1 p =
     (if tok_type (curtoken p) \<noteq> TK_END \<and> tok_type (curtoken p) \<noteq> TK_EOT then
        bind_res (parse_single_command n p) (\<lambda>(c2, p2).
        parse_command_loop n (SequentialCommand c1 c2) p2)
      else Inr (c1, p))"
| "parse_single_command 0 p = Inl ParserOutOfFuel"
| "parse_single_command (Suc n) p =
     (if tok_type (curtoken p) = TK_IDENTIFIER then
        (let name = val_str (tok_val (curtoken p)) in
         bind_res (token_accept_any p) (\<lambda>p1.
         if tok_type (curtoken p1) = TK_BECOMES then
           bind_res (token_accept_any p1) (\<lambda>p2.
           bind_res (parse_expression n p2) (\<lambda>(expr, p3).
           bind_res (token_accept TK_SEMICOLON p3) (\<lambda>p4.
           Inr (AssignCommand (Vname name) expr, p4))))
         else if tok_type (curtoken p1) = TK_LPAREN then
           bind_res (token_accept_any p1) (\<lambda>p2.
           bind_res (parse_argument_list n p2) (\<lambda>(param_list, p3).
           bind_res (token_accept TK_RPAREN p3) (\<lambda>p4.
           bind_res (token_accept TK_SEMICOLON p4) (\<lambda>p5.
           Inr (CallCommand name param_list, p5)))))
         else Inl (unexpected p1)))
      else if tok_type (curtoken p) = TK_WHILE then
        bind_res (token_accept_any p) (\<lambda>p1.
        bind_res (parse_expression n p1) (\<lambda>(expr, p2).
        bind_res (token_accept TK_DO p2) (\<lambda>p3.
        bind_res (parse_single_command n p3) (\<lambda>(com, p4).
        Inr (WhileCommand expr com, p4)))))
      else if tok_type (curtoken p) = TK_IF then
        bind_res (token_accept_any p) (\<lambda>p1.
        bind_res (parse_expression n p1) (\<lambda>(expr, p2).
        bind_res (token_accept TK_THEN p2) (\<lambda>p3.
        bind_res (parse_single_command n p3) (\<lambda>(com1, p4).
        bind_res (token_accept TK_ELSE p4) (\<lambda>p5.
        bind_res (parse_single_command n p5) (\<lambda>(com2, p6).
        Inr (IfCommand expr com1 com2, p6)))))))
      else if tok_type (curtoken p) = TK_LET then
        bind_res (token_accept_any p) (\<lambda>p1.
        bind_res (parse_declaration n p1) (\<lambda>(dec, p2).
        bind_res (token_accept TK_IN p2) (\<lambda>p3.
        bind_res (parse_single_command n p3) (\<lambda>(com, p4).
        Inr (LetCommand dec com, p4)))))
      else if tok_type (curtoken p) = TK_BEGIN then
        bind_res (token_accept_any p) (\<lambda>p1.
        bind_res (parse_command n p1) (\<lambda>(com, p2).
        bind_res (token_accept TK_END p2) (\<lambda>p3.
        Inr (com, p3))))
      else if tok_type (curtoken p) = TK_RETURN then
        bind_res (token_accept_any p) (\<lambda>p1.
        bind_res (parse_expression n p1) (\<lambda>(expr, p2).
        bind_res (token_accept TK_SEMICOLON p2) (\<lambda>p3.
        Inr (ReturnCommand expr, p3))))
      else Inl (unexpected p))"
| "parse_expression 0 p = Inl ParserOutOfFuel"
| "parse_expression (Suc n) p =
     bind_res (parse_tertiary_expression n p) (\<lambda>(e1, p1). parse_expression_loop n e1 p1)"
| "parse_expression_loop 0 e1 p = Inl ParserOutOfFuel"
| "parse_expression_loop (Suc n) e1 p =
     (if is_oper_in [''<'', ''>'', ''=''] (curtoken p) then
        (let oper = val_str (tok_val (curtoken p)) in
         bind_res (token_accept_any p) (\<lambda>p1.
         bind_res (parse_tertiary_expression n p1) (\<lambda>(e2, p2).
         parse_expression_loop n (BinaryExpression e1 oper e2) p2)))
      else Inr (e1, p))"
| "parse_tertiary_expression 0 p = Inl ParserOutOfFuel"
| "parse_tertiary_expression (Suc n) p =
     bind_res (parse_secondary_expression n p) (\<lambda>(e1, p1). parse_tertiary_loop n e1 p1)"
| "parse_tertiary_loop 0 e1 p = Inl ParserOutOfFuel"
| "parse_tertiary_loop (Suc n) e1 p =
     (if is_oper_in [''+'', ''-''] (curtoken p) then
        (let oper = val_str (tok_val (curtoken p)) in
         bind_res (token_accept_any p) (\<lambda>p1.
         bind_res (parse_secondary_expression n p1) (\<lambda>(e2, p2).
         parse_tertiary_loop n (BinaryExpression e1 oper e2) p2)))
      else Inr (e1, p))"
| "parse_secondary_expression 0 p = Inl ParserOutOfFuel"
| "parse_secondary_expression (Suc n) p =
     bind_res (parse_primary_expression n p) (\<lambda>(e1, p1). parse_secondary_loop n e1 p1)"
| "parse_secondary_loop 0 e1 p = Inl ParserOutOfFuel"
| "parse_secondary_loop (Suc n) e1 p =
     (if is_oper_in [''*'', ''/'', ''''] (curtoken p) then
        (let oper = val_str (tok_val (curtoken p)) in
         bind_res (token_accept_any p) (\<lambda>p1.
         bind_res (parse_primary_expression n p1) (\<lambda>(e2, p2).
         parse_secondary_loop n (BinaryExpression e1 oper e2) p2)))
      else Inr (e1, p))"
| "parse_primary_expression 0 p = Inl ParserOutOfFuel"
| "parse_primary_expression (Suc n) p =
     (if tok_type (curtoken p) = TK_INTLITERAL then
        bind_res (token_accept_any p) (\<lambda>p1.
        Inr (IntegerExpression (val_int (tok_val (curtoken p))), p1))
      else if tok_type (curtoken p) = TK_IDENTIFIER then
        (let name = val_str (tok_val (curtoken p)) in
         bind_res (token_accept_any p) (\<lambda>p1.
         if tok_type (curtoken p1) = TK_LPAREN then
           bind_res (token_accept_any p1) (\<lambda>p2.
           bind_res (parse_argument_list n p2) (\<lambda>(param_list, p3).
           bind_res (token_accept TK_RPAREN p3) (\<lambda>p4.
           Inr (CallExpression name param_list, p4))))
         else Inr (VnameExpression (Vname name), p1)))
      else if tok_type (curtoken p) = TK_OPERATOR then
        (let oper = curtoken p in
         bind_res (token_accept_any p) (\<lambda>p1.
         bind_res (parse_primary_expression n p1) (\<lambda>(e, p2).
         Inr (UnaryExpression (val_str (tok_val oper)) e, p2))))
      else if tok_type (curtoken p) = TK_LPAREN then
        bind_res (token_accept_any p) (\<lambda>p1.
        bind_res (parse_expression n p1) (\<lambda>(e1, p2).
        bind_res (token_accept TK_RPAREN p2) (\<lambda>p3.
        Inr (e1, p3))))
      else Inl (unexpected p))"
| "parse_declaration 0 p = Inl ParserOutOfFuel"
| "parse_declaration (Suc n) p =
     bind_res (parse_single_declaration n p) (\<lambda>(d1, p1). parse_declaration_loop n d1 p1)"
| "parse_declaration_loop 0 d1 p = Inl ParserOutOfFuel"
| "parse_declaration_loop (Suc n) d1 p =
     (if tok_type (curtoken p) \<noteq> TK_IN then
        bind_res (parse_single_declaration n p) (\<lambda>(d2, p2).
        parse_declaration_loop n (SequentialDeclaration d1 d2) p2)
      else Inr (d1, p))"
| "parse_single_declaration 0 p = Inl ParserOutOfFuel"
| "parse_single_declaration (Suc n) p =
     (if tok_type (curtoken p) = TK_CONST then
        bind_res (token_accept_any p) (\<lambda>p1.
        (let name = val_str (tok_val (curtoken p1)) in
         bind_res (token_accept TK_IDENTIFIER p1) (\<lambda>p2.
         bind_res (token_accept TK_IS p2) (\<lambda>p3.
         bind_res (parse_expression n p3) (\<lambda>(expr, p4).
         bind_res (token_accept TK_SEMICOLON p4) (\<lambda>p5.
         Inr (ConstDeclaration name expr, p5)))))))
      else if tok_type (curtoken p) = TK_VAR then
        bind_res (token_accept_any p) (\<lambda>p1.
        (let name = val_str (tok_val (curtoken p1)) in
         bind_res (token_accept TK_IDENTIFIER p1) (\<lambda>p2.
         bind_res (token_accept TK_COLON p2) (\<lambda>p3.
         (let type_d = TypeDenoter (val_str (tok_val (curtoken p3))) in
          bind_res (token_accept TK_IDENTIFIER p3) (\<lambda>p4.
          bind_res (token_accept TK_SEMICOLON p4) (\<lambda>p5.
          Inr (VarDeclaration name type_d, p5))))))))
      else if tok_type (curtoken p) = TK_FUNCDEF then parse_function_declaration n p
      else Inl (unexpected p))"
| "parse_function_declaration 0 p = Inl ParserOutOfFuel"
| "parse_function_declaration (Suc n) p =
     bind_res (token_accept TK_FUNCDEF p) (\<lambda>p1.
     (let name = val_str (tok_val (curtoken p1)) in
      bind_res (token_accept TK_IDENTIFIER p1) (\<lambda>p2.
      bind_res (token_accept TK_LPAREN p2) (\<lambda>p3.
      bind_res (parse_parameter_list p3) (\<lambda>(param_list, p4).
      bind_res (token_accept TK_RPAREN p4) (\<lambda>p5.
      bind_res (token_accept TK_COLON p5) (\<lambda>p6.
      (let return_type = val_str (tok_val (curtoken p6)) in
       bind_res (token_accept TK_IDENTIFIER p6) (\<lambda>p7.
       bind_res (parse_single_command n p7) (\<lambda>(com, p8).
       Inr (FunctionDeclaration name param_list return_type com, p8)))))))))))"
| "parse_argument_list 0 p = Inl ParserOutOfFuel"
| "parse_argument_list (Suc n) p =
     (if tok_type (curtoken p) \<noteq> TK_RPAREN then
        bind_res (parse_expression n p) (\<lambda>(e, p1). parse_argument_loop n [e] p1)
      else Inr ([], p))"
| "parse_argument_loop 0 arg_list p = Inl ParserOutOfFuel"
| "parse_argument_loop (Suc n) arg_list p =
     (if tok_type (curtoken p) = TK_COMMA then
        bind_res (token_accept_any p) (\<lambda>p1.
        bind_res (parse_expression n p1) (\<lambda>(e, p2).
        parse_argument_loop n (arg_list @ [e]) p2))
      else Inr (arg_list, p))"
  by pat_completeness auto
termination
  \<comment> \<open>every call spends one unit of fuel: the measure is the fuel argument\<close>
  by (relation "measure (case_sum (case_sum (case_sum (case_sum fst fst) (case_sum fst fst))
      (case_sum (case_sum fst fst) (case_sum fst fst)))
     (case_sum (case_sum (case_sum fst fst) (case_sum fst fst))
      (case_sum (case_sum fst fst) (case_sum fst fst))))") simp_all

text \<open>
  \<open>parse_program\<close> and the entry point \<open>parse\<close>, which returns the tree only.
  Five units of fuel per token are enough, as the section on fuel shows.
\<close>

definition parse_program :: "nat \<Rightarrow> parser \<Rightarrow> parse_error + (program \<times> parser)" where
  "parse_program n p =
     bind_res (parse_command n p) (\<lambda>(c, p1).
     bind_res (token_accept TK_EOT p1) (\<lambda>p2. Inr (Program c, p2)))"

definition parser_fuel :: "token list \<Rightarrow> nat" where
  "parser_fuel tokens = 5 * length tokens + 5"

definition parse :: "token list \<Rightarrow> parse_error + program" where
  "parse tokens =
     bind_res (parser_init tokens) (\<lambda>p.
     bind_res (parse_program (parser_fuel tokens) p) (\<lambda>(prog, p'). Inr prog))"

section \<open>Every method moves the cursor forwards\<close>

lemma parse_parameter_loop_adv: "parse_parameter_loop xs p = Inr (x, p') \<Longrightarrow> adv p p'"
proof (induction xs p rule: parse_parameter_loop.induct)
  case (1 param_list p)
  show ?case
  proof (cases "tok_type (curtoken p) = TK_COMMA")
    case True
    with "1.prems" obtain p1 x2 p2 where a: "token_accept_any p = Inr p1" "parse_param p1 = Inr (x2, p2)"
      "parse_parameter_loop (param_list @ [x2]) p2 = Inr (x, p')"
      by (subst (asm) parse_parameter_loop.simps) (auto simp: bind_res_eq_Inr)
    have "adv p p1" using token_accept_any_adv [OF a(1)] by simp
    also have "adv p1 p2" using parse_param_sadv [OF a(2)] by (rule sadv_imp_adv)
    also have "adv p2 p'" by (rule "1.IH" [OF True a(1) a(2) refl a(3)])
    finally show ?thesis .
  next
    case False
    with "1.prems" show ?thesis by (subst (asm) parse_parameter_loop.simps) simp
  qed
qed

lemma parse_parameter_list_sadv: "parse_parameter_list p = Inr (x, p') \<Longrightarrow> sadv p p'"
  by (auto simp: parse_parameter_list_def bind_res_eq_Inr
      dest!: parse_param_sadv parse_parameter_loop_adv intro: sadv_adv_trans)

lemmas parse_prim_moves [unfolded adv_def sadv_def] =
  token_accept_any_adv token_accept_adv parse_parameter_list_sadv

theorem parse_moves_forward:
  shows "parse_command n p = Inr (c, p') \<Longrightarrow> sadv p p'"
    and "parse_command_loop n c1 p = Inr (c, p') \<Longrightarrow> adv p p'"
    and "parse_single_command n p = Inr (c, p') \<Longrightarrow> sadv p p'"
    and "parse_expression n p = Inr (e, p') \<Longrightarrow> sadv p p'"
    and "parse_expression_loop n e1 p = Inr (e, p') \<Longrightarrow> adv p p'"
    and "parse_tertiary_expression n p = Inr (e, p') \<Longrightarrow> sadv p p'"
    and "parse_tertiary_loop n e1 p = Inr (e, p') \<Longrightarrow> adv p p'"
    and "parse_secondary_expression n p = Inr (e, p') \<Longrightarrow> sadv p p'"
    and "parse_secondary_loop n e1 p = Inr (e, p') \<Longrightarrow> adv p p'"
    and "parse_primary_expression n p = Inr (e, p') \<Longrightarrow> sadv p p'"
    and "parse_declaration n p = Inr (d, p') \<Longrightarrow> sadv p p'"
    and "parse_declaration_loop n d1 p = Inr (d, p') \<Longrightarrow> adv p p'"
    and "parse_single_declaration n p = Inr (d, p') \<Longrightarrow> sadv p p'"
    and "parse_function_declaration n p = Inr (d, p') \<Longrightarrow> sadv p p'"
    and "parse_argument_list n p = Inr (es, p') \<Longrightarrow> adv p p'"
    and "parse_argument_loop n es1 p = Inr (es, p') \<Longrightarrow> adv p p'"
proof (induct n arbitrary: p c p' c1 e e1 d d1 es es1)
  case 0
  { case 1 then show ?case by simp }
  { case 2 then show ?case by simp }
  { case 3 then show ?case by simp }
  { case 4 then show ?case by simp }
  { case 5 then show ?case by simp }
  { case 6 then show ?case by simp }
  { case 7 then show ?case by simp }
  { case 8 then show ?case by simp }
  { case 9 then show ?case by simp }
  { case 10 then show ?case by simp }
  { case 11 then show ?case by simp }
  { case 12 then show ?case by simp }
  { case 13 then show ?case by simp }
  { case 14 then show ?case by simp }
  { case 15 then show ?case by simp }
  { case 16 then show ?case by simp }
next
  case (Suc n)
  note ih = Suc [unfolded adv_def sadv_def]
  note rules = Let_def bind_res_eq_Inr adv_def sadv_def
  note dests = ih parse_prim_moves
  { case 1 then show ?case by (fastforce simp: rules dest!: dests) }
  { case 2 then show ?case by (fastforce simp: rules split: if_splits dest!: dests) }
  { case 3 then show ?case by (fastforce simp: rules split: if_splits dest!: dests) }
  { case 4 then show ?case by (fastforce simp: rules dest!: dests) }
  { case 5 then show ?case by (fastforce simp: rules is_oper_in_def split: if_splits dest!: dests) }
  { case 6 then show ?case by (fastforce simp: rules dest!: dests) }
  { case 7 then show ?case by (fastforce simp: rules is_oper_in_def split: if_splits dest!: dests) }
  { case 8 then show ?case by (fastforce simp: rules dest!: dests) }
  { case 9 then show ?case by (fastforce simp: rules is_oper_in_def split: if_splits dest!: dests) }
  { case 10 then show ?case by (fastforce simp: rules split: if_splits dest!: dests) }
  { case 11 then show ?case by (fastforce simp: rules dest!: dests) }
  { case 12 then show ?case by (fastforce simp: rules split: if_splits dest!: dests) }
  { case 13 then show ?case by (fastforce simp: rules split: if_splits dest!: dests) }
  { case 14 then show ?case by (fastforce simp: rules dest!: dests) }
  { case 15 then show ?case by (fastforce simp: rules split: if_splits dest!: dests) }
  { case 16 then show ?case by (fastforce simp: rules split: if_splits dest!: dests) }
qed


section \<open>Every method keeps the parser invariant\<close>

lemma parse_param_wf: "parse_param p = Inr (x, p') \<Longrightarrow> parser_wf p \<Longrightarrow> parser_wf p'"
  by (auto simp: parse_param_def Let_def bind_res_eq_Inr dest!: token_accept_wf)

lemma parse_parameter_loop_wf:
  "parse_parameter_loop xs p = Inr (x, p') \<Longrightarrow> parser_wf p \<Longrightarrow> parser_wf p'"
proof (induction xs p rule: parse_parameter_loop.induct)
  case (1 param_list p)
  show ?case
  proof (cases "tok_type (curtoken p) = TK_COMMA")
    case True
    with "1.prems"(1) obtain p1 x2 p2 where a: "token_accept_any p = Inr p1" "parse_param p1 = Inr (x2, p2)"
      "parse_parameter_loop (param_list @ [x2]) p2 = Inr (x, p')"
      by (subst (asm) parse_parameter_loop.simps) (auto simp: bind_res_eq_Inr)
    from "1.prems"(2) have "parser_wf p1" by (rule token_accept_any_wf [OF a(1)])
    then have "parser_wf p2" by (rule parse_param_wf [OF a(2)])
    then show ?thesis by (rule "1.IH" [OF True a(1) a(2) refl a(3)])
  next
    case False
    with "1.prems" show ?thesis by (subst (asm) parse_parameter_loop.simps) simp
  qed
qed

lemma parse_parameter_list_wf: "parse_parameter_list p = Inr (x, p') \<Longrightarrow> parser_wf p \<Longrightarrow> parser_wf p'"
  by (auto simp: parse_parameter_list_def bind_res_eq_Inr dest!: parse_param_wf parse_parameter_loop_wf)

lemma parse_keeps_wf:
  shows "parse_command n p = Inr (c, p') \<Longrightarrow> parser_wf p \<Longrightarrow> parser_wf p'"
    and "parse_command_loop n c1 p = Inr (c, p') \<Longrightarrow> parser_wf p \<Longrightarrow> parser_wf p'"
    and "parse_single_command n p = Inr (c, p') \<Longrightarrow> parser_wf p \<Longrightarrow> parser_wf p'"
    and "parse_expression n p = Inr (e, p') \<Longrightarrow> parser_wf p \<Longrightarrow> parser_wf p'"
    and "parse_expression_loop n e1 p = Inr (e, p') \<Longrightarrow> parser_wf p \<Longrightarrow> parser_wf p'"
    and "parse_tertiary_expression n p = Inr (e, p') \<Longrightarrow> parser_wf p \<Longrightarrow> parser_wf p'"
    and "parse_tertiary_loop n e1 p = Inr (e, p') \<Longrightarrow> parser_wf p \<Longrightarrow> parser_wf p'"
    and "parse_secondary_expression n p = Inr (e, p') \<Longrightarrow> parser_wf p \<Longrightarrow> parser_wf p'"
    and "parse_secondary_loop n e1 p = Inr (e, p') \<Longrightarrow> parser_wf p \<Longrightarrow> parser_wf p'"
    and "parse_primary_expression n p = Inr (e, p') \<Longrightarrow> parser_wf p \<Longrightarrow> parser_wf p'"
    and "parse_declaration n p = Inr (d, p') \<Longrightarrow> parser_wf p \<Longrightarrow> parser_wf p'"
    and "parse_declaration_loop n d1 p = Inr (d, p') \<Longrightarrow> parser_wf p \<Longrightarrow> parser_wf p'"
    and "parse_single_declaration n p = Inr (d, p') \<Longrightarrow> parser_wf p \<Longrightarrow> parser_wf p'"
    and "parse_function_declaration n p = Inr (d, p') \<Longrightarrow> parser_wf p \<Longrightarrow> parser_wf p'"
    and "parse_argument_list n p = Inr (es, p') \<Longrightarrow> parser_wf p \<Longrightarrow> parser_wf p'"
    and "parse_argument_loop n es1 p = Inr (es, p') \<Longrightarrow> parser_wf p \<Longrightarrow> parser_wf p'"
proof (induct n arbitrary: p c p' c1 e e1 d d1 es es1)
  case 0
  { case 1 then show ?case by simp }
  { case 2 then show ?case by simp }
  { case 3 then show ?case by simp }
  { case 4 then show ?case by simp }
  { case 5 then show ?case by simp }
  { case 6 then show ?case by simp }
  { case 7 then show ?case by simp }
  { case 8 then show ?case by simp }
  { case 9 then show ?case by simp }
  { case 10 then show ?case by simp }
  { case 11 then show ?case by simp }
  { case 12 then show ?case by simp }
  { case 13 then show ?case by simp }
  { case 14 then show ?case by simp }
  { case 15 then show ?case by simp }
  { case 16 then show ?case by simp }
next
  case (Suc n)
  note rules = Let_def bind_res_eq_Inr
  note dests = Suc token_accept_any_wf token_accept_wf parse_parameter_list_wf
  { case 1 then show ?case by (fastforce simp: rules split: if_splits dest!: dests) }
  { case 2 then show ?case by (fastforce simp: rules split: if_splits dest!: dests) }
  { case 3 then show ?case by (fastforce simp: rules split: if_splits dest!: dests) }
  { case 4 then show ?case by (fastforce simp: rules split: if_splits dest!: dests) }
  { case 5 then show ?case by (fastforce simp: rules split: if_splits dest!: dests) }
  { case 6 then show ?case by (fastforce simp: rules split: if_splits dest!: dests) }
  { case 7 then show ?case by (fastforce simp: rules split: if_splits dest!: dests) }
  { case 8 then show ?case by (fastforce simp: rules split: if_splits dest!: dests) }
  { case 9 then show ?case by (fastforce simp: rules split: if_splits dest!: dests) }
  { case 10 then show ?case by (fastforce simp: rules split: if_splits dest!: dests) }
  { case 11 then show ?case by (fastforce simp: rules split: if_splits dest!: dests) }
  { case 12 then show ?case by (fastforce simp: rules split: if_splits dest!: dests) }
  { case 13 then show ?case by (fastforce simp: rules split: if_splits dest!: dests) }
  { case 14 then show ?case by (fastforce simp: rules split: if_splits dest!: dests) }
  { case 15 then show ?case by (fastforce simp: rules split: if_splits dest!: dests) }
  { case 16 then show ?case by (fastforce simp: rules split: if_splits dest!: dests) }
qed


section \<open>The fuel of parse is always enough\<close>

text \<open>
  Each method has a rank: the methods it calls without reading a token first
  have a lower rank (\<open>parse_argument_list\<close> 4, \<open>parse_expression\<close> 3,
  \<open>parse_tertiary_expression\<close> and the declaration list 2, and so on down to
  the methods that read a token before any call). A method of rank \<open>r\<close> on a
  cursor with \<open>k\<close> tokens left never runs out with \<open>5 k + r + 1\<close> units.
\<close>

definition remaining :: "parser \<Rightarrow> nat" where
  "remaining p = length (p_tokens p) - curindex p"

lemma sadv_remaining: "sadv p p' \<Longrightarrow> remaining p' < remaining p"
  by (auto simp: sadv_def remaining_def)

lemma adv_remaining: "adv p p' \<Longrightarrow> remaining p' \<le> remaining p"
  by (auto simp: adv_def remaining_def)

lemma accept_any_remaining:
  "token_accept_any p = Inr p' \<Longrightarrow> tok_type (curtoken p) \<noteq> TK_EOT \<Longrightarrow> remaining p' < remaining p"
  using token_accept_any_adv [of p p'] by (auto intro: sadv_remaining)

lemma accept_remaining:
  "token_accept k p = Inr p' \<Longrightarrow> k \<noteq> TK_EOT \<Longrightarrow> remaining p' < remaining p"
  using token_accept_adv [of k p p'] by (auto intro: sadv_remaining)

lemma accept_no_fuel: "token_accept k p \<noteq> Inl ParserOutOfFuel" "token_accept_any p \<noteq> Inl ParserOutOfFuel"
  by (auto simp: token_accept_def token_accept_any_def)

lemma unexpected_not_fuel [simp]: "unexpected p \<noteq> ParserOutOfFuel"
  by (simp add: unexpected_def)

lemma parameter_loop_no_fuel: "parse_parameter_loop xs p \<noteq> Inl ParserOutOfFuel"
proof (induction xs p rule: parse_parameter_loop.induct)
  case (1 param_list p)
  then show ?case
    by (subst parse_parameter_loop.simps)
       (auto simp: bind_res_eq_Inl parse_param_def Let_def accept_no_fuel)
qed

lemma parameter_list_no_fuel: "parse_parameter_list p \<noteq> Inl ParserOutOfFuel"
  by (auto simp: parse_parameter_list_def bind_res_eq_Inl parse_param_def Let_def accept_no_fuel
      parameter_loop_no_fuel)

lemmas parse_step_remaining =
  sadv_remaining [OF parse_moves_forward(1)] adv_remaining [OF parse_moves_forward(2)]
  sadv_remaining [OF parse_moves_forward(3)] sadv_remaining [OF parse_moves_forward(4)]
  adv_remaining [OF parse_moves_forward(5)] sadv_remaining [OF parse_moves_forward(6)]
  adv_remaining [OF parse_moves_forward(7)] sadv_remaining [OF parse_moves_forward(8)]
  adv_remaining [OF parse_moves_forward(9)] sadv_remaining [OF parse_moves_forward(10)]
  sadv_remaining [OF parse_moves_forward(11)] adv_remaining [OF parse_moves_forward(12)]
  sadv_remaining [OF parse_moves_forward(13)] sadv_remaining [OF parse_moves_forward(14)]
  adv_remaining [OF parse_moves_forward(15)] adv_remaining [OF parse_moves_forward(16)]
  sadv_remaining [OF parse_parameter_list_sadv]

lemma parse_fuel:
  shows "parse_command n p = Inl ParserOutOfFuel \<Longrightarrow> n < 5 * remaining p + 2"
    and "parse_command_loop n c1 p = Inl ParserOutOfFuel \<Longrightarrow> n < 5 * remaining p + 2"
    and "parse_single_command n p = Inl ParserOutOfFuel \<Longrightarrow> n < 5 * remaining p + 1"
    and "parse_expression n p = Inl ParserOutOfFuel \<Longrightarrow> n < 5 * remaining p + 4"
    and "parse_expression_loop n e1 p = Inl ParserOutOfFuel \<Longrightarrow> n < 5 * remaining p + 1"
    and "parse_tertiary_expression n p = Inl ParserOutOfFuel \<Longrightarrow> n < 5 * remaining p + 3"
    and "parse_tertiary_loop n e1 p = Inl ParserOutOfFuel \<Longrightarrow> n < 5 * remaining p + 1"
    and "parse_secondary_expression n p = Inl ParserOutOfFuel \<Longrightarrow> n < 5 * remaining p + 2"
    and "parse_secondary_loop n e1 p = Inl ParserOutOfFuel \<Longrightarrow> n < 5 * remaining p + 1"
    and "parse_primary_expression n p = Inl ParserOutOfFuel \<Longrightarrow> n < 5 * remaining p + 1"
    and "parse_declaration n p = Inl ParserOutOfFuel \<Longrightarrow> n < 5 * remaining p + 3"
    and "parse_declaration_loop n d1 p = Inl ParserOutOfFuel \<Longrightarrow> n < 5 * remaining p + 3"
    and "parse_single_declaration n p = Inl ParserOutOfFuel \<Longrightarrow> n < 5 * remaining p + 2"
    and "parse_function_declaration n p = Inl ParserOutOfFuel \<Longrightarrow> n < 5 * remaining p + 1"
    and "parse_argument_list n p = Inl ParserOutOfFuel \<Longrightarrow> n < 5 * remaining p + 5"
    and "parse_argument_loop n es1 p = Inl ParserOutOfFuel \<Longrightarrow> n < 5 * remaining p + 1"
proof (induct n arbitrary: p c1 e1 d1 es1)
  case 0
  { case 1 then show ?case by simp }
  { case 2 then show ?case by simp }
  { case 3 then show ?case by simp }
  { case 4 then show ?case by simp }
  { case 5 then show ?case by simp }
  { case 6 then show ?case by simp }
  { case 7 then show ?case by simp }
  { case 8 then show ?case by simp }
  { case 9 then show ?case by simp }
  { case 10 then show ?case by simp }
  { case 11 then show ?case by simp }
  { case 12 then show ?case by simp }
  { case 13 then show ?case by simp }
  { case 14 then show ?case by simp }
  { case 15 then show ?case by simp }
  { case 16 then show ?case by simp }
next
  case (Suc n)
  note rules = Let_def bind_res_eq_Inl accept_no_fuel parameter_list_no_fuel
  note dests = Suc parse_step_remaining accept_any_remaining accept_remaining
  { case 1 then show ?case by (fastforce simp: rules dest!: dests) }
  { case 2 then show ?case by (fastforce simp: rules split: if_splits dest!: dests) }
  { case 3 then show ?case by (auto simp: rules split: if_splits dest!: dests) }
  { case 4 then show ?case by (fastforce simp: rules dest!: dests) }
  { case 5 then show ?case by (fastforce simp: rules is_oper_in_def split: if_splits dest!: dests) }
  { case 6 then show ?case by (fastforce simp: rules dest!: dests) }
  { case 7 then show ?case by (fastforce simp: rules is_oper_in_def split: if_splits dest!: dests) }
  { case 8 then show ?case by (fastforce simp: rules dest!: dests) }
  { case 9 then show ?case by (fastforce simp: rules is_oper_in_def split: if_splits dest!: dests) }
  { case 10 then show ?case by (fastforce simp: rules split: if_splits dest!: dests) }
  { case 11 then show ?case by (fastforce simp: rules dest!: dests) }
  { case 12 then show ?case by (fastforce simp: rules split: if_splits dest!: dests) }
  { case 13 then show ?case by (fastforce simp: rules split: if_splits dest!: dests) }
  { case 14 then show ?case by (auto simp: rules dest!: dests) }
  { case 15 then show ?case by (fastforce simp: rules split: if_splits dest!: dests) }
  { case 16 then show ?case by (fastforce simp: rules split: if_splits dest!: dests) }
qed

text \<open>
  C2: Five units of fuel per token are always enough: parse never fails for lack of
  fuel, so the recursive descent of parser.py returns a tree or raises a parser
  exception on every token list.
\<close>

theorem parse_never_out_of_fuel: "parse tokens \<noteq> Inl ParserOutOfFuel"
proof
  assume a: "parse tokens = Inl ParserOutOfFuel"
  then obtain p where p: "parser_init tokens = Inr p"
    by (cases "parser_init tokens") (auto simp: parse_def parser_init_def split: if_splits)
  with a have "parse_command (parser_fuel tokens) p = Inl ParserOutOfFuel"
    by (auto simp: parse_def parse_program_def bind_res_eq_Inl accept_no_fuel)
  then have "parser_fuel tokens < 5 * remaining p + 2" by (rule parse_fuel(1))
  moreover from p have "remaining p = length tokens"
    by (auto simp: remaining_def dest: parser_init_wf)
  ultimately show False by (simp add: parser_fuel_def)
qed

theorem parse_never_out_of_fuel_witness:
  "parse (projr (scan ''while x < 10 do x := x + 1;'')) \<noteq> Inl ParserOutOfFuel"
  by (rule parse_never_out_of_fuel)


section \<open>The declaration list always reaches IN\<close>

text \<open>
  \<open>parse_declaration\<close> loops until the current token is IN, so the check
  \<open>token_accept(TK_IN)\<close> that follows it in \<open>parse_single_command\<close> never fails:
  the parser never reports that it expected IN.
\<close>

definition expects_in :: "parse_error \<Rightarrow> bool" where
  "expects_in err \<longleftrightarrow> (\<exists>pos k. err = ParserException pos k (Some TK_IN))"

lemma parse_declaration_loop_at_in:
  "parse_declaration_loop n d1 p = Inr (d, p') \<Longrightarrow> tok_type (curtoken p') = TK_IN"
proof (induction n arbitrary: d1 p)
  case (Suc n)
  then show ?case by (auto simp: bind_res_eq_Inr split: if_splits)
qed simp

lemma parse_declaration_at_in:
  "parse_declaration n p = Inr (d, p') \<Longrightarrow> tok_type (curtoken p') = TK_IN"
  by (cases n) (auto simp: bind_res_eq_Inr dest: parse_declaration_loop_at_in)

lemma token_accept_expects:
  "token_accept k p = Inl err \<Longrightarrow> expects_in err \<Longrightarrow> k = TK_IN \<and> tok_type (curtoken p) \<noteq> TK_IN"
  by (auto simp: token_accept_def token_accept_any_def expects_in_def split: if_splits)

lemma token_accept_any_not_expects: "token_accept_any p = Inl err \<Longrightarrow> \<not> expects_in err"
  by (auto simp: token_accept_any_def expects_in_def split: if_splits)

lemma unexpected_not_expects [simp]: "\<not> expects_in (unexpected p)"
  by (simp add: unexpected_def expects_in_def)

lemma parse_param_not_expects: "parse_param p = Inl err \<Longrightarrow> \<not> expects_in err"
  by (auto simp: parse_param_def Let_def bind_res_eq_Inl dest!: token_accept_expects)

lemma parameter_loop_not_expects: "parse_parameter_loop xs p = Inl err \<Longrightarrow> \<not> expects_in err"
proof (induction xs p rule: parse_parameter_loop.induct)
  case (1 param_list p)
  then show ?case
    by (subst (asm) parse_parameter_loop.simps)
       (fastforce simp: bind_res_eq_Inl split: if_splits
         dest: token_accept_any_not_expects parse_param_not_expects)
qed

lemma parameter_list_not_expects: "parse_parameter_list p = Inl err \<Longrightarrow> \<not> expects_in err"
  by (auto simp: parse_parameter_list_def bind_res_eq_Inl
      dest: parse_param_not_expects parameter_loop_not_expects)

lemma parse_never_expects_in_all:
  shows "parse_command n p = Inl err \<Longrightarrow> \<not> expects_in err"
    and "parse_command_loop n c1 p = Inl err \<Longrightarrow> \<not> expects_in err"
    and "parse_single_command n p = Inl err \<Longrightarrow> \<not> expects_in err"
    and "parse_expression n p = Inl err \<Longrightarrow> \<not> expects_in err"
    and "parse_expression_loop n e1 p = Inl err \<Longrightarrow> \<not> expects_in err"
    and "parse_tertiary_expression n p = Inl err \<Longrightarrow> \<not> expects_in err"
    and "parse_tertiary_loop n e1 p = Inl err \<Longrightarrow> \<not> expects_in err"
    and "parse_secondary_expression n p = Inl err \<Longrightarrow> \<not> expects_in err"
    and "parse_secondary_loop n e1 p = Inl err \<Longrightarrow> \<not> expects_in err"
    and "parse_primary_expression n p = Inl err \<Longrightarrow> \<not> expects_in err"
    and "parse_declaration n p = Inl err \<Longrightarrow> \<not> expects_in err"
    and "parse_declaration_loop n d1 p = Inl err \<Longrightarrow> \<not> expects_in err"
    and "parse_single_declaration n p = Inl err \<Longrightarrow> \<not> expects_in err"
    and "parse_function_declaration n p = Inl err \<Longrightarrow> \<not> expects_in err"
    and "parse_argument_list n p = Inl err \<Longrightarrow> \<not> expects_in err"
    and "parse_argument_loop n es1 p = Inl err \<Longrightarrow> \<not> expects_in err"
proof (induct n arbitrary: p c1 e1 d1 es1 err)
  case 0
  { case 1 then show ?case by (simp add: expects_in_def) }
  { case 2 then show ?case by (simp add: expects_in_def) }
  { case 3 then show ?case by (simp add: expects_in_def) }
  { case 4 then show ?case by (simp add: expects_in_def) }
  { case 5 then show ?case by (simp add: expects_in_def) }
  { case 6 then show ?case by (simp add: expects_in_def) }
  { case 7 then show ?case by (simp add: expects_in_def) }
  { case 8 then show ?case by (simp add: expects_in_def) }
  { case 9 then show ?case by (simp add: expects_in_def) }
  { case 10 then show ?case by (simp add: expects_in_def) }
  { case 11 then show ?case by (simp add: expects_in_def) }
  { case 12 then show ?case by (simp add: expects_in_def) }
  { case 13 then show ?case by (simp add: expects_in_def) }
  { case 14 then show ?case by (simp add: expects_in_def) }
  { case 15 then show ?case by (simp add: expects_in_def) }
  { case 16 then show ?case by (simp add: expects_in_def) }
next
  case (Suc n)
  note rules = Let_def bind_res_eq_Inl
  note dests = Suc token_accept_expects token_accept_any_not_expects parameter_list_not_expects
    parse_declaration_at_in
  { case 1 then show ?case by (fastforce simp: rules split: if_splits dest!: dests) }
  { case 2 then show ?case by (fastforce simp: rules split: if_splits dest!: dests) }
  { case 3 then show ?case by (fastforce simp: rules split: if_splits dest!: dests) }
  { case 4 then show ?case by (fastforce simp: rules split: if_splits dest!: dests) }
  { case 5 then show ?case by (fastforce simp: rules split: if_splits dest!: dests) }
  { case 6 then show ?case by (fastforce simp: rules split: if_splits dest!: dests) }
  { case 7 then show ?case by (fastforce simp: rules split: if_splits dest!: dests) }
  { case 8 then show ?case by (fastforce simp: rules split: if_splits dest!: dests) }
  { case 9 then show ?case by (fastforce simp: rules split: if_splits dest!: dests) }
  { case 10 then show ?case by (fastforce simp: rules split: if_splits dest!: dests) }
  { case 11 then show ?case by (fastforce simp: rules split: if_splits dest!: dests) }
  { case 12 then show ?case by (fastforce simp: rules split: if_splits dest!: dests) }
  { case 13 then show ?case by (fastforce simp: rules split: if_splits dest!: dests) }
  { case 14 then show ?case by (fastforce simp: rules split: if_splits dest!: dests) }
  { case 15 then show ?case by (fastforce simp: rules split: if_splits dest!: dests) }
  { case 16 then show ?case by (fastforce simp: rules split: if_splits dest!: dests) }
qed

text \<open>
  C18: The parser never reports a parse error that expects the keyword in.
\<close>

theorem parse_never_expects_in:
  "parse tokens \<noteq> Inl (ParserException pos k (Some TK_IN))"
proof
  assume a: "parse tokens = Inl (ParserException pos k (Some TK_IN))"
  have "expects_in (ParserException pos k (Some TK_IN))" by (simp add: expects_in_def)
  moreover from a obtain p where "parser_init tokens = Inr p"
    and "parse_command (parser_fuel tokens) p = Inl (ParserException pos k (Some TK_IN))
         \<or> (\<exists>c p1. parse_command (parser_fuel tokens) p = Inr (c, p1)
              \<and> token_accept TK_EOT p1 = Inl (ParserException pos k (Some TK_IN)))"
    by (cases "parser_init tokens")
       (auto simp: parse_def parser_init_def parse_program_def bind_res_eq_Inl split: if_splits)
  ultimately show False
    by (auto dest: parse_never_expects_in_all(1) token_accept_expects)
qed

theorem parse_never_expects_in_witness:
  "parse (projr (scan ''let var x: Integer; x := 1;'')) \<noteq> Inl (ParserException 20 TK_IDENTIFIER (Some TK_IN))"
  by (rule parse_never_expects_in)



section \<open>Binary operators of parsed trees\<close>

text \<open>
  Every binary operator in a parsed tree is one of the operator strings the three
  expression tiers list. The secondary tier lists the empty string '''' where the spec has the
  backslash, so the modulo operator never becomes a binary expression.
\<close>

definition parser_binops :: "string set" where
  "parser_binops = set ([''<'', ''>'', ''=''] @ [''+'', ''-''] @ [''*'', ''/'', ''''])"

lemma is_oper_in_val: "is_oper_in ops t \<Longrightarrow> val_str (tok_val t) \<in> set ops"
  by (auto simp: is_oper_in_def)

lemma binops_exprs_append [simp]: "binops_exprs (xs @ ys) = binops_exprs xs \<union> binops_exprs ys"
  by (induction xs) auto

lemma parse_binops_all:
  shows "parse_command n p = Inr (c, p') \<Longrightarrow> binops_cmd c \<subseteq> parser_binops"
    and "parse_command_loop n c1 p = Inr (c, p') \<Longrightarrow> binops_cmd c1 \<subseteq> parser_binops \<Longrightarrow> binops_cmd c \<subseteq> parser_binops"
    and "parse_single_command n p = Inr (c, p') \<Longrightarrow> binops_cmd c \<subseteq> parser_binops"
    and "parse_expression n p = Inr (e, p') \<Longrightarrow> binops_expr e \<subseteq> parser_binops"
    and "parse_expression_loop n e1 p = Inr (e, p') \<Longrightarrow> binops_expr e1 \<subseteq> parser_binops \<Longrightarrow> binops_expr e \<subseteq> parser_binops"
    and "parse_tertiary_expression n p = Inr (e, p') \<Longrightarrow> binops_expr e \<subseteq> parser_binops"
    and "parse_tertiary_loop n e1 p = Inr (e, p') \<Longrightarrow> binops_expr e1 \<subseteq> parser_binops \<Longrightarrow> binops_expr e \<subseteq> parser_binops"
    and "parse_secondary_expression n p = Inr (e, p') \<Longrightarrow> binops_expr e \<subseteq> parser_binops"
    and "parse_secondary_loop n e1 p = Inr (e, p') \<Longrightarrow> binops_expr e1 \<subseteq> parser_binops \<Longrightarrow> binops_expr e \<subseteq> parser_binops"
    and "parse_primary_expression n p = Inr (e, p') \<Longrightarrow> binops_expr e \<subseteq> parser_binops"
    and "parse_declaration n p = Inr (d, p') \<Longrightarrow> binops_decl d \<subseteq> parser_binops"
    and "parse_declaration_loop n d1 p = Inr (d, p') \<Longrightarrow> binops_decl d1 \<subseteq> parser_binops \<Longrightarrow> binops_decl d \<subseteq> parser_binops"
    and "parse_single_declaration n p = Inr (d, p') \<Longrightarrow> binops_decl d \<subseteq> parser_binops"
    and "parse_function_declaration n p = Inr (d, p') \<Longrightarrow> binops_decl d \<subseteq> parser_binops"
    and "parse_argument_list n p = Inr (es, p') \<Longrightarrow> binops_exprs es \<subseteq> parser_binops"
    and "parse_argument_loop n es1 p = Inr (es, p') \<Longrightarrow> binops_exprs es1 \<subseteq> parser_binops \<Longrightarrow> binops_exprs es \<subseteq> parser_binops"
proof (induct n arbitrary: p c p' c1 e e1 d d1 es es1)
  case 0
  { case 1 then show ?case by simp }
  { case 2 then show ?case by simp }
  { case 3 then show ?case by simp }
  { case 4 then show ?case by simp }
  { case 5 then show ?case by simp }
  { case 6 then show ?case by simp }
  { case 7 then show ?case by simp }
  { case 8 then show ?case by simp }
  { case 9 then show ?case by simp }
  { case 10 then show ?case by simp }
  { case 11 then show ?case by simp }
  { case 12 then show ?case by simp }
  { case 13 then show ?case by simp }
  { case 14 then show ?case by simp }
  { case 15 then show ?case by simp }
  { case 16 then show ?case by simp }
next
  case (Suc n)
  note rules = Let_def bind_res_eq_Inr parser_binops_def
  note dests = Suc is_oper_in_val
  { case 1 then show ?case by (fastforce simp: rules split: if_splits dest!: dests) }
  { case 2 then show ?case by (fastforce simp: rules split: if_splits dest!: dests) }
  { case 3 then show ?case by (fastforce simp: rules split: if_splits dest!: dests) }
  { case 4 then show ?case by (fastforce simp: rules split: if_splits dest!: dests) }
  { case 5 then show ?case by (fastforce simp: rules split: if_splits dest!: dests) }
  { case 6 then show ?case by (fastforce simp: rules split: if_splits dest!: dests) }
  { case 7 then show ?case by (fastforce simp: rules split: if_splits dest!: dests) }
  { case 8 then show ?case by (fastforce simp: rules split: if_splits dest!: dests) }
  { case 9 then show ?case by (fastforce simp: rules split: if_splits dest!: dests) }
  { case 10 then show ?case by (fastforce simp: rules split: if_splits dest!: dests) }
  { case 11 then show ?case by (fastforce simp: rules split: if_splits dest!: dests) }
  { case 12 then show ?case by (fastforce simp: rules split: if_splits dest!: dests) }
  { case 13 then show ?case by (fastforce simp: rules split: if_splits dest!: dests) }
  { case 14 then show ?case by (fastforce simp: rules split: if_splits dest!: dests) }
  { case 15 then show ?case by (fastforce simp: rules split: if_splits dest!: dests) }
  { case 16 then show ?case by (fastforce simp: rules split: if_splits dest!: dests) }
qed


text \<open>
  C17: Every binary operator of a parsed tree is one of the operators of the three
  expression tiers, and the backslash (modulo) is never among them.
\<close>

theorem parse_binops:
  assumes "parse tokens = Inr (Program c)"
  shows "binops_cmd c \<subseteq> parser_binops \<and> [CHR 0x5C] \<notin> binops_cmd c"
proof -
  from assms obtain p p' where "parse_command (parser_fuel tokens) p = Inr (c, p')"
    by (auto simp: parse_def parse_program_def bind_res_eq_Inr)
  then have "binops_cmd c \<subseteq> parser_binops" by (rule parse_binops_all(1))
  moreover have "[CHR 0x5C] \<notin> parser_binops" by (simp add: parser_binops_def)
  ultimately show ?thesis by blast
qed

theorem parse_binops_witness:
  "parse (projr (scan ''a := (b - c) * d < e;'')) =
     Inr (Program (AssignCommand (Vname ''a'') (BinaryExpression (BinaryExpression (BinaryExpression
       (VnameExpression (Vname ''b'')) ''-'' (VnameExpression (Vname ''c''))) ''*'' (VnameExpression (Vname ''d'')))
       ''<'' (VnameExpression (Vname ''e'')))))
   \<and> binops_cmd (AssignCommand (Vname ''a'') (BinaryExpression (BinaryExpression (BinaryExpression
       (VnameExpression (Vname ''b'')) ''-'' (VnameExpression (Vname ''c''))) ''*'' (VnameExpression (Vname ''d'')))
       ''<'' (VnameExpression (Vname ''e'')))) \<subseteq> parser_binops"
proof -
  have h: "parse (projr (scan ''a := (b - c) * d < e;'')) =
     Inr (Program (AssignCommand (Vname ''a'') (BinaryExpression (BinaryExpression (BinaryExpression
       (VnameExpression (Vname ''b'')) ''-'' (VnameExpression (Vname ''c''))) ''*'' (VnameExpression (Vname ''d'')))
       ''<'' (VnameExpression (Vname ''e'')))))"
    by code_simp
  from h parse_binops [OF h] show ?thesis by blast
qed

section \<open>Function declarations with no parameter\<close>

text \<open>
  \<open>parse_parameter_list\<close> reads one parameter before it looks for a comma or a
  right parenthesis, so \<open>func f(): ...\<close> is rejected at the right parenthesis.
\<close>

text \<open>
  C19: A function declared with an empty parameter list is rejected at its right
  parenthesis with an error expecting an identifier.
\<close>

theorem parse_function_needs_parameter:
  assumes wf: "parser_wf p" and i: "curindex p + 3 < length (p_tokens p)"
    and k: "tok_type (curtoken p) = TK_FUNCDEF" "tok_type (p_tokens p ! (curindex p + 1)) = TK_IDENTIFIER"
      "tok_type (p_tokens p ! (curindex p + 2)) = TK_LPAREN" "p_tokens p ! (curindex p + 3) = t"
      "tok_type t = TK_RPAREN"
  shows "parse_function_declaration (Suc n) p = Inl (ParserException (tok_pos t) TK_RPAREN (Some TK_IDENTIFIER))"
proof -
  have "p_tokens p ! Suc (Suc (Suc (curindex p))) = t" "Suc (Suc (Suc (curindex p))) < length (p_tokens p)"
    using i k(4) by (simp_all add: eval_nat_numeral)
  with wf k show ?thesis
    by (simp add: parser_wf_def token_accept_def token_accept_any_def parse_parameter_list_def
        parse_param_def Let_def)
qed

theorem parse_function_needs_parameter_witness:
  "parse_function_declaration (Suc 4) (projr (parser_init (projr (scan ''func f(): Integer return 1'')))) =
     Inl (ParserException 7 TK_RPAREN (Some TK_IDENTIFIER))"
proof -
  define p where "p = projr (parser_init (projr (scan ''func f(): Integer return 1'')))"
  have h: "parser_wf p" "curindex p + 3 < length (p_tokens p)" "tok_type (curtoken p) = TK_FUNCDEF"
    "tok_type (p_tokens p ! (curindex p + 1)) = TK_IDENTIFIER"
    "tok_type (p_tokens p ! (curindex p + 2)) = TK_LPAREN"
    "tok_type (p_tokens p ! (curindex p + 3)) = TK_RPAREN"
    "tok_pos (p_tokens p ! (curindex p + 3)) = 7"
    unfolding p_def by code_simp+
  have "parse_function_declaration (Suc 4) p =
      Inl (ParserException (tok_pos (p_tokens p ! (curindex p + 3))) TK_RPAREN (Some TK_IDENTIFIER))"
    by (rule parse_function_needs_parameter [OF h(1-5) refl h(6)])
  then have "parse_function_declaration (Suc 4) p = Inl (ParserException 7 TK_RPAREN (Some TK_IDENTIFIER))"
    by (simp only: h(7))
  then show ?thesis by (simp only: p_def)
qed

end
