(* ===== verification/CodeGen.thy ===== *)
theory CodeGen
  imports AST
begin

text \<open>
  The code generator of \<open>src/codegen.py\<close>: the state of a \<open>CodeGen\<close> object as a
  record, the byteplay instructions it emits as a datatype, its exceptions as the
  left summand, and every method of the class as a function that takes the state
  and returns the updated state or the exception. The tree is typed, so the
  \<open>type(node)\<close> dispatch is an exhaustive match and the branches that raise on an
  unknown node class cannot be reached.
\<close>

section \<open>Instructions, exceptions and the generator state\<close>

text \<open>
  A byteplay \<open>Label()\<close> is a fresh object; here it is a number drawn from a
  counter of the state. A byteplay \<open>Code\<close> object that the generator builds is
  \<open>CCode name argnames code\<close>. Each emitted pair \<open>(OPCODE, arg)\<close> is one
  constructor; a placed label \<open>(label, None)\<close> is \<open>LABEL l\<close>.
\<close>

type_synonym label = nat

datatype py_const = CInt nat | CNone | CCode string "string list" "instr list"
and instr =
    LOAD_CONST py_const
  | LOAD_FAST string
  | STORE_FAST string
  | LOAD_GLOBAL string
  | CALL_FUNCTION nat
  | PRINT_ITEM
  | PRINT_NEWLINE
  | POP_JUMP_IF_FALSE label
  | JUMP_FORWARD label
  | JUMP_ABSOLUTE label
  | LABEL label
  | RETURN_VALUE
  | BINARY_ADD
  | BINARY_MULTIPLY
  | BINARY_SUBTRACT
  | BINARY_DIVIDE
  | BINARY_MODULO
  | COMPARE_OP string
  | UNARY_POSITIVE
  | UNARY_NEGATIVE
  | MAKE_FUNCTION nat
  | STORE_NAME string

text \<open>The AST node an exception carries, and the exception classes of lines 23-81.\<close>

datatype cg_node =
    NodeProgram program
  | NodeCommand command
  | NodeExpression expression
  | NodeDeclaration decl

datatype cg_error =
    CodeGeneratorError cg_node
  | TypeMismatchError cg_node
  | InvalidExpressionError cg_node
  | InvalidDeclarationError cg_node
  | UnknownFunctionError string
  | IllegalFunctionArgumentError string nat
  | CgIndexError
  | CgKeyError

text \<open>
  An environment maps a name to \<open>(type, writable)\<close>; a constant stores the string
  \<open>'Integer'\<close>, a variable or a parameter its type denoter. A Python dict is an
  association list with distinct keys, updated in place by \<open>AList.update\<close>.
\<close>

datatype env_type = EnvType string | EnvTypeDenoter type_denoter

type_synonym env = "(string \<times> (env_type \<times> bool)) list"

text \<open>
  The fields of \<open>CodeGen.__init__\<close> (lines 91-105). \<open>self.code\<close> is always the
  last list of \<open>self.code_stacks\<close>; the model keeps that top buffer in \<open>code\<close> and
  the enclosing buffers, innermost first, in \<open>code_stacks\<close>. \<open>envs\<close> lists the
  environments innermost first, so \<open>envs[len(envs)-1]\<close> is its head.
\<close>

record cg =
  code :: "instr list"
  code_stacks :: "instr list list"
  scope_depth :: nat
  envs :: "env list"
  declared_functions :: "string \<rightharpoonup> ((vname \<times> type_denoter) list \<times> string)"
  scope_vars :: "string \<rightharpoonup> string list"
  cg_labels :: nat

definition cg_init :: cg where
  "cg_init = \<lparr>code = [], code_stacks = [], scope_depth = 0, envs = [[]],
     declared_functions = Map.empty, scope_vars = Map.empty, cg_labels = 0\<rparr>"

text \<open>\<open>self.code.append(i)\<close>.\<close>

definition emit :: "instr \<Rightarrow> cg \<Rightarrow> cg" where
  "emit i s = s\<lparr>code := code s @ [i]\<rparr>"

section \<open>Environments, scopes and the rename table\<close>

text \<open>\<open>env_load\<close> (lines 312-313): store into the current environment.\<close>

definition env_load :: "string \<Rightarrow> env_type \<Rightarrow> bool \<Rightarrow> cg \<Rightarrow> cg_error + cg" where
  "env_load name t w s = (case envs s of
      [] \<Rightarrow> Inl CgIndexError
    | e # es \<Rightarrow> Inr (s\<lparr>envs := AList.update name (t, w) e # es\<rparr>))"

text \<open>The slot name of \<open>add_var\<close>: the name, suffixed with the depth unless it is 0.\<close>

definition slot_name :: "string \<Rightarrow> nat \<Rightarrow> string" where
  "slot_name x d = (if d = 0 then x else x @ py_str_nat d)"

text \<open>\<open>add_var\<close> (lines 333-345): push the slot onto the name's rename stack.\<close>

definition add_var :: "string \<Rightarrow> cg \<Rightarrow> string \<times> cg" where
  "add_var x s =
     (let l = (case scope_vars s x of None \<Rightarrow> [] | Some l \<Rightarrow> l);
          v = slot_name x (scope_depth s)
      in (v, s\<lparr>scope_vars := (scope_vars s)(x \<mapsto> l @ [v])\<rparr>))"

text \<open>
  \<open>lookup_var\<close> (lines 347-352): \<open>None\<close> for a name never declared; the top of
  its stack otherwise, and \<open>IndexError\<close> when the stack has been emptied.
\<close>

definition lookup_var :: "string \<Rightarrow> cg \<Rightarrow> cg_error + string option" where
  "lookup_var x s = (case scope_vars s x of
      None \<Rightarrow> Inr None
    | Some l \<Rightarrow> if l = [] then Inl CgIndexError else Inr (Some (last l)))"

text \<open>\<open>raise_scope\<close> (lines 354-356).\<close>

definition raise_scope :: "cg \<Rightarrow> cg" where
  "raise_scope s = s\<lparr>envs := [] # envs s, scope_depth := Suc (scope_depth s)\<rparr>"

text \<open>The loop of \<open>lower_scope\<close>: \<open>self.scope_vars[x].pop()\<close> for every key.\<close>

fun pop_vars :: "string list \<Rightarrow> (string \<rightharpoonup> string list) \<Rightarrow> cg_error + (string \<rightharpoonup> string list)" where
  "pop_vars [] sv = Inr sv"
| "pop_vars (x # xs) sv = (case sv x of
      None \<Rightarrow> Inl CgKeyError
    | Some l \<Rightarrow> if l = [] then Inl CgIndexError else pop_vars xs (sv(x \<mapsto> butlast l)))"

text \<open>\<open>lower_scope\<close> (lines 358-363).\<close>

definition lower_scope :: "cg \<Rightarrow> cg_error + cg" where
  "lower_scope s = (case envs s of
      [] \<Rightarrow> Inl CgIndexError
    | e # es \<Rightarrow> bind_res (pop_vars (map fst e) (scope_vars s))
        (\<lambda>sv. Inr (s\<lparr>scope_vars := sv, envs := es, scope_depth := scope_depth s - 1\<rparr>)))"

text \<open>\<open>raise_code_stack\<close> and \<open>lower_code_stack\<close> (lines 316-330).\<close>

definition raise_code_stack :: "cg \<Rightarrow> cg" where
  "raise_code_stack s = raise_scope (s\<lparr>code := [], code_stacks := code s # code_stacks s\<rparr>)"

definition lower_code_stack :: "cg \<Rightarrow> cg_error + cg" where
  "lower_code_stack s = lower_scope (case code_stacks s of
      [] \<Rightarrow> s
    | c # cs \<Rightarrow> s\<lparr>code := c, code_stacks := cs\<rparr>)"

section \<open>Operators\<close>

text \<open>The operator dispatch of \<open>gen_expression\<close> (lines 199-214 and 226-231).\<close>

definition binary_op :: "string \<Rightarrow> instr option" where
  "binary_op oper =
     (if oper = ''+'' then Some BINARY_ADD
      else if oper = ''*'' then Some BINARY_MULTIPLY
      else if oper = ''-'' then Some BINARY_SUBTRACT
      else if oper = ''/'' then Some BINARY_DIVIDE
      else if oper = ''<'' \<or> oper = ''>'' then Some (COMPARE_OP oper)
      else if oper = ''='' then Some (COMPARE_OP ''=='')
      else if oper = [CHR 0x5C] then Some BINARY_MODULO
      else None)"

definition unary_op :: "string \<Rightarrow> instr option" where
  "unary_op oper =
     (if oper = ''+'' then Some UNARY_POSITIVE
      else if oper = ''-'' then Some UNARY_NEGATIVE
      else None)"

section \<open>Expressions and calls\<close>

text \<open>
  \<open>gen_expression\<close> (lines 190-235), the loop over the arguments of
  \<open>gen_call_command\<close> (lines 301-302), the \<open>CallCommand\<close> branch of \<open>gen_command\<close>
  (lines 136-153), which \<open>gen_expression\<close> also runs for a call inside an
  expression, and \<open>gen_call_command\<close> (lines 293-306).
\<close>

function gen_expression :: "expression \<Rightarrow> cg \<Rightarrow> cg_error + cg"
  and gen_exprs :: "expression list \<Rightarrow> cg \<Rightarrow> cg_error + cg"
  and gen_call :: "string \<Rightarrow> expression list \<Rightarrow> cg \<Rightarrow> cg_error + cg"
  and gen_call_command :: "string \<Rightarrow> expression list \<Rightarrow> cg \<Rightarrow> cg_error + cg" where
  "gen_expression (BinaryExpression e1 oper e2) s =
     bind_res (gen_expression e1 s) (\<lambda>s. bind_res (gen_expression e2 s) (\<lambda>s.
       case binary_op oper of
         None \<Rightarrow> Inl (InvalidExpressionError (NodeExpression (BinaryExpression e1 oper e2)))
       | Some i \<Rightarrow> Inr (emit i s)))"
| "gen_expression (IntegerExpression n) s = Inr (emit (LOAD_CONST (CInt n)) s)"
| "gen_expression (VnameExpression (Vname x)) s =
     bind_res (lookup_var x s) (\<lambda>v. case v of
         None \<Rightarrow> Inl (InvalidExpressionError (NodeExpression (VnameExpression (Vname x))))
       | Some v \<Rightarrow> Inr (emit (LOAD_FAST v) s))"
| "gen_expression (UnaryExpression oper e) s =
     bind_res (gen_expression e s) (\<lambda>s.
       case unary_op oper of
         None \<Rightarrow> Inl (InvalidExpressionError (NodeExpression (UnaryExpression oper e)))
       | Some i \<Rightarrow> Inr (emit i s))"
| "gen_expression (CallExpression f es) s = gen_call f es s"
| "gen_exprs [] s = Inr s"
| "gen_exprs (e # es) s = bind_res (gen_expression e s) (gen_exprs es)"
| "gen_call f es s =
     (if f = ''getint'' then
        (if es \<noteq> [] then Inl (IllegalFunctionArgumentError ''getint'' 0)
         else Inr (emit (CALL_FUNCTION 0) (emit (LOAD_GLOBAL ''input'') s)))
      else if f = ''putint'' then
        (case es of
           [e] \<Rightarrow> bind_res (gen_expression e s) (\<lambda>s. Inr (emit PRINT_NEWLINE (emit PRINT_ITEM s)))
         | _ \<Rightarrow> Inl (IllegalFunctionArgumentError ''putint'' 1))
      else gen_call_command f es s)"
| "gen_call_command f es s =
     (case declared_functions s f of
        None \<Rightarrow> Inl (InvalidExpressionError (NodeCommand (CallCommand f es)))
      | Some (ps, rt) \<Rightarrow>
          if length ps \<noteq> length es then Inl (IllegalFunctionArgumentError f (length ps))
          else bind_res (gen_exprs es (emit (LOAD_GLOBAL f) s))
            (\<lambda>s. Inr (emit (CALL_FUNCTION (length ps)) s)))"
  by pat_completeness auto
termination
  by (relation "measure (case_sum (case_sum (\<lambda>(e, s). 4 * size e + 3) (\<lambda>(es, s). 4 * size_list size es))
      (case_sum (\<lambda>(f, es, s). 4 * size_list size es + 2) (\<lambda>(f, es, s). 4 * size_list size es + 1)))") simp_all


section \<open>Commands, declarations and functions\<close>

text \<open>The loop of \<open>gen_function\<close> over the parameters (lines 274-279).\<close>

fun gen_params :: "(vname \<times> type_denoter) list \<Rightarrow> string list \<Rightarrow> cg \<Rightarrow> cg_error + (string list \<times> cg)" where
  "gen_params [] arg_names s = Inr (arg_names, s)"
| "gen_params ((Vname x, td) # ps) arg_names s =
     bind_res (env_load x (EnvTypeDenoter td) True s) (\<lambda>s.
       case add_var x s of (v, s) \<Rightarrow> gen_params ps (arg_names @ [v]) s)"

text \<open>
  \<open>gen_command\<close> (lines 123-188), \<open>gen_declaration\<close> (lines 237-267) and
  \<open>gen_function\<close> (lines 269-291). The two labels of an \<open>if\<close> or a \<open>while\<close>
  are the next two values of the label counter, in the order the code creates them.
\<close>

function gen_command :: "command \<Rightarrow> cg \<Rightarrow> cg_error + cg"
  and gen_declaration :: "decl \<Rightarrow> cg \<Rightarrow> cg_error + cg"
  and gen_function :: "string \<Rightarrow> (vname \<times> type_denoter) list \<Rightarrow> string \<Rightarrow> command \<Rightarrow> cg \<Rightarrow> cg_error + cg" where
  "gen_command (SequentialCommand c1 c2) s = bind_res (gen_command c1 s) (gen_command c2)"
| "gen_command (AssignCommand (Vname x) e) s =
     bind_res (gen_expression e s) (\<lambda>s. bind_res (lookup_var x s) (\<lambda>v. case v of
         None \<Rightarrow> Inl (InvalidExpressionError (NodeCommand (AssignCommand (Vname x) e)))
       | Some v \<Rightarrow> Inr (emit (STORE_FAST v) s)))"
| "gen_command (CallCommand f es) s = gen_call f es s"
| "gen_command (IfCommand e c1 c2) s =
     (let label_else = cg_labels s; label_if = Suc label_else;
          s = s\<lparr>cg_labels := Suc label_if\<rparr>
      in bind_res (gen_expression e s) (\<lambda>s.
         bind_res (gen_command c1 (emit (POP_JUMP_IF_FALSE label_else) s)) (\<lambda>s.
         bind_res (gen_command c2 (emit (LABEL label_else) (emit (JUMP_FORWARD label_if) s))) (\<lambda>s.
         Inr (emit (LABEL label_if) s)))))"
| "gen_command (WhileCommand e c) s =
     (let label_loop_test = cg_labels s; label_loop_done = Suc label_loop_test;
          s = s\<lparr>cg_labels := Suc label_loop_done\<rparr>
      in bind_res (gen_expression e (emit (LABEL label_loop_test) s)) (\<lambda>s.
         bind_res (gen_command c (emit (POP_JUMP_IF_FALSE label_loop_done) s)) (\<lambda>s.
         Inr (emit (LABEL label_loop_done) (emit (JUMP_ABSOLUTE label_loop_test) s)))))"
| "gen_command (LetCommand d c) s =
     bind_res (gen_declaration d (raise_scope s)) (\<lambda>s. bind_res (gen_command c s) lower_scope)"
| "gen_command (ReturnCommand e) s = bind_res (gen_expression e s) (\<lambda>s. Inr (emit RETURN_VALUE s))"
| "gen_declaration (ConstDeclaration x e) s =
     bind_res (gen_expression e s) (\<lambda>s. bind_res (env_load x (EnvType ''Integer'') False s) (\<lambda>s.
       let s = snd (add_var x s) in bind_res (lookup_var x s) (\<lambda>v. case v of
           None \<Rightarrow> Inl (InvalidExpressionError (NodeDeclaration (ConstDeclaration x e)))
         | Some v \<Rightarrow> Inr (emit (STORE_FAST v) s))))"
| "gen_declaration (VarDeclaration x td) s =
     bind_res (env_load x (EnvTypeDenoter td) True s) (\<lambda>s.
       let s = emit (LOAD_CONST CNone) (snd (add_var x s)) in bind_res (lookup_var x s) (\<lambda>v. case v of
           None \<Rightarrow> Inl (InvalidExpressionError (NodeDeclaration (VarDeclaration x td)))
         | Some v \<Rightarrow> Inr (emit (STORE_FAST v) s)))"
| "gen_declaration (SequentialDeclaration d1 d2) s = bind_res (gen_declaration d1 s) (gen_declaration d2)"
| "gen_declaration (FunctionDeclaration f ps rt c) s = gen_function f ps rt c s"
| "gen_function f ps rt c s =
     (let s = raise_code_stack s;
          s = s\<lparr>declared_functions := (declared_functions s)(f \<mapsto> (ps, rt))\<rparr>
      in bind_res (gen_params ps [] s) (\<lambda>(arg_names, s).
         bind_res (gen_command c s) (\<lambda>s.
         let code_obj = CCode f arg_names (code s) in
         bind_res (lower_code_stack s) (\<lambda>s.
         Inr (emit (STORE_NAME f) (emit (MAKE_FUNCTION 0) (emit (LOAD_CONST code_obj) s)))))))"
  by pat_completeness auto
termination
  by (relation "measure (case_sum (\<lambda>(c, s). 2 * size c + 1)
      (case_sum (\<lambda>(d, s). 2 * size d + 1) (\<lambda>(f, ps, rt, c, s). 2 * size c + 2)))") simp_all

text \<open>\<open>generate\<close> (lines 110-121): the root command, then \<open>return 0\<close>.\<close>

definition generate :: "program \<Rightarrow> cg_error + py_const" where
  "generate prog = (case prog of Program c \<Rightarrow>
     bind_res (gen_command c cg_init) (\<lambda>s.
       Inr (CCode ''gencode'' [] (code (emit RETURN_VALUE (emit (LOAD_CONST (CInt 0)) s))))))"

section \<open>Observations of the generator state\<close>

text \<open>
  A command leaves the nesting depth, the environment stack and the stack of
  enclosing code buffers as it found them; a declaration may change only the
  innermost environment.
\<close>

definition scope_balanced :: "cg \<Rightarrow> cg \<Rightarrow> bool" where
  "scope_balanced s s' \<longleftrightarrow> scope_depth s' = scope_depth s \<and> envs s' = envs s \<and>
     code_stacks s' = code_stacks s"

definition scope_extended :: "cg \<Rightarrow> cg \<Rightarrow> bool" where
  "scope_extended s s' \<longleftrightarrow> scope_depth s' = scope_depth s \<and> length (envs s') = length (envs s) \<and>
     tl (envs s') = tl (envs s) \<and> code_stacks s' = code_stacks s"

text \<open>
  The rename stack of a name (the list \<open>scope_vars[x]\<close>, empty when absent),
  the names a declaration puts into the current environment, the parameter
  names of a function, and the condition that no scope declares a name twice.
  \<open>pushed r xs d\<close> is the rename table \<open>r\<close> after the names \<open>xs\<close> were
  declared at depth \<open>d\<close>.
\<close>

definition rstack :: "(string \<rightharpoonup> string list) \<Rightarrow> string \<Rightarrow> string list" where
  "rstack sv x = (case sv x of None \<Rightarrow> [] | Some l \<Rightarrow> l)"

fun decl_names :: "decl \<Rightarrow> string list" where
  "decl_names (ConstDeclaration x e) = [x]"
| "decl_names (VarDeclaration x td) = [x]"
| "decl_names (SequentialDeclaration d1 d2) = decl_names d1 @ decl_names d2"
| "decl_names (FunctionDeclaration f ps rt c) = []"

text \<open>The functions a declaration declares.\<close>

fun decl_funs :: "decl \<Rightarrow> string list" where
  "decl_funs (ConstDeclaration x e) = []"
| "decl_funs (VarDeclaration x td) = []"
| "decl_funs (SequentialDeclaration d1 d2) = decl_funs d1 @ decl_funs d2"
| "decl_funs (FunctionDeclaration f ps rt c) = [f]"

definition param_names :: "(vname \<times> type_denoter) list \<Rightarrow> string list" where
  "param_names ps = map (\<lambda>p. case fst p of Vname x \<Rightarrow> x) ps"

fun scopes_distinct_cmd :: "command \<Rightarrow> bool"
  and scopes_distinct_decl :: "decl \<Rightarrow> bool" where
  "scopes_distinct_cmd (SequentialCommand c1 c2) \<longleftrightarrow> scopes_distinct_cmd c1 \<and> scopes_distinct_cmd c2"
| "scopes_distinct_cmd (AssignCommand v e) \<longleftrightarrow> True"
| "scopes_distinct_cmd (CallCommand f es) \<longleftrightarrow> True"
| "scopes_distinct_cmd (IfCommand e c1 c2) \<longleftrightarrow> scopes_distinct_cmd c1 \<and> scopes_distinct_cmd c2"
| "scopes_distinct_cmd (WhileCommand e c) \<longleftrightarrow> scopes_distinct_cmd c"
| "scopes_distinct_cmd (LetCommand d c) \<longleftrightarrow>
     distinct (decl_names d) \<and> scopes_distinct_decl d \<and> scopes_distinct_cmd c"
| "scopes_distinct_cmd (ReturnCommand e) \<longleftrightarrow> True"
| "scopes_distinct_decl (ConstDeclaration x e) \<longleftrightarrow> True"
| "scopes_distinct_decl (VarDeclaration x td) \<longleftrightarrow> True"
| "scopes_distinct_decl (SequentialDeclaration d1 d2) \<longleftrightarrow> scopes_distinct_decl d1 \<and> scopes_distinct_decl d2"
| "scopes_distinct_decl (FunctionDeclaration f ps rt c) \<longleftrightarrow>
     distinct (param_names ps) \<and> scopes_distinct_cmd c"

definition frame_keys :: "cg \<Rightarrow> string list" where
  "frame_keys s = map fst (hd (envs s))"

definition pushed :: "(string \<Rightarrow> string list) \<Rightarrow> string list \<Rightarrow> nat \<Rightarrow> string \<Rightarrow> string list" where
  "pushed r xs d x = r x @ replicate (count_list xs x) (slot_name x d)"

text \<open>
  The net effect on the CPython 2 value stack of each emitted instruction
  (\<open>CALL_FUNCTION n\<close> pops the function and \<open>n\<close> arguments and pushes the
  result), and the expressions that do not call \<open>putint\<close>.
\<close>

fun stack_effect :: "instr \<Rightarrow> int" where
  "stack_effect (LOAD_CONST k) = 1"
| "stack_effect (LOAD_FAST v) = 1"
| "stack_effect (STORE_FAST v) = -1"
| "stack_effect (LOAD_GLOBAL v) = 1"
| "stack_effect (CALL_FUNCTION n) = - int n"
| "stack_effect PRINT_ITEM = -1"
| "stack_effect PRINT_NEWLINE = 0"
| "stack_effect (POP_JUMP_IF_FALSE l) = -1"
| "stack_effect (JUMP_FORWARD l) = 0"
| "stack_effect (JUMP_ABSOLUTE l) = 0"
| "stack_effect (LABEL l) = 0"
| "stack_effect RETURN_VALUE = -1"
| "stack_effect BINARY_ADD = -1"
| "stack_effect BINARY_MULTIPLY = -1"
| "stack_effect BINARY_SUBTRACT = -1"
| "stack_effect BINARY_DIVIDE = -1"
| "stack_effect BINARY_MODULO = -1"
| "stack_effect (COMPARE_OP oper) = -1"
| "stack_effect UNARY_POSITIVE = 0"
| "stack_effect UNARY_NEGATIVE = 0"
| "stack_effect (MAKE_FUNCTION n) = - int n"
| "stack_effect (STORE_NAME v) = -1"

definition net_effect :: "instr list \<Rightarrow> int" where
  "net_effect xs = sum_list (map stack_effect xs)"

fun putint_free :: "expression \<Rightarrow> bool"
  and putint_free_list :: "expression list \<Rightarrow> bool" where
  "putint_free (BinaryExpression e1 oper e2) \<longleftrightarrow> putint_free e1 \<and> putint_free e2"
| "putint_free (UnaryExpression oper e) \<longleftrightarrow> putint_free e"
| "putint_free (IntegerExpression n) \<longleftrightarrow> True"
| "putint_free (VnameExpression v) \<longleftrightarrow> True"
| "putint_free (CallExpression f es) \<longleftrightarrow> f \<noteq> ''putint'' \<and> putint_free_list es"
| "putint_free_list [] \<longleftrightarrow> True"
| "putint_free_list (e # es) \<longleftrightarrow> putint_free e \<and> putint_free_list es"

text \<open>
  The labels a buffer places and the labels its jumps target.
  \<open>flow_ok lo hi xs\<close>: every label is placed at most once, all of them are drawn
  from \<open>lo..<hi\<close>, and every jump of \<open>xs\<close> targets a label placed in \<open>xs\<close>.
\<close>

fun label_of :: "instr \<Rightarrow> label list" where
  "label_of (LABEL l) = [l]"
| "label_of i = []"

fun target_of :: "instr \<Rightarrow> label list" where
  "target_of (POP_JUMP_IF_FALSE l) = [l]"
| "target_of (JUMP_FORWARD l) = [l]"
| "target_of (JUMP_ABSOLUTE l) = [l]"
| "target_of i = []"

definition placed :: "instr list \<Rightarrow> label list" where
  "placed xs = concat (map label_of xs)"

definition targets :: "instr list \<Rightarrow> label list" where
  "targets xs = concat (map target_of xs)"

definition flow_ok :: "label \<Rightarrow> label \<Rightarrow> instr list \<Rightarrow> bool" where
  "flow_ok lo hi xs \<longleftrightarrow> distinct (placed xs) \<and> set (placed xs) \<subseteq> {lo..<hi} \<and> set (targets xs) \<subseteq> set (placed xs)"

text \<open>A name whose last character is not a digit (the renaming can only be undone for those).\<close>

definition ends_with_digit :: "string \<Rightarrow> bool" where
  "ends_with_digit x \<longleftrightarrow> x \<noteq> [] \<and> py_digit_char (last x)"

section \<open>Expressions change only the code buffer\<close>

lemma code_extends_refl [simp]: "\<exists>new. s = s\<lparr>code := code s @ new\<rparr>"
  by (rule exI [of _ "[]"]) simp

lemma gen_expression_frame:
  shows "gen_expression e s = Inr s' \<Longrightarrow> \<exists>new. s' = s\<lparr>code := code s @ new\<rparr>"
    and "gen_exprs es s = Inr s' \<Longrightarrow> \<exists>new. s' = s\<lparr>code := code s @ new\<rparr>"
    and "gen_call f es s = Inr s' \<Longrightarrow> \<exists>new. s' = s\<lparr>code := code s @ new\<rparr>"
    and "gen_call_command f es s = Inr s' \<Longrightarrow> \<exists>new. s' = s\<lparr>code := code s @ new\<rparr>"
proof (induction e s and es s and f es s and f es s arbitrary: s' and s' and s' and s'
    rule: gen_expression_gen_exprs_gen_call_gen_call_command.induct)
  case (1 e1 oper e2 s)
  then show ?case by (fastforce simp: emit_def bind_res_eq_Inr split: option.splits)
next
  case (3 x s)
  then show ?case by (fastforce simp: emit_def lookup_var_def bind_res_eq_Inr split: option.splits if_splits)
next
  case (4 oper e s)
  then show ?case by (fastforce simp: emit_def bind_res_eq_Inr split: option.splits)
next
  case (7 e es s)
  then show ?case by (fastforce simp: bind_res_eq_Inr)
next
  case (8 f es s)
  then show ?case by (fastforce simp: emit_def bind_res_eq_Inr split: if_splits list.splits)
next
  case (9 f es s)
  then show ?case by (fastforce simp: emit_def bind_res_eq_Inr split: option.splits if_splits)
qed (auto simp: emit_def)

section \<open>Scopes are balanced\<close>

lemma lower_scope_Inr:
  "lower_scope s = Inr s' \<Longrightarrow> \<exists>e. envs s = e # envs s' \<and> pop_vars (map fst e) (scope_vars s) = Inr (scope_vars s') \<and>
     scope_depth s' = scope_depth s - 1 \<and> code s' = code s \<and> code_stacks s' = code_stacks s \<and>
     cg_labels s' = cg_labels s \<and> declared_functions s' = declared_functions s"
  by (auto simp: lower_scope_def bind_res_eq_Inr split: list.splits)

lemma env_load_Inr:
  "env_load x t w s = Inr s' \<Longrightarrow> \<exists>e es. envs s = e # es \<and> s' = s\<lparr>envs := AList.update x (t, w) e # es\<rparr>"
  by (auto simp: env_load_def split: list.splits)

lemma add_var_fields [simp]:
  "envs (snd (add_var x s)) = envs s" "scope_depth (snd (add_var x s)) = scope_depth s"
  "code (snd (add_var x s)) = code s" "code_stacks (snd (add_var x s)) = code_stacks s"
  "cg_labels (snd (add_var x s)) = cg_labels s"
  "declared_functions (snd (add_var x s)) = declared_functions s"
  by (simp_all add: add_var_def Let_def)

lemma gen_params_frame:
  "gen_params ps acc s = Inr (args, s') \<Longrightarrow>
     scope_depth s' = scope_depth s \<and> code s' = code s \<and> code_stacks s' = code_stacks s \<and>
     cg_labels s' = cg_labels s \<and> declared_functions s' = declared_functions s \<and>
     length (envs s') = length (envs s) \<and> tl (envs s') = tl (envs s)"
proof (induction ps acc s rule: gen_params.induct)
  case (2 x td ps acc s)
  from 2(2) obtain s1 where s1: "env_load x (EnvTypeDenoter td) True s = Inr s1"
    and r0: "(case add_var x s1 of (v, s) \<Rightarrow> gen_params ps (acc @ [v]) s) = Inr (args, s')"
    by (auto simp: bind_res_eq_Inr)
  from r0 have r: "gen_params ps (acc @ [fst (add_var x s1)]) (snd (add_var x s1)) = Inr (args, s')"
    by (simp add: case_prod_beta)
  from 2(1) [OF s1 prod.collapse r] env_load_Inr [OF s1] show ?case by auto
qed simp

lemma expr_balanced: "\<exists>new. s' = s\<lparr>code := code s @ new\<rparr> \<Longrightarrow> scope_balanced s s'"
  by (auto simp: scope_balanced_def)

lemma scope_balanced_emit [simp]: "scope_balanced s (emit i s)"
  by (simp add: scope_balanced_def emit_def)

lemma scope_balanced_trans [trans]: "scope_balanced a b \<Longrightarrow> scope_balanced b c \<Longrightarrow> scope_balanced a c"
  by (simp add: scope_balanced_def)

lemmas gen_expr_balanced = gen_expression_frame [THEN expr_balanced]

lemma gen_command_balanced:
  shows "gen_command c s = Inr s' \<Longrightarrow> scope_balanced s s'"
    and "gen_declaration d s = Inr s' \<Longrightarrow> scope_extended s s'"
    and "gen_function f ps rt c s = Inr s' \<Longrightarrow> scope_balanced s s'"
proof (induction c s and d s and f ps rt c s arbitrary: s' and s' and s'
    rule: gen_command_gen_declaration_gen_function.induct)
  case (1 c1 c2 s)
  from 1(3) obtain s1 where a: "gen_command c1 s = Inr s1" and b: "gen_command c2 s1 = Inr s'"
    by (auto simp: bind_res_eq_Inr)
  from 1(1) [OF a] 1(2) [OF a b] show ?case by (rule scope_balanced_trans)
next
  case (2 x e s)
  then obtain s1 v where "gen_expression e s = Inr s1" "s' = emit (STORE_FAST v) s1"
    by (auto simp: bind_res_eq_Inr split: option.splits)
  then show ?case by (metis gen_expr_balanced(1) scope_balanced_emit scope_balanced_trans)
next
  case (3 f es s)
  then show ?case by (simp add: gen_expr_balanced(3))
next
  case (4 e c1 c2 s)
  define s0 where "s0 = s\<lparr>cg_labels := Suc (Suc (cg_labels s))\<rparr>"
  from 4(3) obtain s1 s2 s3 where a: "gen_expression e s0 = Inr s1"
    and b: "gen_command c1 (emit (POP_JUMP_IF_FALSE (cg_labels s)) s1) = Inr s2"
    and c: "gen_command c2 (emit (LABEL (cg_labels s)) (emit (JUMP_FORWARD (Suc (cg_labels s))) s2)) = Inr s3"
    and d: "s' = emit (LABEL (Suc (cg_labels s))) s3"
    by (auto simp: bind_res_eq_Inr Let_def s0_def)
  have "scope_balanced s s0" by (simp add: scope_balanced_def s0_def)
  also note gen_expr_balanced(1) [OF a]
  also have "scope_balanced s1 (emit (POP_JUMP_IF_FALSE (cg_labels s)) s1)" by simp
  also note 4(1) [OF refl refl s0_def a b]
  also have "scope_balanced s2 (emit (JUMP_FORWARD (Suc (cg_labels s))) s2)" by simp
  also have "scope_balanced \<dots> (emit (LABEL (cg_labels s)) \<dots>)" by simp
  also note 4(2) [OF refl refl s0_def a b c]
  also have "scope_balanced s3 s'" by (simp add: d)
  finally show ?case .
next
  case (5 e c s)
  define s0 where "s0 = s\<lparr>cg_labels := Suc (Suc (cg_labels s))\<rparr>"
  from 5(2) obtain s1 s2 where a: "gen_expression e (emit (LABEL (cg_labels s)) s0) = Inr s1"
    and b: "gen_command c (emit (POP_JUMP_IF_FALSE (Suc (cg_labels s))) s1) = Inr s2"
    and d: "s' = emit (LABEL (Suc (cg_labels s))) (emit (JUMP_ABSOLUTE (cg_labels s)) s2)"
    by (auto simp: bind_res_eq_Inr Let_def s0_def)
  have "scope_balanced s s0" by (simp add: scope_balanced_def s0_def)
  also have "scope_balanced s0 (emit (LABEL (cg_labels s)) s0)" by simp
  also note gen_expr_balanced(1) [OF a]
  also have "scope_balanced s1 (emit (POP_JUMP_IF_FALSE (Suc (cg_labels s))) s1)" by simp
  also note 5(1) [OF refl refl s0_def a b]
  also have "scope_balanced s2 (emit (JUMP_ABSOLUTE (cg_labels s)) s2)" by simp
  also have "scope_balanced \<dots> s'" by (simp add: d)
  finally show ?case .
next
  case (6 d c s)
  from 6(3) obtain s1 s2 where a: "gen_declaration d (raise_scope s) = Inr s1"
    and b: "gen_command c s1 = Inr s2" and l: "lower_scope s2 = Inr s'"
    by (auto simp: bind_res_eq_Inr)
  from 6(1) [OF a] 6(2) [OF a b] lower_scope_Inr [OF l] show ?case
    by (auto simp: scope_balanced_def scope_extended_def raise_scope_def neq_Nil_conv)
next
  case (7 e s)
  then obtain s1 where "gen_expression e s = Inr s1" "s' = emit RETURN_VALUE s1"
    by (auto simp: bind_res_eq_Inr)
  then show ?case by (metis gen_expr_balanced(1) scope_balanced_emit scope_balanced_trans)
next
  case (8 x e s)
  then obtain s1 s2 v where a: "gen_expression e s = Inr s1"
    and b: "env_load x (EnvType ''Integer'') False s1 = Inr s2"
    and c: "s' = emit (STORE_FAST v) (snd (add_var x s2))"
    by (auto simp: bind_res_eq_Inr Let_def split: option.splits)
  from gen_expr_balanced(1) [OF a] env_load_Inr [OF b] c show ?case
    by (auto simp: scope_balanced_def scope_extended_def emit_def)
next
  case (9 x td s)
  then obtain s2 v where b: "env_load x (EnvTypeDenoter td) True s = Inr s2"
    and c: "s' = emit (STORE_FAST v) (emit (LOAD_CONST CNone) (snd (add_var x s2)))"
    by (auto simp: bind_res_eq_Inr Let_def split: option.splits)
  from env_load_Inr [OF b] c show ?case
    by (auto simp: scope_extended_def emit_def)
next
  case (10 d1 d2 s)
  from 10(3) obtain s1 where a: "gen_declaration d1 s = Inr s1" and b: "gen_declaration d2 s1 = Inr s'"
    by (auto simp: bind_res_eq_Inr)
  from 10(1) [OF a] 10(2) [OF a b] show ?case by (simp add: scope_extended_def)
next
  case (11 f ps rt c s)
  then show ?case by (simp add: scope_extended_def scope_balanced_def)
next
  case (12 f ps rt c s)
  define s1 where "s1 = (raise_code_stack s)\<lparr>declared_functions := (declared_functions (raise_code_stack s))(f \<mapsto> (ps, rt))\<rparr>"
  from 12(2) obtain args s2 s3 s4 where a: "gen_params ps [] s1 = Inr (args, s2)"
    and b: "gen_command c s2 = Inr s3" and l: "lower_code_stack s3 = Inr s4"
    and d: "s' = emit (STORE_NAME f) (emit (MAKE_FUNCTION 0) (emit (LOAD_CONST (CCode f args (code s3))) s4))"
    by (auto simp: bind_res_eq_Inr Let_def s1_def split: prod.splits)
  from 12(1) [OF refl s1_def a refl b] gen_params_frame [OF a] d
    lower_scope_Inr [OF l [unfolded lower_code_stack_def]] show ?case
    by (auto simp: scope_balanced_def s1_def raise_code_stack_def raise_scope_def emit_def neq_Nil_conv)
qed

section \<open>The rename table is restored when a scope closes\<close>

lemma rstack_upd [simp]: "rstack (sv(x \<mapsto> l)) y = (if y = x then l else rstack sv y)"
  by (simp add: rstack_def)

lemma add_var_rstack [simp]:
  "rstack (scope_vars (snd (add_var x s))) y =
     rstack (scope_vars s) y @ (if y = x then [slot_name x (scope_depth s)] else [])"
  by (auto simp: add_var_def Let_def rstack_def split: option.splits)

lemma pop_vars_rstack:
  "pop_vars xs sv = Inr sv' \<Longrightarrow> distinct xs \<Longrightarrow>
     rstack sv' x = (if x \<in> set xs then butlast (rstack sv x) else rstack sv x)"
proof (induction xs sv rule: pop_vars.induct)
  case (2 y ys sv)
  from 2(2) obtain l where l: "sv y = Some l" "l \<noteq> []" and r: "pop_vars ys (sv(y \<mapsto> butlast l)) = Inr sv'"
    by (auto split: option.splits if_splits)
  have "rstack sv y = l" using l by (simp add: rstack_def)
  with 2(1) [OF l r] 2(3) show ?case by (simp add: rstack_def)
qed simp

lemma keys_update: "fst ` set (AList.update k v e) = insert k (fst ` set e)"
  by (induction e) auto

lemma pushed_Nil [simp]: "pushed r [] d = r"
  by (simp add: pushed_def fun_eq_iff)

lemma pushed_append: "pushed (pushed r xs d) ys d = pushed r (xs @ ys) d"
  by (simp add: pushed_def fun_eq_iff replicate_add)

lemma pushed_Cons: "pushed r (x # xs) d = pushed (\<lambda>y. r y @ (if y = x then [slot_name x d] else [])) xs d"
  by (auto simp: pushed_def fun_eq_iff)

lemma distinct_count_list: "distinct xs \<Longrightarrow> count_list xs x = (if x \<in> set xs then 1 else 0)"
  by (induction xs) auto

lemma pop_after_push:
  assumes "pop_vars ks sv = Inr sv'" "distinct ks" "set ks = set xs" "distinct xs"
    and "rstack sv = pushed r xs d"
  shows "rstack sv' = r"
proof
  fix x
  show "rstack sv' x = r x"
    using pop_vars_rstack [OF assms(1,2), of x] assms(3-5)
    by (simp add: pushed_def distinct_count_list fun_eq_iff)
qed

lemma param_names_Nil [simp]: "param_names [] = []"
  by (simp add: param_names_def)

lemma param_names_Cons [simp]: "param_names ((Vname x, td) # ps) = x # param_names ps"
  by (simp add: param_names_def)

lemma env_load_keys:
  "env_load x t w s = Inr s' \<Longrightarrow> set (frame_keys s') = insert x (set (frame_keys s)) \<and>
     (distinct (frame_keys s) \<longrightarrow> distinct (frame_keys s')) \<and> scope_vars s' = scope_vars s \<and>
     scope_depth s' = scope_depth s \<and> envs s' \<noteq> []"
  unfolding env_load_def frame_keys_def by (cases "envs s") (clarsimp simp: keys_update distinct_update)+

lemma add_var_keys [simp]: "frame_keys (snd (add_var x s)) = frame_keys s"
  by (simp add: frame_keys_def)

lemma gen_params_rstack:
  "gen_params ps acc s = Inr (args, s') \<Longrightarrow>
     rstack (scope_vars s') = pushed (rstack (scope_vars s)) (param_names ps) (scope_depth s) \<and>
     set (frame_keys s') = set (frame_keys s) \<union> set (param_names ps) \<and>
     (distinct (frame_keys s) \<longrightarrow> distinct (frame_keys s'))"
proof (induction ps acc s rule: gen_params.induct)
  case (2 x td ps acc s)
  from 2(2) obtain s1 where s1: "env_load x (EnvTypeDenoter td) True s = Inr s1"
    and r0: "(case add_var x s1 of (v, s) \<Rightarrow> gen_params ps (acc @ [v]) s) = Inr (args, s')"
    by (auto simp: bind_res_eq_Inr)
  from r0 have r: "gen_params ps (acc @ [fst (add_var x s1)]) (snd (add_var x s1)) = Inr (args, s')"
    by (simp add: case_prod_beta)
  from env_load_keys [OF s1] have d: "scope_depth s1 = scope_depth s" "scope_vars s1 = scope_vars s"
    and k: "set (frame_keys s1) = insert x (set (frame_keys s))"
      "distinct (frame_keys s) \<longrightarrow> distinct (frame_keys s1)" by simp_all
  from 2(1) [OF s1 prod.collapse r] k show ?case
    unfolding add_var_rstack add_var_fields add_var_keys d by (simp add: pushed_Cons)
qed simp

lemma code_extends_fields:
  "\<exists>new. s' = s\<lparr>code := code s @ new\<rparr> \<Longrightarrow> scope_vars s' = scope_vars s \<and> envs s' = envs s \<and>
     scope_depth s' = scope_depth s \<and> cg_labels s' = cg_labels s \<and>
     declared_functions s' = declared_functions s \<and> code_stacks s' = code_stacks s"
  by auto

lemmas gen_expr_fields = gen_expression_frame [THEN code_extends_fields]

lemma emit_fields [simp]:
  "scope_vars (emit i s) = scope_vars s" "envs (emit i s) = envs s" "scope_depth (emit i s) = scope_depth s"
  "cg_labels (emit i s) = cg_labels s" "declared_functions (emit i s) = declared_functions s"
  "code_stacks (emit i s) = code_stacks s" "frame_keys (emit i s) = frame_keys s"
  by (simp_all add: emit_def frame_keys_def)

lemma declare_var:
  assumes "env_load x t w s = Inr s1"
  shows "rstack (scope_vars (snd (add_var x s1))) = pushed (rstack (scope_vars s)) [x] (scope_depth s) \<and>
    set (frame_keys (snd (add_var x s1))) = set (frame_keys s) \<union> set [x] \<and>
    (distinct (frame_keys s) \<longrightarrow> distinct (frame_keys (snd (add_var x s1))))"
  using env_load_keys [OF assms] by (intro conjI ext) (auto simp: pushed_def)

lemma gen_command_rstack:
  shows "gen_command c s = Inr s' \<Longrightarrow> scopes_distinct_cmd c \<Longrightarrow>
      rstack (scope_vars s') = rstack (scope_vars s)"
    and "gen_declaration d s = Inr s' \<Longrightarrow> scopes_distinct_decl d \<Longrightarrow>
      rstack (scope_vars s') = pushed (rstack (scope_vars s)) (decl_names d) (scope_depth s) \<and>
      set (frame_keys s') = set (frame_keys s) \<union> set (decl_names d) \<and>
      (distinct (frame_keys s) \<longrightarrow> distinct (frame_keys s'))"
    and "gen_function f ps rt c s = Inr s' \<Longrightarrow> scopes_distinct_decl (FunctionDeclaration f ps rt c) \<Longrightarrow>
      rstack (scope_vars s') = rstack (scope_vars s)"
proof (induction c s and d s and f ps rt c s arbitrary: s' and s' and s'
    rule: gen_command_gen_declaration_gen_function.induct)
  case (1 c1 c2 s)
  from 1(3) obtain s1 where a: "gen_command c1 s = Inr s1" and b: "gen_command c2 s1 = Inr s'"
    by (auto simp: bind_res_eq_Inr)
  from 1(1) [OF a] 1(2) [OF a b] 1(4) show ?case by simp
next
  case (2 x e s)
  then obtain s1 v where "gen_expression e s = Inr s1" "s' = emit (STORE_FAST v) s1"
    by (auto simp: bind_res_eq_Inr split: option.splits)
  then show ?case by (simp add: gen_expr_fields(1))
next
  case (3 f es s)
  then show ?case by (simp add: gen_expr_fields(3))
next
  case (4 e c1 c2 s)
  define s0 where "s0 = s\<lparr>cg_labels := Suc (Suc (cg_labels s))\<rparr>"
  from 4(3) obtain s1 s2 s3 where a: "gen_expression e s0 = Inr s1"
    and b: "gen_command c1 (emit (POP_JUMP_IF_FALSE (cg_labels s)) s1) = Inr s2"
    and c: "gen_command c2 (emit (LABEL (cg_labels s)) (emit (JUMP_FORWARD (Suc (cg_labels s))) s2)) = Inr s3"
    and d: "s' = emit (LABEL (Suc (cg_labels s))) s3"
    by (auto simp: bind_res_eq_Inr Let_def s0_def)
  from 4(1) [OF refl refl s0_def a b] 4(2) [OF refl refl s0_def a b c] 4(4) gen_expr_fields(1) [OF a] d
  show ?case by (simp add: s0_def)
next
  case (5 e c s)
  define s0 where "s0 = s\<lparr>cg_labels := Suc (Suc (cg_labels s))\<rparr>"
  from 5(2) obtain s1 s2 where a: "gen_expression e (emit (LABEL (cg_labels s)) s0) = Inr s1"
    and b: "gen_command c (emit (POP_JUMP_IF_FALSE (Suc (cg_labels s))) s1) = Inr s2"
    and d: "s' = emit (LABEL (Suc (cg_labels s))) (emit (JUMP_ABSOLUTE (cg_labels s)) s2)"
    by (auto simp: bind_res_eq_Inr Let_def s0_def)
  from 5(1) [OF refl refl s0_def a b] 5(3) gen_expr_fields(1) [OF a] d show ?case by (simp add: s0_def)
next
  case (6 d c s)
  from 6(3) obtain s1 s2 where a: "gen_declaration d (raise_scope s) = Inr s1"
    and b: "gen_command c s1 = Inr s2" and l: "lower_scope s2 = Inr s'"
    by (auto simp: bind_res_eq_Inr)
  from 6(4) have dn: "distinct (decl_names d)" "scopes_distinct_decl d" "scopes_distinct_cmd c" by simp_all
  from 6(1) [OF a dn(2)] have r1: "rstack (scope_vars s1) =
      pushed (rstack (scope_vars s)) (decl_names d) (Suc (scope_depth s))"
    and k1: "set (frame_keys s1) = set (decl_names d)" "distinct (frame_keys s1)"
    by (simp_all add: raise_scope_def frame_keys_def)
  from gen_command_balanced(1) [OF b] have "envs s2 = envs s1" by (simp add: scope_balanced_def)
  with lower_scope_Inr [OF l] have p: "pop_vars (frame_keys s1) (scope_vars s2) = Inr (scope_vars s')"
    by (auto simp: frame_keys_def)
  from pop_after_push [OF p k1(2) k1(1) dn(1)] 6(2) [OF a b dn(3)] r1 show ?case by simp
next
  case (7 e s)
  then obtain s1 where "gen_expression e s = Inr s1" "s' = emit RETURN_VALUE s1"
    by (auto simp: bind_res_eq_Inr)
  then show ?case by (simp add: gen_expr_fields(1))
next
  case (8 x e s)
  then obtain s1 s2 v where a: "gen_expression e s = Inr s1"
    and b: "env_load x (EnvType ''Integer'') False s1 = Inr s2"
    and c: "s' = emit (STORE_FAST v) (snd (add_var x s2))"
    by (auto simp: bind_res_eq_Inr Let_def split: option.splits)
  from gen_expr_fields(1) [OF a] have "scope_vars s1 = scope_vars s" "scope_depth s1 = scope_depth s"
    "frame_keys s1 = frame_keys s" by (simp_all add: frame_keys_def)
  with declare_var [OF b] c show ?case by simp
next
  case (9 x td s)
  then obtain s2 v where b: "env_load x (EnvTypeDenoter td) True s = Inr s2"
    and c: "s' = emit (STORE_FAST v) (emit (LOAD_CONST CNone) (snd (add_var x s2)))"
    by (auto simp: bind_res_eq_Inr Let_def split: option.splits)
  from declare_var [OF b] c show ?case by simp
next
  case (10 d1 d2 s)
  from 10(3) obtain s1 where a: "gen_declaration d1 s = Inr s1" and b: "gen_declaration d2 s1 = Inr s'"
    by (auto simp: bind_res_eq_Inr)
  from gen_command_balanced(2) [OF a] have "scope_depth s1 = scope_depth s" by (simp add: scope_extended_def)
  with 10(1) [OF a] 10(2) [OF a b] 10(4) show ?case by (auto simp: pushed_append)
next
  case (11 f ps rt c s)
  from 11(2) have g: "gen_function f ps rt c s = Inr s'" by (simp del: gen_function.simps)
  from gen_command_balanced(3) [OF g] 11(1) [OF g 11(3)] show ?case
    by (simp add: scope_balanced_def frame_keys_def)
next
  case (12 f ps rt c s)
  define s1 where "s1 = (raise_code_stack s)\<lparr>declared_functions := (declared_functions (raise_code_stack s))(f \<mapsto> (ps, rt))\<rparr>"
  from 12(2) obtain args s2 s3 s4 where a: "gen_params ps [] s1 = Inr (args, s2)"
    and b: "gen_command c s2 = Inr s3" and l: "lower_code_stack s3 = Inr s4"
    and d: "s' = emit (STORE_NAME f) (emit (MAKE_FUNCTION 0) (emit (LOAD_CONST (CCode f args (code s3))) s4))"
    by (auto simp: bind_res_eq_Inr Let_def s1_def split: prod.splits)
  from 12(3) have dn: "distinct (param_names ps)" "scopes_distinct_cmd c" by simp_all
  from gen_params_rstack [OF a] have r1: "rstack (scope_vars s2) =
      pushed (rstack (scope_vars s)) (param_names ps) (Suc (scope_depth s))"
    and k1: "set (frame_keys s2) = set (param_names ps)" "distinct (frame_keys s2)"
    by (simp_all add: s1_def raise_code_stack_def raise_scope_def frame_keys_def)
  from gen_command_balanced(1) [OF b] have "envs s3 = envs s2" by (simp add: scope_balanced_def)
  with lower_scope_Inr [OF l [unfolded lower_code_stack_def]] have
    p: "pop_vars (frame_keys s2) (scope_vars s3) = Inr (scope_vars s4)"
    by (auto simp: frame_keys_def split: list.splits)
  from pop_after_push [OF p k1(2) k1(1) dn(1)] 12(1) [OF refl s1_def a refl b dn(2)] r1 d
  show ?case by simp
qed

text \<open>
  A \<open>let\<close> block whose declaration may name a variable twice: the table
  keeps one slot of the block for every declaration of the name but the first.
\<close>

lemma butlast_replicate_Suc: "butlast (xs @ replicate (Suc n) a) = xs @ replicate n a"
  by (metis append_assoc butlast_snoc replicate_append_same replicate_Suc)

lemma let_rstack:
  assumes "gen_command (LetCommand d c) s = Inr s'" "scopes_distinct_decl d" "scopes_distinct_cmd c"
  shows "rstack (scope_vars s') x =
    rstack (scope_vars s) x @ replicate (count_list (decl_names d) x - 1) (slot_name x (Suc (scope_depth s)))"
proof -
  obtain s1 s2 where a: "gen_declaration d (raise_scope s) = Inr s1" and b: "gen_command c s1 = Inr s2"
    and l: "lower_scope s2 = Inr s'"
    using assms(1) by (auto simp: bind_res_eq_Inr)
  from gen_command_rstack(2) [OF a assms(2)] have r1: "rstack (scope_vars s1) =
      pushed (rstack (scope_vars s)) (decl_names d) (Suc (scope_depth s))"
    and k1: "set (frame_keys s1) = set (decl_names d)" "distinct (frame_keys s1)"
    by (simp_all add: raise_scope_def frame_keys_def)
  from gen_command_balanced(1) [OF b] have "envs s2 = envs s1" by (simp add: scope_balanced_def)
  with lower_scope_Inr [OF l] have p: "pop_vars (frame_keys s1) (scope_vars s2) = Inr (scope_vars s')"
    by (auto simp: frame_keys_def)
  from pop_vars_rstack [OF p k1(2), of x] gen_command_rstack(1) [OF b assms(3)] r1 k1(1)
  show ?thesis
    by (cases "count_list (decl_names d) x") (auto simp: pushed_def count_list_0_iff butlast_replicate_Suc simp del: replicate_Suc)
qed

section \<open>Stack effect of expressions\<close>

lemma net_effect_simps [simp]:
  "net_effect [] = 0" "net_effect (xs @ ys) = net_effect xs + net_effect ys"
  "net_effect (i # xs) = stack_effect i + net_effect xs"
  by (simp_all add: net_effect_def)

lemma binary_op_effect: "binary_op oper = Some i \<Longrightarrow> stack_effect i = -1"
  by (auto simp: binary_op_def split: if_splits)

lemma unary_op_effect: "unary_op oper = Some i \<Longrightarrow> stack_effect i = 0"
  by (auto simp: unary_op_def split: if_splits)

lemma gen_expression_effect:
  shows "gen_expression e s = Inr s' \<Longrightarrow> putint_free e \<Longrightarrow>
      \<exists>new. code s' = code s @ new \<and> net_effect new = 1"
    and "gen_exprs es s = Inr s' \<Longrightarrow> putint_free_list es \<Longrightarrow>
      \<exists>new. code s' = code s @ new \<and> net_effect new = int (length es)"
    and "gen_call f es s = Inr s' \<Longrightarrow> f \<noteq> ''putint'' \<Longrightarrow> putint_free_list es \<Longrightarrow>
      \<exists>new. code s' = code s @ new \<and> net_effect new = 1"
    and "gen_call_command f es s = Inr s' \<Longrightarrow> putint_free_list es \<Longrightarrow>
      \<exists>new. code s' = code s @ new \<and> net_effect new = 1"
proof (induction e s and es s and f es s and f es s arbitrary: s' and s' and s' and s'
    rule: gen_expression_gen_exprs_gen_call_gen_call_command.induct)
  case (1 e1 oper e2 s)
  from 1(3) obtain s1 s2 i where a: "gen_expression e1 s = Inr s1" and b: "gen_expression e2 s1 = Inr s2"
    and i: "binary_op oper = Some i" and c: "s' = emit i s2"
    by (auto simp: bind_res_eq_Inr split: option.splits)
  from 1(1) [OF a] 1(2) [OF a b] 1(4) binary_op_effect [OF i] c show ?case
    by (auto simp: emit_def)
next
  case (3 x s)
  then show ?case by (auto simp: emit_def lookup_var_def bind_res_eq_Inr split: option.splits if_splits)
next
  case (4 oper e s)
  from 4(2) obtain s1 i where a: "gen_expression e s = Inr s1"
    and i: "unary_op oper = Some i" and c: "s' = emit i s1"
    by (auto simp: bind_res_eq_Inr split: option.splits)
  from 4(1) [OF a] 4(3) unary_op_effect [OF i] c show ?case by (auto simp: emit_def)
next
  case (7 e es s)
  from 7(3) obtain s1 where a: "gen_expression e s = Inr s1" and b: "gen_exprs es s1 = Inr s'"
    by (auto simp: bind_res_eq_Inr)
  from 7(1) [OF a] 7(2) [OF a b] 7(4) show ?case by auto
next
  case (8 f es s)
  show ?case
  proof (cases "f = ''getint''")
    case True
    with 8(3) show ?thesis by (auto simp: emit_def split: if_splits)
  next
    case False
    with 8(1) [OF False] 8(2-5) show ?thesis by simp
  qed
next
  case (9 f es s)
  from 9(2) obtain ps rt s1 where d: "declared_functions s f = Some (ps, rt)" "length ps = length es"
    and a: "gen_exprs es (emit (LOAD_GLOBAL f) s) = Inr s1" and c: "s' = emit (CALL_FUNCTION (length ps)) s1"
    by (auto simp: bind_res_eq_Inr split: option.splits if_splits)
  from 9(1) [OF d(1) refl _ a] d(2) 9(3) c show ?case by (auto simp: emit_def)
qed (auto simp: emit_def)

section \<open>Every jump target is placed exactly once\<close>

lemma placed_targets_simps [simp]:
  "placed [] = []" "placed (xs @ ys) = placed xs @ placed ys" "placed (i # xs) = label_of i @ placed xs"
  "targets [] = []" "targets (xs @ ys) = targets xs @ targets ys" "targets (i # xs) = target_of i @ targets xs"
  by (simp_all add: placed_def targets_def)

lemma flow_ok_straight: "placed xs = [] \<Longrightarrow> targets xs = [] \<Longrightarrow> flow_ok lo hi xs"
  by (simp add: flow_ok_def)

lemma flow_ok_append:
  "lo \<le> mid \<Longrightarrow> mid \<le> hi \<Longrightarrow> flow_ok lo mid xs \<Longrightarrow> flow_ok mid hi ys \<Longrightarrow> flow_ok lo hi (xs @ ys)"
  unfolding flow_ok_def by (auto 0 3 dest: subsetD)

lemma flow_ok_if:
  "Suc (Suc l) \<le> m1 \<Longrightarrow> m1 \<le> m2 \<Longrightarrow> placed ce = [] \<Longrightarrow> targets ce = [] \<Longrightarrow>
   flow_ok (Suc (Suc l)) m1 n1 \<Longrightarrow> flow_ok m1 m2 n2 \<Longrightarrow>
   flow_ok l m2 (ce @ [POP_JUMP_IF_FALSE l] @ n1 @ [JUMP_FORWARD (Suc l), LABEL l] @ n2 @ [LABEL (Suc l)])"
  unfolding flow_ok_def by (auto 0 3 dest: subsetD)

lemma flow_ok_while:
  "Suc (Suc l) \<le> m \<Longrightarrow> placed ce = [] \<Longrightarrow> targets ce = [] \<Longrightarrow> flow_ok (Suc (Suc l)) m n1 \<Longrightarrow>
   flow_ok l m ([LABEL l] @ ce @ [POP_JUMP_IF_FALSE (Suc l)] @ n1 @ [JUMP_ABSOLUTE l, LABEL (Suc l)])"
  unfolding flow_ok_def by (auto 0 3 dest: subsetD)

lemma binary_op_straight: "binary_op oper = Some i \<Longrightarrow> label_of i = [] \<and> target_of i = []"
  by (auto simp: binary_op_def split: if_splits)

lemma unary_op_straight: "unary_op oper = Some i \<Longrightarrow> label_of i = [] \<and> target_of i = []"
  by (auto simp: unary_op_def split: if_splits)

lemma gen_expression_straight:
  shows "gen_expression e s = Inr s' \<Longrightarrow> \<exists>new. code s' = code s @ new \<and> placed new = [] \<and> targets new = []"
    and "gen_exprs es s = Inr s' \<Longrightarrow> \<exists>new. code s' = code s @ new \<and> placed new = [] \<and> targets new = []"
    and "gen_call f es s = Inr s' \<Longrightarrow> \<exists>new. code s' = code s @ new \<and> placed new = [] \<and> targets new = []"
    and "gen_call_command f es s = Inr s' \<Longrightarrow> \<exists>new. code s' = code s @ new \<and> placed new = [] \<and> targets new = []"
proof (induction e s and es s and f es s and f es s arbitrary: s' and s' and s' and s'
    rule: gen_expression_gen_exprs_gen_call_gen_call_command.induct)
  case (1 e1 oper e2 s)
  from 1(3) obtain s1 s2 i where a: "gen_expression e1 s = Inr s1" and b: "gen_expression e2 s1 = Inr s2"
    and i: "binary_op oper = Some i" and c: "s' = emit i s2"
    by (auto simp: bind_res_eq_Inr split: option.splits)
  from 1(1) [OF a] 1(2) [OF a b] binary_op_straight [OF i] c show ?case by (auto simp: emit_def)
next
  case (3 x s)
  then show ?case by (auto simp: emit_def lookup_var_def bind_res_eq_Inr split: option.splits if_splits)
next
  case (4 oper e s)
  from 4(2) obtain s1 i where a: "gen_expression e s = Inr s1"
    and i: "unary_op oper = Some i" and c: "s' = emit i s1"
    by (auto simp: bind_res_eq_Inr split: option.splits)
  from 4(1) [OF a] unary_op_straight [OF i] c show ?case by (auto simp: emit_def)
next
  case (7 e es s)
  from 7(3) obtain s1 where a: "gen_expression e s = Inr s1" and b: "gen_exprs es s1 = Inr s'"
    by (auto simp: bind_res_eq_Inr)
  from 7(1) [OF a] 7(2) [OF a b] show ?case by auto
next
  case (8 f es s)
  show ?case
  proof (cases "f = ''getint'' \<or> f \<noteq> ''putint''")
    case True
    with 8(2,3) show ?thesis by (auto simp: emit_def split: if_splits)
  next
    case False
    with 8(3) obtain e s1 where es: "es = [e]" and a: "gen_expression e s = Inr s1"
      and c: "s' = emit PRINT_NEWLINE (emit PRINT_ITEM s1)"
      by (auto simp: bind_res_eq_Inr split: list.splits)
    from False 8(1) [of e "[]" s1] es a c show ?thesis by (auto simp: emit_def)
  qed
next
  case (9 f es s)
  from 9(2) obtain ps rt s1 where d: "declared_functions s f = Some (ps, rt)" "length ps = length es"
    and a: "gen_exprs es (emit (LOAD_GLOBAL f) s) = Inr s1" and c: "s' = emit (CALL_FUNCTION (length ps)) s1"
    by (auto simp: bind_res_eq_Inr split: option.splits if_splits)
  from 9(1) [OF d(1) refl _ a] d(2) c show ?case by (auto simp: emit_def)
qed (auto simp: emit_def)

lemma gen_command_flow:
  shows "gen_command c s = Inr s' \<Longrightarrow> cg_labels s \<le> cg_labels s' \<and>
      (\<exists>new. code s' = code s @ new \<and> flow_ok (cg_labels s) (cg_labels s') new)"
    and "gen_declaration d s = Inr s' \<Longrightarrow> cg_labels s \<le> cg_labels s' \<and>
      (\<exists>new. code s' = code s @ new \<and> flow_ok (cg_labels s) (cg_labels s') new)"
    and "gen_function f ps rt c s = Inr s' \<Longrightarrow> cg_labels s \<le> cg_labels s' \<and>
      (\<exists>new. code s' = code s @ new \<and> flow_ok (cg_labels s) (cg_labels s') new)"
proof (induction c s and d s and f ps rt c s arbitrary: s' and s' and s'
    rule: gen_command_gen_declaration_gen_function.induct)
  case (1 c1 c2 s)
  from 1(3) obtain s1 where a: "gen_command c1 s = Inr s1" and b: "gen_command c2 s1 = Inr s'"
    by (auto simp: bind_res_eq_Inr)
  from 1(1) [OF a] 1(2) [OF a b] show ?case by (auto intro: flow_ok_append)
next
  case (2 x e s)
  then obtain s1 v where a: "gen_expression e s = Inr s1" and c: "s' = emit (STORE_FAST v) s1"
    by (auto simp: bind_res_eq_Inr split: option.splits)
  from gen_expression_straight(1) [OF a] gen_expr_fields(1) [OF a] c show ?case
    by (auto simp: emit_def intro!: flow_ok_straight)
next
  case (3 f es s)
  then have g: "gen_call f es s = Inr s'" by simp
  from gen_expression_straight(3) [OF g] gen_expr_fields(3) [OF g] show ?case
    by (auto intro: flow_ok_straight)
next
  case (4 e c1 c2 s)
  define s0 where "s0 = s\<lparr>cg_labels := Suc (Suc (cg_labels s))\<rparr>"
  from 4(3) obtain s1 s2 s3 where a: "gen_expression e s0 = Inr s1"
    and b: "gen_command c1 (emit (POP_JUMP_IF_FALSE (cg_labels s)) s1) = Inr s2"
    and c: "gen_command c2 (emit (LABEL (cg_labels s)) (emit (JUMP_FORWARD (Suc (cg_labels s))) s2)) = Inr s3"
    and d: "s' = emit (LABEL (Suc (cg_labels s))) s3"
    by (auto simp: bind_res_eq_Inr Let_def s0_def)
  from gen_expression_straight(1) [OF a] obtain ce where ce: "code s1 = code s @ ce" "placed ce = []" "targets ce = []"
    by (auto simp: s0_def)
  from gen_expr_fields(1) [OF a] have l1: "cg_labels s1 = Suc (Suc (cg_labels s))" by (simp add: s0_def)
  from 4(1) [OF refl refl s0_def a b] l1 obtain n1 where n1: "code s2 = code s1 @ [POP_JUMP_IF_FALSE (cg_labels s)] @ n1"
    "flow_ok (Suc (Suc (cg_labels s))) (cg_labels s2) n1" "Suc (Suc (cg_labels s)) \<le> cg_labels s2"
    by (auto simp: emit_def)
  from 4(2) [OF refl refl s0_def a b c] obtain n2 where n2: "code s3 = code s2 @ [JUMP_FORWARD (Suc (cg_labels s)), LABEL (cg_labels s)] @ n2"
    "flow_ok (cg_labels s2) (cg_labels s3) n2" "cg_labels s2 \<le> cg_labels s3"
    by (auto simp: emit_def)
  from flow_ok_if [OF n1(3) n2(3) ce(2,3) n1(2) n2(2)] ce(1) n1(1) n2(1) n1(3) n2(3) d show ?case
    by (auto simp: emit_def)
next
  case (5 e c s)
  define s0 where "s0 = s\<lparr>cg_labels := Suc (Suc (cg_labels s))\<rparr>"
  from 5(2) obtain s1 s2 where a: "gen_expression e (emit (LABEL (cg_labels s)) s0) = Inr s1"
    and b: "gen_command c (emit (POP_JUMP_IF_FALSE (Suc (cg_labels s))) s1) = Inr s2"
    and d: "s' = emit (LABEL (Suc (cg_labels s))) (emit (JUMP_ABSOLUTE (cg_labels s)) s2)"
    by (auto simp: bind_res_eq_Inr Let_def s0_def)
  from gen_expression_straight(1) [OF a] obtain ce where
    ce: "code s1 = code s @ [LABEL (cg_labels s)] @ ce" "placed ce = []" "targets ce = []"
    by (auto simp: s0_def emit_def)
  from gen_expr_fields(1) [OF a] have l1: "cg_labels s1 = Suc (Suc (cg_labels s))" by (simp add: s0_def)
  from 5(1) [OF refl refl s0_def a b] l1 obtain n1 where n1: "code s2 = code s1 @ [POP_JUMP_IF_FALSE (Suc (cg_labels s))] @ n1"
    "flow_ok (Suc (Suc (cg_labels s))) (cg_labels s2) n1" "Suc (Suc (cg_labels s)) \<le> cg_labels s2"
    by (auto simp: emit_def)
  from flow_ok_while [OF n1(3) ce(2,3) n1(2)] ce(1) n1(1) n1(3) d show ?case
    by (auto simp: emit_def)
next
  case (6 d c s)
  from 6(3) obtain s1 s2 where a: "gen_declaration d (raise_scope s) = Inr s1"
    and b: "gen_command c s1 = Inr s2" and l: "lower_scope s2 = Inr s'"
    by (auto simp: bind_res_eq_Inr)
  from 6(1) [OF a] 6(2) [OF a b] lower_scope_Inr [OF l] show ?case
    by (auto simp: raise_scope_def intro: flow_ok_append)
next
  case (7 e s)
  then obtain s1 where a: "gen_expression e s = Inr s1" and c: "s' = emit RETURN_VALUE s1"
    by (auto simp: bind_res_eq_Inr)
  from gen_expression_straight(1) [OF a] gen_expr_fields(1) [OF a] c show ?case
    by (auto simp: emit_def intro!: flow_ok_straight)
next
  case (8 x e s)
  then obtain s1 s2 v where a: "gen_expression e s = Inr s1"
    and b: "env_load x (EnvType ''Integer'') False s1 = Inr s2"
    and c: "s' = emit (STORE_FAST v) (snd (add_var x s2))"
    by (auto simp: bind_res_eq_Inr Let_def split: option.splits)
  from gen_expression_straight(1) [OF a] gen_expr_fields(1) [OF a] env_load_Inr [OF b] c show ?case
    by (auto simp: emit_def intro!: flow_ok_straight)
next
  case (9 x td s)
  then obtain s2 v where b: "env_load x (EnvTypeDenoter td) True s = Inr s2"
    and c: "s' = emit (STORE_FAST v) (emit (LOAD_CONST CNone) (snd (add_var x s2)))"
    by (auto simp: bind_res_eq_Inr Let_def split: option.splits)
  from env_load_Inr [OF b] c show ?case
    by (auto simp: emit_def intro!: flow_ok_straight)
next
  case (10 d1 d2 s)
  from 10(3) obtain s1 where a: "gen_declaration d1 s = Inr s1" and b: "gen_declaration d2 s1 = Inr s'"
    by (auto simp: bind_res_eq_Inr)
  from 10(1) [OF a] 10(2) [OF a b] show ?case by (auto intro: flow_ok_append)
next
  case (11 f ps rt c s)
  from 11(2) have g: "gen_function f ps rt c s = Inr s'" by (simp del: gen_function.simps)
  from 11(1) [OF g] show ?case .
next
  case (12 f ps rt c s)
  define s1 where "s1 = (raise_code_stack s)\<lparr>declared_functions := (declared_functions (raise_code_stack s))(f \<mapsto> (ps, rt))\<rparr>"
  from 12(2) obtain args s2 s3 s4 where a: "gen_params ps [] s1 = Inr (args, s2)"
    and b: "gen_command c s2 = Inr s3" and l: "lower_code_stack s3 = Inr s4"
    and d: "s' = emit (STORE_NAME f) (emit (MAKE_FUNCTION 0) (emit (LOAD_CONST (CCode f args (code s3))) s4))"
    by (auto simp: bind_res_eq_Inr Let_def s1_def split: prod.splits)
  from gen_params_frame [OF a] gen_command_balanced(1) [OF b]
  have cs: "code_stacks s3 = code s # code_stacks s" and l2: "cg_labels s2 = cg_labels s"
    by (simp_all add: s1_def raise_code_stack_def raise_scope_def scope_balanced_def)
  from lower_scope_Inr [OF l [unfolded lower_code_stack_def]] cs
  have "code s4 = code s" "cg_labels s4 = cg_labels s3" by auto
  with 12(1) [OF refl s1_def a refl b] l2 d show ?case
    by (auto simp: emit_def intro!: flow_ok_straight)
qed

section \<open>The function table only grows\<close>

lemma gen_command_funs:
  shows "gen_command c s = Inr s' \<Longrightarrow> dom (declared_functions s) \<subseteq> dom (declared_functions s')"
    and "gen_declaration d s = Inr s' \<Longrightarrow>
      dom (declared_functions s) \<union> set (decl_funs d) \<subseteq> dom (declared_functions s')"
    and "gen_function f ps rt c s = Inr s' \<Longrightarrow> insert f (dom (declared_functions s)) \<subseteq> dom (declared_functions s')"
proof (induction c s and d s and f ps rt c s arbitrary: s' and s' and s'
    rule: gen_command_gen_declaration_gen_function.induct)
  case (12 f ps rt c s)
  define s1 where "s1 = (raise_code_stack s)\<lparr>declared_functions := (declared_functions (raise_code_stack s))(f \<mapsto> (ps, rt))\<rparr>"
  from 12(2) obtain args s2 s3 s4 where a: "gen_params ps [] s1 = Inr (args, s2)"
    and b: "gen_command c s2 = Inr s3" and l: "lower_code_stack s3 = Inr s4"
    and d: "s' = emit (STORE_NAME f) (emit (MAKE_FUNCTION 0) (emit (LOAD_CONST (CCode f args (code s3))) s4))"
    by (auto simp: bind_res_eq_Inr Let_def s1_def split: prod.splits)
  from lower_scope_Inr [OF l [unfolded lower_code_stack_def]] have f4: "declared_functions s4 = declared_functions s3"
    by (auto split: list.splits)
  have e: "declared_functions s2 = (declared_functions s)(f \<mapsto> (ps, rt))"
    using gen_params_frame [OF a] by (simp add: s1_def raise_code_stack_def raise_scope_def)
  have "dom (declared_functions s2) \<subseteq> dom (declared_functions s3)"
    by (rule 12(1) [OF refl s1_def a refl b])
  then have "insert f (dom (declared_functions s)) \<subseteq> dom (declared_functions s3)"
    by (simp only: e dom_fun_upd option.simps if_False)
  then show ?case by (simp only: d emit_fields f4)
next
  case (1 c1 c2 s)
  from 1(3) obtain s1 where a: "gen_command c1 s = Inr s1" and b: "gen_command c2 s1 = Inr s'"
    by (auto simp: bind_res_eq_Inr)
  from 1(1) [OF a] 1(2) [OF a b] show ?case by (rule order_trans)
next
  case (2 x e s)
  then obtain s1 v where "gen_expression e s = Inr s1" "s' = emit (STORE_FAST v) s1"
    by (auto simp: bind_res_eq_Inr split: option.splits)
  then show ?case by (simp add: gen_expr_fields(1))
next
  case (3 f es s)
  then show ?case by (simp add: gen_expr_fields(3))
next
  case (4 e c1 c2 s)
  define s0 where "s0 = s\<lparr>cg_labels := Suc (Suc (cg_labels s))\<rparr>"
  from 4(3) obtain s1 s2 s3 where a: "gen_expression e s0 = Inr s1"
    and b: "gen_command c1 (emit (POP_JUMP_IF_FALSE (cg_labels s)) s1) = Inr s2"
    and c: "gen_command c2 (emit (LABEL (cg_labels s)) (emit (JUMP_FORWARD (Suc (cg_labels s))) s2)) = Inr s3"
    and d: "s' = emit (LABEL (Suc (cg_labels s))) s3"
    by (auto simp: bind_res_eq_Inr Let_def s0_def)
  from 4(1) [OF refl refl s0_def a b] 4(2) [OF refl refl s0_def a b c] gen_expr_fields(1) [OF a] d
  show ?case by (simp add: s0_def)
next
  case (5 e c s)
  define s0 where "s0 = s\<lparr>cg_labels := Suc (Suc (cg_labels s))\<rparr>"
  from 5(2) obtain s1 s2 where a: "gen_expression e (emit (LABEL (cg_labels s)) s0) = Inr s1"
    and b: "gen_command c (emit (POP_JUMP_IF_FALSE (Suc (cg_labels s))) s1) = Inr s2"
    and d: "s' = emit (LABEL (Suc (cg_labels s))) (emit (JUMP_ABSOLUTE (cg_labels s)) s2)"
    by (auto simp: bind_res_eq_Inr Let_def s0_def)
  from 5(1) [OF refl refl s0_def a b] gen_expr_fields(1) [OF a] d show ?case by (simp add: s0_def)
next
  case (6 d c s)
  from 6(3) obtain s1 s2 where a: "gen_declaration d (raise_scope s) = Inr s1"
    and b: "gen_command c s1 = Inr s2" and l: "lower_scope s2 = Inr s'"
    by (auto simp: bind_res_eq_Inr)
  from 6(1) [OF a] have "dom (declared_functions s) \<subseteq> dom (declared_functions s1)"
    by (simp add: raise_scope_def)
  also from 6(2) [OF a b] have "\<dots> \<subseteq> dom (declared_functions s2)" .
  also from lower_scope_Inr [OF l] have "\<dots> = dom (declared_functions s')" by auto
  finally show ?case .
next
  case (7 e s)
  then obtain s1 where "gen_expression e s = Inr s1" "s' = emit RETURN_VALUE s1"
    by (auto simp: bind_res_eq_Inr)
  then show ?case by (simp add: gen_expr_fields(1))
next
  case (8 x e s)
  then obtain s1 s2 v where a: "gen_expression e s = Inr s1"
    and b: "env_load x (EnvType ''Integer'') False s1 = Inr s2"
    and c: "s' = emit (STORE_FAST v) (snd (add_var x s2))"
    by (auto simp: bind_res_eq_Inr Let_def split: option.splits)
  from gen_expr_fields(1) [OF a] env_load_Inr [OF b] c show ?case by auto
next
  case (9 x td s)
  then obtain s2 v where b: "env_load x (EnvTypeDenoter td) True s = Inr s2"
    and c: "s' = emit (STORE_FAST v) (emit (LOAD_CONST CNone) (snd (add_var x s2)))"
    by (auto simp: bind_res_eq_Inr Let_def split: option.splits)
  from env_load_Inr [OF b] c show ?case by auto
next
  case (10 d1 d2 s)
  from 10(3) obtain s1 where a: "gen_declaration d1 s = Inr s1" and b: "gen_declaration d2 s1 = Inr s'"
    by (auto simp: bind_res_eq_Inr)
  from 10(1) [OF a] 10(2) [OF a b] show ?case by (simp only: decl_funs.simps set_append) blast
next
  case (11 f ps rt c s)
  then show ?case by simp
qed

section \<open>Resolution of nested declarations\<close>

lemma lookup_var_rstack:
  "rstack (scope_vars s) x \<noteq> [] \<Longrightarrow> lookup_var x s = Inr (Some (last (rstack (scope_vars s) x)))"
  by (auto simp: lookup_var_def rstack_def split: option.splits)

lemma slot_name_depth_inj: "slot_name x k = slot_name x m \<Longrightarrow> k = m"
  by (auto simp: slot_name_def split: if_splits dest: py_str_nat_inj)

lemma strip_digits_slot_name:
  assumes "\<not> ends_with_digit x"
  shows "rev (dropWhile py_digit_char (rev (slot_name x d))) = x"
proof -
  have x: "dropWhile py_digit_char (rev x) = rev x"
    using assms by (cases "rev x") (auto simp: ends_with_digit_def last_rev [symmetric])
  have "dropWhile py_digit_char (rev (py_str_nat d) @ rev x) = dropWhile py_digit_char (rev x)"
    using py_str_nat_digits [of d] by (intro dropWhile_append2) (simp add: list_all_iff)
  with x show ?thesis by (simp add: slot_name_def)
qed

section \<open>Properties of the code generator\<close>

text \<open>
  C4: Generating a command leaves the nesting depth, the environment stack and the stack
  of enclosing code buffers as it found them: every scope and code buffer it opens is
  closed again.
\<close>

theorem gen_command_closes_scopes:
  assumes "gen_command c s = Inr s'"
  shows "scope_depth s' = scope_depth s \<and> envs s' = envs s \<and> code_stacks s' = code_stacks s"
  using gen_command_balanced(1) [OF assms] by (simp add: scope_balanced_def)

theorem gen_command_closes_scopes_witness:
  "scope_depth (projr (gen_command (LetCommand (FunctionDeclaration ''f'' [(Vname ''n'', TypeDenoter ''Integer'')]
       ''Integer'' (ReturnCommand (VnameExpression (Vname ''n''))))
       (CallCommand ''putint'' [CallExpression ''f'' [IntegerExpression 5]])) cg_init)) = scope_depth cg_init \<and>
   envs (projr (gen_command (LetCommand (FunctionDeclaration ''f'' [(Vname ''n'', TypeDenoter ''Integer'')]
       ''Integer'' (ReturnCommand (VnameExpression (Vname ''n''))))
       (CallCommand ''putint'' [CallExpression ''f'' [IntegerExpression 5]])) cg_init)) = envs cg_init \<and>
   code_stacks (projr (gen_command (LetCommand (FunctionDeclaration ''f'' [(Vname ''n'', TypeDenoter ''Integer'')]
       ''Integer'' (ReturnCommand (VnameExpression (Vname ''n''))))
       (CallCommand ''putint'' [CallExpression ''f'' [IntegerExpression 5]])) cg_init)) = code_stacks cg_init"
proof -
  have "case gen_command (LetCommand (FunctionDeclaration ''f'' [(Vname ''n'', TypeDenoter ''Integer'')]
       ''Integer'' (ReturnCommand (VnameExpression (Vname ''n''))))
       (CallCommand ''putint'' [CallExpression ''f'' [IntegerExpression 5]])) cg_init of Inl e \<Rightarrow> False | Inr a \<Rightarrow> True" by code_simp
  then show ?thesis by (rule gen_command_closes_scopes [OF Inr_projr])
qed

text \<open>
  C3: If a command is generated successfully and no scope in it declares a name twice,
  every name's rename stack is afterwards what it was before: closing a let block or a
  function body pops exactly the slots it declared and restores the shadowed bindings.
\<close>

theorem let_restores_rename_table:
  assumes "gen_command c s = Inr s'" and "scopes_distinct_cmd c"
  shows "rstack (scope_vars s') = rstack (scope_vars s)"
  using gen_command_rstack(1) [OF assms] .

theorem let_restores_rename_table_witness:
  "rstack (scope_vars (projr (gen_command (LetCommand (VarDeclaration ''x'' (TypeDenoter ''Integer''))
      (LetCommand (VarDeclaration ''x'' (TypeDenoter ''Integer'')) (AssignCommand (Vname ''x'') (IntegerExpression 1)))) cg_init))) = rstack (scope_vars cg_init)"
proof -
  have "case gen_command (LetCommand (VarDeclaration ''x'' (TypeDenoter ''Integer''))
      (LetCommand (VarDeclaration ''x'' (TypeDenoter ''Integer'')) (AssignCommand (Vname ''x'') (IntegerExpression 1)))) cg_init of Inl e \<Rightarrow> False | Inr a \<Rightarrow> True" by code_simp
  moreover have "scopes_distinct_cmd (LetCommand (VarDeclaration ''x'' (TypeDenoter ''Integer''))
      (LetCommand (VarDeclaration ''x'' (TypeDenoter ''Integer'')) (AssignCommand (Vname ''x'') (IntegerExpression 1))))" by simp
  ultimately show ?thesis by (rule let_restores_rename_table [OF Inr_projr])
qed

text \<open>
  C10: A name declared in a nested let block resolves, inside the block, to the slot
  renamed with the new depth, and that slot differs from every slot of the name declared
  at an outer depth.
\<close>

theorem nested_declaration_shadows:
  assumes "gen_declaration d (raise_scope s) = Inr s1" and "scopes_distinct_decl d" and "x \<in> set (decl_names d)"
    and "list_all (\<lambda>v. list_ex (\<lambda>k. v = slot_name x k) [0..<Suc (scope_depth s)]) (rstack (scope_vars s) x)"
  shows "lookup_var x s1 = Inr (Some (slot_name x (Suc (scope_depth s)))) \<and>
    slot_name x (Suc (scope_depth s)) \<notin> set (rstack (scope_vars s) x)"
proof
  from gen_command_rstack(2) [OF assms(1,2)] have
    "rstack (scope_vars s1) x = rstack (scope_vars s) x @
       replicate (count_list (decl_names d) x) (slot_name x (Suc (scope_depth s)))"
    by (simp add: pushed_def raise_scope_def)
  moreover from assms(3) have "count_list (decl_names d) x \<noteq> 0" by (simp add: count_list_0_iff)
  ultimately show "lookup_var x s1 = Inr (Some (slot_name x (Suc (scope_depth s))))"
    by (simp add: lookup_var_rstack)
next
  from assms(4) show "slot_name x (Suc (scope_depth s)) \<notin> set (rstack (scope_vars s) x)"
    by (auto simp: list_all_iff list_ex_iff dest!: bspec slot_name_depth_inj)
qed


theorem nested_declaration_shadows_witness:
  "lookup_var ''x'' (projr (gen_declaration (VarDeclaration ''x'' (TypeDenoter ''Integer'')) (raise_scope (snd (add_var ''x'' (raise_scope cg_init)))))) =
     Inr (Some (slot_name ''x'' (Suc (scope_depth (snd (add_var ''x'' (raise_scope cg_init))))))) \<and>
   slot_name ''x'' (Suc (scope_depth (snd (add_var ''x'' (raise_scope cg_init))))) \<notin> set (rstack (scope_vars (snd (add_var ''x'' (raise_scope cg_init)))) ''x'')"
proof -
  have "case gen_declaration (VarDeclaration ''x'' (TypeDenoter ''Integer'')) (raise_scope (snd (add_var ''x'' (raise_scope cg_init)))) of Inl e \<Rightarrow> False | Inr a \<Rightarrow> True"
    by code_simp
  moreover have "scopes_distinct_decl (VarDeclaration ''x'' (TypeDenoter ''Integer''))" by simp
  moreover have "''x'' \<in> set (decl_names (VarDeclaration ''x'' (TypeDenoter ''Integer'')))" by simp
  moreover have "list_all (\<lambda>v. list_ex (\<lambda>k. v = slot_name ''x'' k) [0..<Suc (scope_depth (snd (add_var ''x'' (raise_scope cg_init))))])
      (rstack (scope_vars (snd (add_var ''x'' (raise_scope cg_init)))) ''x'')" by code_simp
  ultimately show ?thesis by (rule nested_declaration_shadows [OF Inr_projr])
qed

text \<open>
  C20: Renaming by depth is injective for names that do not end in a digit: equal slots
  come from the same name at the same depth.
\<close>

theorem slot_name_injective:
  assumes "slot_name x d = slot_name y e" and "\<not> ends_with_digit x" and "\<not> ends_with_digit y"
  shows "x = y \<and> d = e"
proof
  show "x = y" using strip_digits_slot_name [OF assms(2), of d] strip_digits_slot_name [OF assms(3), of e] assms(1)
    by simp
  with assms(1) show "d = e" by (auto dest: slot_name_depth_inj)
qed

theorem slot_name_injective_witness:
  "slot_name ''count'' 2 \<noteq> slot_name ''count'' 3 \<and> slot_name ''a'' 1 \<noteq> slot_name ''b'' 1"
proof -
  have "\<not> ends_with_digit ''count''" "\<not> ends_with_digit ''a''" "\<not> ends_with_digit ''b''"
    by (simp_all add: ends_with_digit_def py_digit_char_def)
  then show ?thesis by (auto dest: slot_name_injective)
qed

text \<open>
  Renaming by depth is not injective in general: x1 declared at depth 1 and x
  declared at depth 11 get the same slot.
\<close>

theorem slot_name_collision: "slot_name ''x1'' 1 = slot_name ''x'' 11"
  by code_simp

text \<open>
  C11: A call of getint with arguments, of putint with other than one argument, or of a
  declared function with the wrong number of arguments raises
  IllegalFunctionArgumentError naming the function and its parameter count.
\<close>

theorem call_arity_errors:
  "(es \<noteq> [] \<longrightarrow> gen_command (CallCommand ''getint'' es) s = Inl (IllegalFunctionArgumentError ''getint'' 0)) \<and>
   (length es \<noteq> 1 \<longrightarrow> gen_command (CallCommand ''putint'' es) s = Inl (IllegalFunctionArgumentError ''putint'' 1)) \<and>
   (f \<noteq> ''getint'' \<longrightarrow> f \<noteq> ''putint'' \<longrightarrow> declared_functions s f = Some (ps, rt) \<longrightarrow> length ps \<noteq> length es \<longrightarrow>
      gen_command (CallCommand f es) s = Inl (IllegalFunctionArgumentError f (length ps)))"
  by (auto split: list.splits)

theorem call_arity_errors_witness:
  "gen_command (CallCommand ''getint'' [IntegerExpression 1]) cg_init = Inl (IllegalFunctionArgumentError ''getint'' 0) \<and>
   gen_command (CallCommand ''putint'' [IntegerExpression 1, IntegerExpression 2]) cg_init =
     Inl (IllegalFunctionArgumentError ''putint'' 1) \<and>
   gen_command (CallCommand ''f'' []) (cg_init\<lparr>declared_functions := [''f'' \<mapsto> ([(Vname ''n'', TypeDenoter ''Integer'')], ''Integer'')]\<rparr>) =
     Inl (IllegalFunctionArgumentError ''f'' 1)"
  using call_arity_errors [of "[IntegerExpression 1]" cg_init] call_arity_errors [of "[IntegerExpression 1, IntegerExpression 2]" cg_init]
    call_arity_errors [of "[]" "cg_init\<lparr>declared_functions := [''f'' \<mapsto> ([(Vname ''n'', TypeDenoter ''Integer'')], ''Integer'')]\<rparr>" "''f''"
      "[(Vname ''n'', TypeDenoter ''Integer'')]" "''Integer''"]
  by simp

text \<open>
  C24: A call of an undeclared function raises InvalidExpressionError, not
  UnknownFunctionError.
\<close>

theorem unknown_function_is_invalid_expression:
  assumes "f \<noteq> ''getint''" and "f \<noteq> ''putint''" and "declared_functions s f = None"
  shows "gen_command (CallCommand f es) s = Inl (InvalidExpressionError (NodeCommand (CallCommand f es)))"
  using assms by simp

theorem unknown_function_is_invalid_expression_witness:
  "gen_command (CallCommand ''g'' [IntegerExpression 1]) cg_init =
     Inl (InvalidExpressionError (NodeCommand (CallCommand ''g'' [IntegerExpression 1])))"
  by (rule unknown_function_is_invalid_expression) (simp_all add: cg_init_def)


text \<open>
  C6: The code generated for an expression that does not call putint has a net stack
  effect of exactly one value.
\<close>

theorem expression_pushes_one:
  assumes "gen_expression e s = Inr s'" and "putint_free e"
  shows "\<exists>new. code s' = code s @ new \<and> net_effect new = 1"
  using gen_expression_effect(1) [OF assms] .

theorem expression_pushes_one_witness:
  "\<exists>new. code (projr (gen_expression (BinaryExpression (IntegerExpression 3) ''+'' (UnaryExpression ''-'' (IntegerExpression 4))) cg_init)) = code cg_init @ new \<and> net_effect new = 1"
proof -
  have "case gen_expression (BinaryExpression (IntegerExpression 3) ''+'' (UnaryExpression ''-'' (IntegerExpression 4))) cg_init of Inl e \<Rightarrow> False | Inr a \<Rightarrow> True" by code_simp
  moreover have "putint_free (BinaryExpression (IntegerExpression 3) ''+'' (UnaryExpression ''-'' (IntegerExpression 4)))" by simp
  ultimately show ?thesis by (rule expression_pushes_one [OF Inr_projr])
qed

text \<open>
  C5: The code a command appends places every label at most once, and every jump in it
  targets a label placed in that same code.
\<close>

theorem jump_targets_placed_once:
  assumes "gen_command c s = Inr s'"
  shows "\<exists>new. code s' = code s @ new \<and> distinct (placed new) \<and> set (targets new) \<subseteq> set (placed new)"
  using gen_command_flow(1) [OF assms] by (auto simp: flow_ok_def)

theorem jump_targets_placed_once_witness:
  "\<exists>new. code (projr (gen_command (LetCommand (VarDeclaration ''x'' (TypeDenoter ''Integer''))
      (WhileCommand (BinaryExpression (VnameExpression (Vname ''x'')) ''<'' (IntegerExpression 3))
        (IfCommand (BinaryExpression (VnameExpression (Vname ''x'')) ''='' (IntegerExpression 1))
          (CallCommand ''putint'' [IntegerExpression 1]) (AssignCommand (Vname ''x'') (IntegerExpression 2))))) cg_init)) = code cg_init @ new \<and>
     distinct (placed new) \<and> set (targets new) \<subseteq> set (placed new)"
proof -
  have "case gen_command (LetCommand (VarDeclaration ''x'' (TypeDenoter ''Integer''))
      (WhileCommand (BinaryExpression (VnameExpression (Vname ''x'')) ''<'' (IntegerExpression 3))
        (IfCommand (BinaryExpression (VnameExpression (Vname ''x'')) ''='' (IntegerExpression 1))
          (CallCommand ''putint'' [IntegerExpression 1]) (AssignCommand (Vname ''x'') (IntegerExpression 2))))) cg_init of Inl e \<Rightarrow> False | Inr a \<Rightarrow> True" by code_simp
  then show ?thesis by (rule jump_targets_placed_once [OF Inr_projr])
qed



text \<open>
  C22: When a let block declares the same variable more than once, closing the
  block pops only one of its slots (\<open>lower_scope\<close> pops once per key of the
  environment): every further declaration leaves a slot of the block bound, so
  after the block the name still resolves to that slot.
\<close>

theorem duplicate_declaration_escapes_scope:
  assumes "gen_command (LetCommand d c) s = Inr s'" and "scopes_distinct_decl d" and "scopes_distinct_cmd c"
  shows "rstack (scope_vars s') x =
      rstack (scope_vars s) x @ replicate (count_list (decl_names d) x - 1) (slot_name x (Suc (scope_depth s))) \<and>
    (2 \<le> count_list (decl_names d) x \<longrightarrow> lookup_var x s' = Inr (Some (slot_name x (Suc (scope_depth s)))))"
proof (intro conjI impI)
  show r: "rstack (scope_vars s') x =
      rstack (scope_vars s) x @ replicate (count_list (decl_names d) x - 1) (slot_name x (Suc (scope_depth s)))"
    by (rule let_rstack [OF assms])
  assume "2 \<le> count_list (decl_names d) x"
  then have "count_list (decl_names d) x - 1 \<noteq> 0" by simp
  with r show "lookup_var x s' = Inr (Some (slot_name x (Suc (scope_depth s))))"
    by (simp add: lookup_var_rstack)
qed

theorem duplicate_declaration_escapes_scope_witness:
  "rstack (scope_vars (projr (gen_command (LetCommand (SequentialDeclaration (VarDeclaration ''x'' (TypeDenoter ''Integer''))
      (VarDeclaration ''x'' (TypeDenoter ''Integer''))) (CallCommand ''putint'' [IntegerExpression 1])) cg_init))) ''x'' =
     [slot_name ''x'' 1] \<and>
   lookup_var ''x'' (projr (gen_command (LetCommand (SequentialDeclaration (VarDeclaration ''x'' (TypeDenoter ''Integer''))
      (VarDeclaration ''x'' (TypeDenoter ''Integer''))) (CallCommand ''putint'' [IntegerExpression 1])) cg_init)) =
     Inr (Some (slot_name ''x'' 1))"
proof -
  have "case gen_command (LetCommand (SequentialDeclaration (VarDeclaration ''x'' (TypeDenoter ''Integer''))
      (VarDeclaration ''x'' (TypeDenoter ''Integer''))) (CallCommand ''putint'' [IntegerExpression 1])) cg_init of
      Inl e \<Rightarrow> False | Inr a \<Rightarrow> True"
    by code_simp
  from duplicate_declaration_escapes_scope [OF Inr_projr [OF this], of "''x''"]
  show ?thesis by (simp add: rstack_def cg_init_def)
qed

text \<open>
  C25: A constant can be assigned: after \<open>const x ~ e0\<close> the environment
  records \<open>x\<close> as not writable, yet an assignment to \<open>x\<close> compiles to a store
  into the constant's slot, since \<open>gen_command\<close> never reads that flag.
\<close>

theorem constant_assignment_compiles:
  assumes "gen_declaration (ConstDeclaration x e0) s = Inr s1" and "gen_expression e s1 = Inr s2"
  shows "map_of (hd (envs s1)) x = Some (EnvType ''Integer'', False) \<and>
    gen_command (AssignCommand (Vname x) e) s1 = Inr (emit (STORE_FAST (slot_name x (scope_depth s))) s2)"
proof -
  from assms(1) obtain t1 t2 v where a: "gen_expression e0 s = Inr t1"
    and b: "env_load x (EnvType ''Integer'') False t1 = Inr t2"
    and c: "s1 = emit (STORE_FAST v) (snd (add_var x t2))"
    by (auto simp: bind_res_eq_Inr Let_def split: option.splits)
  from env_load_Inr [OF b] obtain en es where e: "envs t1 = en # es"
    and t2: "t2 = t1\<lparr>envs := AList.update x (EnvType ''Integer'', False) en # es\<rparr>" by blast
  have d: "scope_depth t2 = scope_depth s" using gen_expr_fields(1) [OF a] t2 by simp
  have r: "rstack (scope_vars s2) x = rstack (scope_vars t2) x @ [slot_name x (scope_depth s)]"
    using gen_expr_fields(1) [OF assms(2)] c d by simp
  show ?thesis
  proof
    show "map_of (hd (envs s1)) x = Some (EnvType ''Integer'', False)"
      using c t2 by (simp add: update_conv')
    from r have "lookup_var x s2 = Inr (Some (slot_name x (scope_depth s)))"
      by (simp add: lookup_var_rstack)
    with assms(2) show "gen_command (AssignCommand (Vname x) e) s1 = Inr (emit (STORE_FAST (slot_name x (scope_depth s))) s2)"
      by simp
  qed
qed

theorem constant_assignment_compiles_witness:
  "map_of (hd (envs (projr (gen_declaration (ConstDeclaration ''c'' (IntegerExpression 1)) (raise_scope cg_init))))) ''c'' =
     Some (EnvType ''Integer'', False) \<and>
   gen_command (AssignCommand (Vname ''c'') (IntegerExpression 2))
       (projr (gen_declaration (ConstDeclaration ''c'' (IntegerExpression 1)) (raise_scope cg_init))) =
     Inr (emit (STORE_FAST (slot_name ''c'' 1)) (emit (LOAD_CONST (CInt 2))
       (projr (gen_declaration (ConstDeclaration ''c'' (IntegerExpression 1)) (raise_scope cg_init)))))"
proof -
  have "case gen_declaration (ConstDeclaration ''c'' (IntegerExpression 1)) (raise_scope cg_init) of
      Inl e \<Rightarrow> False | Inr a \<Rightarrow> True"
    by code_simp
  from constant_assignment_compiles [OF Inr_projr [OF this], of "IntegerExpression 2"]
  show ?thesis by (simp add: raise_scope_def cg_init_def)
qed

text \<open>
  C26: The function table is not scoped: a function declared in a let block is
  still in the table after the block has closed (so a later call finds it), and
  nothing already in the table is removed.
\<close>

theorem function_table_unscoped:
  assumes "gen_command (LetCommand d c) s = Inr s'" and "f \<in> set (decl_funs d)"
  shows "f \<in> dom (declared_functions s') \<and> dom (declared_functions s) \<subseteq> dom (declared_functions s')"
proof -
  from assms(1) obtain s1 s2 where a: "gen_declaration d (raise_scope s) = Inr s1"
    and b: "gen_command c s1 = Inr s2" and l: "lower_scope s2 = Inr s'"
    by (auto simp: bind_res_eq_Inr)
  have e: "declared_functions (raise_scope s) = declared_functions s" by (simp add: raise_scope_def)
  from lower_scope_Inr [OF l] have e2: "declared_functions s' = declared_functions s2" by auto
  have h1: "dom (declared_functions s) \<union> set (decl_funs d) \<subseteq> dom (declared_functions s1)"
    using gen_command_funs(2) [OF a] unfolding e .
  have h2: "dom (declared_functions s1) \<subseteq> dom (declared_functions s')"
    using gen_command_funs(1) [OF b] unfolding e2 .
  from h1 h2 assms(2) show ?thesis by blast
qed

theorem function_table_unscoped_witness:
  "''g'' \<in> dom (declared_functions (projr (gen_command (LetCommand (FunctionDeclaration ''g''
      [(Vname ''n'', TypeDenoter ''Integer'')] ''Integer'' (ReturnCommand (VnameExpression (Vname ''n''))))
      (CallCommand ''putint'' [IntegerExpression 1])) cg_init)))"
proof -
  have "case gen_command (LetCommand (FunctionDeclaration ''g''
      [(Vname ''n'', TypeDenoter ''Integer'')] ''Integer'' (ReturnCommand (VnameExpression (Vname ''n''))))
      (CallCommand ''putint'' [IntegerExpression 1])) cg_init of Inl e \<Rightarrow> False | Inr a \<Rightarrow> True"
    by code_simp
  from function_table_unscoped [OF Inr_projr [OF this], of "''g''"] show ?thesis by simp
qed

text \<open>
  C23: In an assignment \<open>x := putint(e)\<close> the value of \<open>e\<close> is consumed by
  \<open>PRINT_ITEM\<close>, so the \<open>STORE_FAST\<close> that follows pops a value the
  assignment's code never pushed: the code's net stack effect is -1.
\<close>

theorem putint_value_stored:
  assumes "gen_command (AssignCommand (Vname x) (CallExpression ''putint'' [e])) s = Inr s'" and "putint_free e"
  shows "\<exists>new v. code s' = code s @ new @ [PRINT_ITEM, PRINT_NEWLINE, STORE_FAST v] \<and> net_effect new = 1 \<and>
    net_effect (new @ [PRINT_ITEM, PRINT_NEWLINE, STORE_FAST v]) = -1"
proof -
  from assms(1) obtain s0 v where a: "gen_expression e s = Inr s0"
    and c: "s' = emit (STORE_FAST v) (emit PRINT_NEWLINE (emit PRINT_ITEM s0))"
    by (auto simp: bind_res_eq_Inr split: option.splits)
  from gen_expression_effect(1) [OF a assms(2)] obtain new where "code s0 = code s @ new" "net_effect new = 1"
    by blast
  with c show ?thesis by (auto simp: emit_def)
qed

theorem putint_value_stored_witness:
  "\<exists>new v. code (projr (gen_command (AssignCommand (Vname ''x'') (CallExpression ''putint'' [IntegerExpression 1]))
        (projr (gen_declaration (VarDeclaration ''x'' (TypeDenoter ''Integer'')) (raise_scope cg_init))))) =
      code (projr (gen_declaration (VarDeclaration ''x'' (TypeDenoter ''Integer'')) (raise_scope cg_init))) @ new @
        [PRINT_ITEM, PRINT_NEWLINE, STORE_FAST v] \<and> net_effect new = 1 \<and>
      net_effect (new @ [PRINT_ITEM, PRINT_NEWLINE, STORE_FAST v]) = -1"
proof -
  have "case gen_command (AssignCommand (Vname ''x'') (CallExpression ''putint'' [IntegerExpression 1]))
      (projr (gen_declaration (VarDeclaration ''x'' (TypeDenoter ''Integer'')) (raise_scope cg_init))) of
      Inl e \<Rightarrow> False | Inr a \<Rightarrow> True"
    by code_simp
  moreover have "putint_free (IntegerExpression 1)" by simp
  ultimately show ?thesis by (rule putint_value_stored [OF Inr_projr])
qed

end
