(* ===== verification/Pyc.thy ===== *)
theory Pyc
  imports Prelude "HOL-Library.Word"
begin

text \<open>
  The artifact writer \<open>gen_pyc\<close> of \<open>src/codegen.py\<close> (lines 371-378): the
  file \<open>name.pyc\<close> holds the interpreter's magic number and the time as two
  big-endian 32-bit fields written by \<open>struct.pack('>L', ...)\<close>, followed by
  the marshalled code object. The magic is read from the four bytes of
  \<open>imp.get_magic()\<close> as \<open>int(magic.encode('hex'), 16)\<close>. Bytes are \<open>8 word\<close>s,
  so \<open>word_of_int\<close> keeps the low eight bits of a value, as the packing does.
  \<open>struct.pack\<close> raises \<open>struct.error\<close> for a value outside \<open>[0, 2^32)\<close>; Python 2
  accepts the float \<open>time.time()\<close> there and truncates it, so the time is
  given here as whole seconds. The bytes \<open>marshal.dump\<close> writes are a
  parameter: marshal is a library the code only calls. The file is opened
  before anything is packed, and the \<open>with\<close> block closes it, flushing what
  was written, when an exception escapes: the result is the file name, the
  bytes the file holds afterwards, and the exception raised, if any.
\<close>

section \<open>Big-endian 32-bit fields\<close>

datatype struct_error = StructError

text \<open>\<open>struct.pack('>L', v)\<close>: four bytes, most significant first.\<close>

definition pack_L :: "int \<Rightarrow> struct_error + 8 word list" where
  "pack_L v = (if v < 0 \<or> 2 ^ 32 \<le> v then Inl StructError
     else Inr (map word_of_int [v div 256 div 256 div 256, v div 256 div 256, v div 256, v]))"

text \<open>\<open>int(bs.encode('hex'), 16)\<close>: the bytes read as a big-endian number.\<close>

definition be_to_int :: "8 word list \<Rightarrow> int" where
  "be_to_int bs = foldl (\<lambda>n b. n * 256 + uint b) 0 bs"

section \<open>The writer\<close>

definition gen_pyc :: "8 word list \<Rightarrow> nat \<Rightarrow> 8 word list \<Rightarrow> string \<Rightarrow>
    string \<times> 8 word list \<times> struct_error option" where
  "gen_pyc magic now marshalled name =
     (let pyc_file = name @ ''.pyc'' in
      case pack_L (be_to_int magic) of
        Inl e \<Rightarrow> (pyc_file, [], Some e)
      | Inr m \<Rightarrow>
          (case pack_L (int now) of
             Inl e \<Rightarrow> (pyc_file, m, Some e)
           | Inr t \<Rightarrow> (pyc_file, m @ t @ marshalled, None)))"

section \<open>Packing and reading back\<close>

lemma be_to_int_4:
  "be_to_int [a, b, c, d] = ((uint a * 256 + uint b) * 256 + uint c) * 256 + uint d"
  by (simp add: be_to_int_def)

lemma uint_byte_bounds: "0 \<le> uint (b :: 8 word)" "uint (b :: 8 word) < 256"
  using uint_lt2p [of b] by simp_all

lemma uint_byte_of_int: "uint (word_of_int x :: 8 word) = x mod 256"
  by (simp add: uint_word_of_int_eq take_bit_eq_mod)

lemma pack_L_Inr:
  "0 \<le> v \<Longrightarrow> v < 2 ^ 32 \<Longrightarrow>
   pack_L v = Inr [word_of_int (v div 256 div 256 div 256), word_of_int (v div 256 div 256),
     word_of_int (v div 256), word_of_int v]"
  by (simp add: pack_L_def)

lemma div_256_mod: "x div 256 * 256 + x mod 256 = (x :: int)"
  by (rule div_mult_mod_eq)

lemma unpack_pack_L:
  assumes "0 \<le> v" "v < 2 ^ 32"
  shows "be_to_int (projr (pack_L v)) = v"
proof -
  define q1 where "q1 = v div 256"
  define q2 where "q2 = q1 div 256"
  define q3 where "q3 = q2 div 256"
  have "q3 < 256" using assms(2) unfolding q1_def q2_def q3_def by (simp add: zdiv_zmult2_eq [symmetric])
  moreover have "0 \<le> q3" using assms(1) unfolding q1_def q2_def q3_def by simp
  ultimately have m: "q3 mod 256 = q3" by simp
  then have "((q3 mod 256 * 256 + q2 mod 256) * 256 + q1 mod 256) * 256 + v mod 256 = v"
    unfolding q3_def q2_def q1_def by (simp only: div_256_mod)
  then show ?thesis using assms m
    by (simp add: pack_L_Inr be_to_int_4 uint_byte_of_int q1_def q2_def q3_def)
qed

lemma byte_word_wraps: "(256 :: 8 word) = 0" "(65536 :: 8 word) = 0" "(16777216 :: 8 word) = 0"
  by simp_all

lemma pack_L_unpack:
  assumes "length bs = 4"
  shows "pack_L (be_to_int bs) = Inr bs"
proof -
  obtain a b c d where bs: "bs = [a, b, c, d]"
    using assms by (auto simp: length_Suc_conv numeral_eq_Suc)
  define A B C D where "A = uint a" "B = uint b" "C = uint c" "D = uint d"
  have r: "0 \<le> A" "A < 256" "0 \<le> B" "B < 256" "0 \<le> C" "C < 256" "0 \<le> D" "D < 256"
    unfolding A_B_C_D_def by (simp_all add: uint_byte_bounds)
  let ?v = "((A * 256 + B) * 256 + C) * 256 + D"
  have v: "0 \<le> ?v" "?v < 2 ^ 32" using r by simp_all
  have "?v div 256 = (A * 256 + B) * 256 + C" using r by simp
  moreover have "?v div 256 div 256 = A * 256 + B" using r by simp
  moreover have "?v div 256 div 256 div 256 = A" using r by simp
  ultimately show ?thesis using v r
    by (simp add: bs be_to_int_4 pack_L_Inr A_B_C_D_def byte_word_wraps)
qed


lemma pack_L_length: "pack_L v = Inr bs \<Longrightarrow> length bs = 4"
  by (auto simp: pack_L_def split: if_splits)

text \<open>What \<open>gen_pyc\<close> leaves behind for a four-byte magic number.\<close>

lemma gen_pyc_4:
  assumes "length magic = 4"
  shows "gen_pyc magic now body name =
    (name @ ''.pyc'', if now < 2 ^ 32 then magic @ projr (pack_L (int now)) @ body else magic,
     if now < 2 ^ 32 then None else Some StructError)"
proof (cases "now < 2 ^ 32")
  case True
  then obtain t where "pack_L (int now) = Inr t" by (simp add: pack_L_def)
  with True show ?thesis by (simp add: gen_pyc_def pack_L_unpack [OF assms] Let_def)
next
  case False
  then have "pack_L (int now) = Inl StructError" by (simp add: pack_L_def)
  with False show ?thesis by (simp add: gen_pyc_def pack_L_unpack [OF assms] Let_def)
qed

section \<open>What gen_pyc writes\<close>

text \<open>
  C14: for the four bytes of a magic number, \<open>gen_pyc\<close> writes \<open>name.pyc\<close>
  starting with the magic bytes unchanged. It raises \<open>struct.error\<close> exactly
  when the time has reached \<open>2^32\<close> seconds (February 2106), and then the file
  holds the magic alone. Before that the next four bytes read back as the time
  and the marshalled code follows.
\<close>

theorem gen_pyc_header:
  assumes "length magic = 4"
  shows "fst (gen_pyc magic now body name) = name @ ''.pyc'' \<and>
    take 4 (fst (snd (gen_pyc magic now body name))) = magic \<and>
    (snd (snd (gen_pyc magic now body name)) = Some StructError \<longleftrightarrow> 2 ^ 32 \<le> now) \<and>
    (now < 2 ^ 32 \<longrightarrow> be_to_int (take 4 (drop 4 (fst (snd (gen_pyc magic now body name))))) = int now \<and>
       drop 8 (fst (snd (gen_pyc magic now body name))) = body) \<and>
    (2 ^ 32 \<le> now \<longrightarrow> fst (snd (gen_pyc magic now body name)) = magic)"
proof (cases "2 ^ 32 \<le> now")
  case True
  with gen_pyc_4 [OF assms] assms show ?thesis by simp
next
  case False
  then have v: "0 \<le> int now" "int now < 2 ^ 32" by simp_all
  then obtain t where t: "pack_L (int now) = Inr t" by (simp add: pack_L_def)
  have "be_to_int t = int now" using unpack_pack_L [OF v] t by simp
  with t False assms pack_L_length [OF t] gen_pyc_4 [OF assms] show ?thesis by simp
qed

theorem gen_pyc_header_witness:
  "fst (gen_pyc [3, 243, 13, 10] 1700000000 [99] ''prog'') = ''prog.pyc'' \<and>
   take 4 (fst (snd (gen_pyc [3, 243, 13, 10] 1700000000 [99] ''prog''))) = [3, 243, 13, 10] \<and>
   snd (snd (gen_pyc [3, 243, 13, 10] 1700000000 [99] ''prog'')) \<noteq> Some StructError \<and>
   be_to_int (take 4 (drop 4 (fst (snd (gen_pyc [3, 243, 13, 10] 1700000000 [99] ''prog''))))) = 1700000000 \<and>
   drop 8 (fst (snd (gen_pyc [3, 243, 13, 10] 1700000000 [99] ''prog''))) = [99] \<and>
   snd (snd (gen_pyc [3, 243, 13, 10] (2 ^ 32) [99] ''prog'')) = Some StructError \<and>
   fst (snd (gen_pyc [3, 243, 13, 10] (2 ^ 32) [99] ''prog'')) = [3, 243, 13, 10]"
  using gen_pyc_header [of "[3, 243, 13, 10]" 1700000000 "[99]" "''prog''"]
    gen_pyc_header [of "[3, 243, 13, 10]" "2 ^ 32" "[99]" "''prog''"]
  by simp

end
