(* ===== verification/Driver.thy ===== *)
theory Driver
  imports Parser CodeGen Pyc
begin

text \<open>
  The command-line driver of \<open>src/codegen.py\<close> (its \<open>__main__\<close> block) and
  the messages it prints: the \<open>TOKENS\<close> names of \<open>src/scanner.py\<close>,
  \<open>Token.__str__\<close>, \<open>ScannerError.__str__\<close>, \<open>ParserException.__str__\<close>
  and the \<open>__str__\<close> methods of the code generator's exceptions. The pipeline
  \<open>compile\<close> chains \<open>scan\<close>, \<open>parse\<close> and \<open>generate\<close>. The driver \<open>main\<close> is a
  function of the arguments and of the host (the files it can open, the magic
  number, the clock, byteplay's \<open>to_code\<close> and marshal); it calls \<open>gen_pyc\<close>
  of \<open>Pyc\<close> as the code does, and its result records the lines printed, the files written with
  their bytes, the exit status and the exception that escapes, if any. \<open>os.path.splitext\<close> is Python's (a library
  the driver calls) and is written out from the behaviour of \<open>posixpath\<close>.
\<close>

section \<open>Messages\<close>

text \<open>The \<open>TOKENS\<close> table (\<open>scanner.py\<close>, lines 37-60).\<close>

fun token_name :: "token_kind \<Rightarrow> string" where
  "token_name TK_IDENTIFIER = ''IDENTIFIER''"
| "token_name TK_INTLITERAL = ''INTLITERAL''"
| "token_name TK_OPERATOR = ''OPERATOR''"
| "token_name TK_BEGIN = ''BEGIN''"
| "token_name TK_CONST = ''CONST''"
| "token_name TK_DO = ''DO''"
| "token_name TK_ELSE = ''ELSE''"
| "token_name TK_END = ''END''"
| "token_name TK_IF = ''IF''"
| "token_name TK_IN = ''IN''"
| "token_name TK_LET = ''LET''"
| "token_name TK_THEN = ''THEN''"
| "token_name TK_VAR = ''VAR''"
| "token_name TK_WHILE = ''WHILE''"
| "token_name TK_SEMICOLON = ''SEMICOLON''"
| "token_name TK_COLON = ''COLON''"
| "token_name TK_BECOMES = ''BECOMES''"
| "token_name TK_IS = ''IS''"
| "token_name TK_LPAREN = ''LPAREN''"
| "token_name TK_RPAREN = ''RPAREN''"
| "token_name TK_EOT = ''EOT''"
| "token_name TK_FUNCDEF = ''FUNCDEF''"
| "token_name TK_RETURN = ''RETURN''"
| "token_name TK_COMMA = ''COMMA''"

text \<open>\<open>Token.__str__\<close> (\<open>scanner.py\<close>, lines 89-90): \<open>'(%s(%s) at %s)'\<close>.\<close>

definition token_str :: "token \<Rightarrow> string" where
  "token_str t =
     ''('' @ token_name (tok_type t) @ ''('' @
     (case tok_val t of VStr s \<Rightarrow> s | VInt n \<Rightarrow> py_str_nat n) @ '') at '' @ py_str_nat (tok_pos t) @ '')''"

text \<open>\<open>ScannerError.__str__\<close> (\<open>scanner.py\<close>, lines 105-106).\<close>

definition scanner_error_str :: "scan_error \<Rightarrow> string" where
  "scanner_error_str e = (case e of ScannerError pos c \<Rightarrow>
     ''ScannerError at pos = '' @ py_str_nat pos @ '', char = '' @ c)"

text \<open>
  \<open>ParserException.__str__\<close> (\<open>parser.py\<close>, lines 19-26): the expected kind is
  printed when the exception was raised with one.
\<close>

definition parser_exception_str :: "nat \<Rightarrow> token_kind \<Rightarrow> token_kind option \<Rightarrow> string" where
  "parser_exception_str pos k exp = (case exp of
      Some ek \<Rightarrow> ''ParserException: Found bad token '' @ token_name k @ '' at '' @ py_str_nat pos @
                 ''. Expected '' @ token_name ek
    | None \<Rightarrow> ''ParserException: Found bad token '' @ token_name k @ '' at '' @ py_str_nat pos @ ''. '')"

text \<open>
  The \<open>__str__\<close> methods of \<open>CodeGeneratorError\<close> and its subclasses
  (\<open>codegen.py\<close>, lines 23-81). Four of them format \<open>str()\<close> of the tree node
  they carry; the module \<open>ast\<close> that defines the node classes is not part of
  the repository, so that text is the parameter \<open>ast_str\<close>.
  \<open>UnknownFunctionError.__str__\<close> formats the global \<open>func_name\<close>, which the
  module does not define, so it raises \<open>NameError\<close>. Python's own
  \<open>IndexError\<close> and \<open>KeyError\<close> have messages that depend on the raising
  site, which the model does not keep: \<open>None\<close>.
\<close>

datatype py_name_error = NameError string

definition cg_error_str :: "(cg_node \<Rightarrow> string) \<Rightarrow> cg_error \<Rightarrow> (py_name_error + string) option" where
  "cg_error_str ast_str e = (case e of
      CodeGeneratorError n \<Rightarrow> Some (Inr (''Error at ast node: '' @ ast_str n))
    | TypeMismatchError n \<Rightarrow> Some (Inr (''Error at ast node; Type Mismatch: '' @ ast_str n))
    | InvalidExpressionError n \<Rightarrow> Some (Inr (''Error at ast node; Invalid Expression: '' @ ast_str n))
    | InvalidDeclarationError n \<Rightarrow> Some (Inr (''Error at ast node; Invalid Declaration: '' @ ast_str n))
    | UnknownFunctionError f \<Rightarrow> Some (Inl (NameError ''func_name''))
    | IllegalFunctionArgumentError f n \<Rightarrow>
        Some (Inr (''Error at ast node; Illegal Arguments.'' @ [CHR 0x0A] @ ''Function: '' @ f @
          '' takes exactly '' @ py_str_nat n @ '' arguments.''))
    | CgIndexError \<Rightarrow> None
    | CgKeyError \<Rightarrow> None)"

section \<open>The compiler pipeline\<close>

text \<open>
  \<open>__main__\<close> of \<open>codegen.py\<close> (lines 396-417): scan, parse, generate; the first
  exception aborts the compilation.
\<close>

datatype compile_error = ScanFailed scan_error | ParseFailed parse_error | GenFailed cg_error

definition compile :: "string \<Rightarrow> compile_error + py_const" where
  "compile text =
     (case scan text of
        Inl e \<Rightarrow> Inl (ScanFailed e)
      | Inr tokens \<Rightarrow>
          (case parse tokens of
             Inl e \<Rightarrow> Inl (ParseFailed e)
           | Inr tree \<Rightarrow>
               (case generate tree of
                  Inl e \<Rightarrow> Inl (GenFailed e)
                | Inr func \<Rightarrow> Inr func)))"

section \<open>The command line\<close>

text \<open>
  \<open>os.path.splitext\<close> on POSIX: split at the last dot after the last slash,
  unless the file name has only dots before it (a leading dot does not start
  an extension). \<open>rfind_char\<close> is \<open>str.rfind\<close> of one character.
\<close>

definition rfind_char :: "char \<Rightarrow> string \<Rightarrow> nat option" where
  "rfind_char c p =
     (let is = filter (\<lambda>i. p ! i = c) [0..<length p] in if is = [] then None else Some (last is))"

definition splitext :: "string \<Rightarrow> string \<times> string" where
  "splitext p = (case rfind_char CHR ''.'' p of
      None \<Rightarrow> (p, [])
    | Some d \<Rightarrow>
        (let start = (case rfind_char CHR ''/'' p of None \<Rightarrow> 0 | Some s \<Rightarrow> Suc s)
         in if start \<le> d \<and> \<not> list_all (\<lambda>c. c = CHR ''.'') (drop start (take d p))
            then (take d p, drop d p) else (p, [])))"

text \<open>
  The host a run of \<open>__main__\<close> depends on: the files \<open>open(path, 'r')\<close> can
  read, the bytes of \<open>imp.get_magic()\<close>, the value of \<open>time.time()\<close> (taken
  as a whole number of seconds, the value \<open>struct.pack\<close> packs), whether
  byteplay's \<open>Code.to_code()\<close> assembles the code object \<open>generate\<close> builds
  (it raises \<open>ValueError\<close> when its stack-depth analysis finds a pop of an
  empty stack or two depths at one label), and the bytes \<open>marshal.dump\<close>
  writes for the assembled code. byteplay and marshal are libraries the
  sources only call; they are parameters of the model.
\<close>

record host =
  host_files :: "string \<rightharpoonup> string"
  host_magic :: "8 word list"
  host_time :: nat
  host_to_code :: "py_const \<Rightarrow> bool"
  host_marshal :: "py_const \<Rightarrow> 8 word list"

text \<open>
  What a run of the driver shows: the lines it prints, the files it writes
  with their bytes, the exit status, and the exception that escapes
  \<open>__main__\<close> (Python then prints a traceback and exits with 1): an exception
  of the compiler, the \<open>ValueError\<close> of byteplay's assembly, or the
  \<open>struct.error\<close> of \<open>gen_pyc\<close>.
\<close>

datatype cli_exc = CompileRaised compile_error | AssemblyRaised | PycRaised struct_error

record cli_result =
  cli_stdout :: "string list"
  cli_written :: "(string \<times> 8 word list) list"
  cli_exit :: nat
  cli_uncaught :: "cli_exc option"

definition cli_exit0 :: "string list \<Rightarrow> cli_result" where
  "cli_exit0 out = \<lparr>cli_stdout = out, cli_written = [], cli_exit = 0, cli_uncaught = None\<rparr>"

definition cli_raise :: "compile_error \<Rightarrow> cli_result" where
  "cli_raise e = \<lparr>cli_stdout = [], cli_written = [], cli_exit = 1, cli_uncaught = Some (CompileRaised e)\<rparr>"

text \<open>
  \<open>code_obj.to_code()\<close> raising \<open>ValueError\<close> (lines 117-118): it raises
  inside \<open>generate()\<close>, before \<open>gen_pyc\<close> opens a file.
\<close>

definition cli_to_code_raise :: cli_result where
  "cli_to_code_raise = \<lparr>cli_stdout = [], cli_written = [], cli_exit = 1, cli_uncaught = Some AssemblyRaised\<rparr>"

text \<open>
  The call \<open>gen_pyc(func, name)\<close> (lines 419-420) as the driver sees it: the
  file is written with what \<open>gen_pyc\<close> wrote before it raised, if it raised.
\<close>

definition cli_pyc :: "string \<times> 8 word list \<times> struct_error option \<Rightarrow> cli_result" where
  "cli_pyc w = (case w of (file, bytes, err) \<Rightarrow>
     \<lparr>cli_stdout = [], cli_written = [(file, bytes)], cli_exit = (if err = None then 0 else 1),
      cli_uncaught = map_option PycRaised err\<rparr>)"

text \<open>
  \<open>__main__\<close> (\<open>codegen.py\<close>, lines 381-427), with \<open>sys.argv = prog # args\<close>.
  Only a \<open>ScannerError\<close> and a \<open>ParserException\<close> are caught; the other
  exceptions of the parser, every exception of the code generator, the
  \<open>ValueError\<close> of byteplay's \<open>to_code\<close> and the \<open>struct.error\<close> of
  \<open>gen_pyc\<close> escape. \<open>generate\<close> returns the byteplay \<open>Code\<close> object; the
  rest of \<open>CodeGen.generate\<close> (lines 118-119) is the host's \<open>to_code\<close>.
\<close>

definition main :: "string \<Rightarrow> string list \<Rightarrow> host \<Rightarrow> cli_result" where
  "main prog args h = (case args of
      [path] \<Rightarrow>
        (case host_files h path of
           None \<Rightarrow> cli_exit0 [''Could not find source file: '' @ path]
         | Some text \<Rightarrow>
             (let (name, exten) = splitext path
              in if exten = ''.mt'' then
                   (case scan text of
                      Inl e \<Rightarrow> cli_exit0 [scanner_error_str e]
                    | Inr tokens \<Rightarrow>
                        (case parse tokens of
                           Inl (ParserException pos k exp) \<Rightarrow>
                             cli_exit0 [''Could not compile source:'', parser_exception_str pos k exp]
                         | Inl e \<Rightarrow> cli_raise (ParseFailed e)
                         | Inr tree \<Rightarrow>
                             (case generate tree of
                                Inl e \<Rightarrow> cli_raise (GenFailed e)
                              | Inr func \<Rightarrow>
                                  if host_to_code h func
                                  then cli_pyc (gen_pyc (host_magic h) (host_time h) (host_marshal h func) name)
                                  else cli_to_code_raise)))
                 else cli_exit0 [''Error: Unrecoginized file type: Cannot compile '' @ [CHR 0x27] @ exten @ [CHR 0x27]]))
    | _ \<Rightarrow> cli_exit0 [''Usage: python '' @ prog @ '' /path/to/source''])"

text \<open>The errors that carry the name of an unknown function.\<close>

fun unknown_fn :: "cg_error \<Rightarrow> bool" where
  "unknown_fn (UnknownFunctionError f) = True"
| "unknown_fn e = False"

section \<open>The driver on one argument\<close>

text \<open>On one argument the driver is the pipeline \<open>compile\<close>, then \<open>to_code\<close> and \<open>gen_pyc\<close>, and the report of their outcome.\<close>

lemma main_single:
  "main prog [path] h = (case host_files h path of
      None \<Rightarrow> cli_exit0 [''Could not find source file: '' @ path]
    | Some text \<Rightarrow>
        if snd (splitext path) = ''.mt'' then
          (case compile text of
             Inl (ScanFailed e) \<Rightarrow> cli_exit0 [scanner_error_str e]
           | Inl (ParseFailed (ParserException pos k exp)) \<Rightarrow>
               cli_exit0 [''Could not compile source:'', parser_exception_str pos k exp]
           | Inl e \<Rightarrow> cli_raise e
           | Inr func \<Rightarrow>
               if host_to_code h func
               then cli_pyc (gen_pyc (host_magic h) (host_time h) (host_marshal h func) (fst (splitext path)))
               else cli_to_code_raise)
        else cli_exit0 [''Error: Unrecoginized file type: Cannot compile '' @ [CHR 0x27] @ snd (splitext path) @ [CHR 0x27]])"
  by (simp add: main_def compile_def split_beta split: option.split sum.split parse_error.split)

lemma main_not_single:
  "(\<nexists>path. args = [path]) \<Longrightarrow> main prog args h = cli_exit0 [''Usage: python '' @ prog @ '' /path/to/source'']"
  by (simp add: main_def split: list.split)

section \<open>What the driver does\<close>

text \<open>
  C31: given a four-byte magic number, the driver writes a file exactly when
  it is given one argument, a file it can open whose extension is \<open>.mt\<close>,
  whose text compiles, and whose code object byteplay assembles. It then
  writes one file, the path without its extension followed by \<open>.pyc\<close>,
  holding the magic number, the time packed big-endian and the marshalled
  code; after the year 2106 the time does not fit \<open>>L\<close>, the file is left
  holding the magic number alone, and \<open>struct.error\<close> escapes the driver.
  When byteplay rejects the code object, its \<open>ValueError\<close> escapes and no
  file is written.
\<close>

theorem main_writes_compiled:
  assumes "length (host_magic h) = 4"
  shows "cli_written (main prog args h) =
     (case args of
        [path] \<Rightarrow> (case host_files h path of
            Some text \<Rightarrow> (if snd (splitext path) = ''.mt'' then
                (case compile text of
                   Inr f \<Rightarrow> if host_to_code h f then [(fst (splitext path) @ ''.pyc'',
                     if host_time h < 2 ^ 32 then host_magic h @ projr (pack_L (int (host_time h))) @ host_marshal h f
                     else host_magic h)] else []
                 | Inl e \<Rightarrow> [])
              else [])
          | None \<Rightarrow> [])
      | _ \<Rightarrow> []) \<and>
    (cli_uncaught (main prog args h) = Some (PycRaised StructError) \<longleftrightarrow>
       (\<exists>path text f. args = [path] \<and> host_files h path = Some text \<and> snd (splitext path) = ''.mt'' \<and>
          compile text = Inr f \<and> host_to_code h f \<and> 2 ^ 32 \<le> host_time h)) \<and>
    (cli_uncaught (main prog args h) = Some AssemblyRaised \<longleftrightarrow>
       (\<exists>path text f. args = [path] \<and> host_files h path = Some text \<and> snd (splitext path) = ''.mt'' \<and>
          compile text = Inr f \<and> \<not> host_to_code h f))"
proof (cases "\<exists>path. args = [path]")
  case True
  then obtain path where "args = [path]" by blast
  then show ?thesis
    by (auto simp: main_single gen_pyc_4 [OF assms] cli_pyc_def cli_exit0_def cli_raise_def cli_to_code_raise_def
        split: option.split sum.split compile_error.split parse_error.split)
next
  case False
  then show ?thesis by (auto simp: main_not_single cli_exit0_def split: list.split)
qed

theorem main_writes_compiled_witness:
  "cli_written (main ''mtc'' [''p.mt'']
      \<lparr>host_files = [''p.mt'' \<mapsto> ''putint(1);''], host_magic = [3, 243, 13, 10],
       host_time = 1700000000, host_to_code = \<lambda>_. True, host_marshal = \<lambda>_. [7]\<rparr>) =
     [(''p.pyc'', [3, 243, 13, 10, 101, 83, 241, 0, 7])] \<and>
   cli_uncaught (main ''mtc'' [''p.mt'']
      \<lparr>host_files = [''p.mt'' \<mapsto> ''putint(1);''], host_magic = [3, 243, 13, 10],
       host_time = 2 ^ 32, host_to_code = \<lambda>_. True, host_marshal = \<lambda>_. [7]\<rparr>) = Some (PycRaised StructError) \<and>
   cli_written (main ''mtc'' [''p.mt'']
      \<lparr>host_files = [''p.mt'' \<mapsto> ''putint(1);''], host_magic = [3, 243, 13, 10],
       host_time = 1700000000, host_to_code = \<lambda>_. False, host_marshal = \<lambda>_. [7]\<rparr>) = [] \<and>
   cli_uncaught (main ''mtc'' [''p.mt'']
      \<lparr>host_files = [''p.mt'' \<mapsto> ''putint(1);''], host_magic = [3, 243, 13, 10],
       host_time = 1700000000, host_to_code = \<lambda>_. False, host_marshal = \<lambda>_. [7]\<rparr>) = Some AssemblyRaised"
proof -
  have "case compile ''putint(1);'' of Inl e \<Rightarrow> False | Inr a \<Rightarrow> True"
    by code_simp
  then obtain f where c: "compile ''putint(1);'' = Inr f"
    by (auto split: sum.splits)
  have x: "snd (splitext ''p.mt'') = ''.mt''" "fst (splitext ''p.mt'') = ''p''"
    by code_simp+
  have p: "pack_L 1700000000 = Inr [101, 83, 241, 0]"
    by (simp add: pack_L_def)
  show ?thesis
    using main_writes_compiled [of "\<lparr>host_files = [''p.mt'' \<mapsto> ''putint(1);''], host_magic = [3, 243, 13, 10],
        host_time = 1700000000, host_to_code = \<lambda>_. True, host_marshal = \<lambda>_. [7]\<rparr>" "''mtc''" "[''p.mt'']"]
      main_writes_compiled [of "\<lparr>host_files = [''p.mt'' \<mapsto> ''putint(1);''], host_magic = [3, 243, 13, 10],
        host_time = 2 ^ 32, host_to_code = \<lambda>_. True, host_marshal = \<lambda>_. [7]\<rparr>" "''mtc''" "[''p.mt'']"]
      main_writes_compiled [of "\<lparr>host_files = [''p.mt'' \<mapsto> ''putint(1);''], host_magic = [3, 243, 13, 10],
        host_time = 1700000000, host_to_code = \<lambda>_. False, host_marshal = \<lambda>_. [7]\<rparr>" "''mtc''" "[''p.mt'']"]
      c x p
    by simp
qed

text \<open>
  C32: when the text of a \<open>.mt\<close> file does not compile, nothing is written,
  and the exit status is 0 exactly when the failure is a scanner error or a
  \<open>ParserException\<close>: the driver reports those and calls \<open>sys.exit(0)\<close>, while
  every other exception escapes with status 1.
\<close>

theorem main_failure_exit_status:
  assumes "host_files h path = Some text" and "snd (splitext path) = ''.mt''" and "compile text = Inl e"
  shows "cli_written (main prog [path] h) = [] \<and>
    (cli_exit (main prog [path] h) = 0 \<longleftrightarrow>
       (\<exists>se. e = ScanFailed se) \<or> (\<exists>pos k ex. e = ParseFailed (ParserException pos k ex)))"
  using assms
  by (simp add: main_single cli_exit0_def cli_raise_def split: compile_error.split parse_error.split)

theorem main_failure_exit_status_witness:
  "cli_written (main ''mtc'' [''p.mt''] \<lparr>host_files = [''p.mt'' \<mapsto> ''let var x: Integer; x := 1;''],
      host_magic = [3, 243, 13, 10], host_time = 1700000000, host_to_code = \<lambda>_. True, host_marshal = \<lambda>_. []\<rparr>) = [] \<and>
   cli_exit (main ''mtc'' [''p.mt''] \<lparr>host_files = [''p.mt'' \<mapsto> ''let var x: Integer; x := 1;''],
      host_magic = [3, 243, 13, 10], host_time = 1700000000, host_to_code = \<lambda>_. True, host_marshal = \<lambda>_. []\<rparr>) = 0 \<and>
   cli_written (main ''mtc'' [''q.mt''] \<lparr>host_files = [''q.mt'' \<mapsto> ''putint(1,2);''],
      host_magic = [3, 243, 13, 10], host_time = 1700000000, host_to_code = \<lambda>_. True, host_marshal = \<lambda>_. []\<rparr>) = [] \<and>
   cli_exit (main ''mtc'' [''q.mt''] \<lparr>host_files = [''q.mt'' \<mapsto> ''putint(1,2);''],
      host_magic = [3, 243, 13, 10], host_time = 1700000000, host_to_code = \<lambda>_. True, host_marshal = \<lambda>_. []\<rparr>) \<noteq> 0"
proof -
  have c1: "compile ''let var x: Integer; x := 1;'' = Inl (ParseFailed (ParserException 20 TK_IDENTIFIER None))"
    by code_simp
  have c2: "compile ''putint(1,2);'' = Inl (GenFailed (IllegalFunctionArgumentError ''putint'' 1))"
    by code_simp
  have x: "snd (splitext ''p.mt'') = ''.mt''" "snd (splitext ''q.mt'') = ''.mt''"
    by code_simp+
  show ?thesis
    using main_failure_exit_status [of "\<lparr>host_files = [''p.mt'' \<mapsto> ''let var x: Integer; x := 1;''],
        host_magic = [3, 243, 13, 10], host_time = 1700000000, host_to_code = \<lambda>_. True, host_marshal = \<lambda>_. []\<rparr>", OF _ x(1) c1]
      main_failure_exit_status [of "\<lparr>host_files = [''q.mt'' \<mapsto> ''putint(1,2);''],
        host_magic = [3, 243, 13, 10], host_time = 1700000000, host_to_code = \<lambda>_. True, host_marshal = \<lambda>_. []\<rparr>", OF _ x(2) c2]
    by simp
qed

text \<open>
  C33: a scanner error in a \<open>.mt\<close> file is printed as one line
  \<open>ScannerError at pos = n, char = c\<close> with the position and the character of
  the error, and the driver exits with status 0.
\<close>

theorem main_scan_error_message:
  assumes "host_files h path = Some text" and "snd (splitext path) = ''.mt''" and "scan text = Inl (ScannerError pos c)"
  shows "cli_stdout (main prog [path] h) = [''ScannerError at pos = '' @ py_str_nat pos @ '', char = '' @ c] \<and>
    cli_exit (main prog [path] h) = 0"
  using assms by (simp add: main_single compile_def cli_exit0_def scanner_error_str_def)

theorem main_scan_error_message_witness:
  "cli_stdout (main ''mtc'' [''p.mt''] \<lparr>host_files = [''p.mt'' \<mapsto> ''x := 1 ? 2;''],
      host_magic = [3, 243, 13, 10], host_time = 1700000000, host_to_code = \<lambda>_. True, host_marshal = \<lambda>_. []\<rparr>) =
     [''ScannerError at pos = 7, char = ?''] \<and>
   cli_exit (main ''mtc'' [''p.mt''] \<lparr>host_files = [''p.mt'' \<mapsto> ''x := 1 ? 2;''],
      host_magic = [3, 243, 13, 10], host_time = 1700000000, host_to_code = \<lambda>_. True, host_marshal = \<lambda>_. []\<rparr>) = 0"
proof -
  have c: "scan ''x := 1 ? 2;'' = Inl (ScannerError 7 ''?'')"
    by code_simp
  have x: "snd (splitext ''p.mt'') = ''.mt''"
    by code_simp
  have d: "py_str_nat 7 = ''7''"
    by code_simp
  show ?thesis
    using main_scan_error_message [of "\<lparr>host_files = [''p.mt'' \<mapsto> ''x := 1 ? 2;''],
        host_magic = [3, 243, 13, 10], host_time = 1700000000, host_to_code = \<lambda>_. True, host_marshal = \<lambda>_. []\<rparr>", OF _ x c] d
    by simp
qed

section \<open>The code generator never raises \<open>UnknownFunctionError\<close>\<close>

text \<open>
  No raise site of \<open>codegen.py\<close> constructs an \<open>UnknownFunctionError\<close>: a
  call of an undeclared function raises \<open>InvalidExpressionError\<close>. The
  helpers of the generator first, then its mutual recursion.
\<close>

lemma helpers_never_unknown:
  "lookup_var x s = Inl e \<Longrightarrow> \<not> unknown_fn e"
  "env_load n t w s = Inl e \<Longrightarrow> \<not> unknown_fn e"
  "pop_vars xs sv = Inl e \<Longrightarrow> \<not> unknown_fn e"
  "lower_scope s = Inl e \<Longrightarrow> \<not> unknown_fn e"
  "lower_code_stack s = Inl e \<Longrightarrow> \<not> unknown_fn e"
proof -
  show "pop_vars xs sv = Inl e \<Longrightarrow> \<not> unknown_fn e" for xs sv
    by (induction xs sv rule: pop_vars.induct) (auto split: option.splits if_splits)
  then show "lower_scope s = Inl e \<Longrightarrow> \<not> unknown_fn e" for s
    by (auto simp: lower_scope_def bind_res_eq_Inl split: list.splits)
  then show "lower_code_stack s = Inl e \<Longrightarrow> \<not> unknown_fn e"
    by (simp add: lower_code_stack_def)
qed (auto simp: lookup_var_def env_load_def split: option.splits if_splits list.splits)

lemma gen_params_never_unknown: "gen_params ps ns s = Inl e \<Longrightarrow> \<not> unknown_fn e"
  apply (induction ps ns s rule: gen_params.induct)
   apply (auto simp: bind_res_eq_Inl dest: helpers_never_unknown split: prod.splits)
  apply (metis prod.collapse)
  done

lemma gen_expression_never_unknown:
  shows "gen_expression ex s = Inl e \<Longrightarrow> \<not> unknown_fn e"
    and "gen_exprs es s = Inl e \<Longrightarrow> \<not> unknown_fn e"
    and "gen_call f es s = Inl e \<Longrightarrow> \<not> unknown_fn e"
    and "gen_call_command f es s = Inl e \<Longrightarrow> \<not> unknown_fn e"
  apply (induction ex s and es s and f es s and f es s rule: gen_expression_gen_exprs_gen_call_gen_call_command.induct)
  apply (auto simp: bind_res_eq_Inl dest: helpers_never_unknown split: option.splits if_splits list.splits)
  apply blast+
  done

lemma gen_command_never_unknown:
  shows "gen_command c s = Inl e \<Longrightarrow> \<not> unknown_fn e"
    and "gen_declaration d s = Inl e \<Longrightarrow> \<not> unknown_fn e"
    and "gen_function f ps rt c s = Inl e \<Longrightarrow> \<not> unknown_fn e"
  apply (induction c s and d s and f ps rt c s rule: gen_command_gen_declaration_gen_function.induct)
  apply (auto simp: bind_res_eq_Inl Let_def dest: helpers_never_unknown gen_expression_never_unknown
       gen_params_never_unknown split: option.splits if_splits list.splits prod.splits)
  apply blast+
  done

lemma generate_never_unknown: "generate prog = Inl e \<Longrightarrow> \<not> unknown_fn e"
  by (cases prog) (auto simp: generate_def bind_res_eq_Inl dest: gen_command_never_unknown(1))

text \<open>
  C13: the message of \<open>UnknownFunctionError\<close> cannot be formed: its
  \<open>__str__\<close> raises \<open>NameError\<close> on the undefined global \<open>func_name\<close>. The bug
  is latent: no error \<open>generate\<close> raises is one whose message raises.
\<close>

theorem unknown_function_message_latent:
  "cg_error_str ast_str (UnknownFunctionError f) = Some (Inl (NameError ''func_name'')) \<and>
   (generate prog = Inl e \<longrightarrow> (\<forall>ne. cg_error_str ast_str e \<noteq> Some (Inl ne)))"
  using generate_never_unknown [of prog e]
  by (cases e) (auto simp: cg_error_str_def)

theorem unknown_function_message_latent_witness:
  "cg_error_str (\<lambda>_. ''node'') (UnknownFunctionError ''f'') = Some (Inl (NameError ''func_name'')) \<and>
   generate (Program (CallCommand ''f'' [])) = Inl (InvalidExpressionError (NodeCommand (CallCommand ''f'' []))) \<and>
   (\<forall>ne. cg_error_str (\<lambda>_. ''node'') (InvalidExpressionError (NodeCommand (CallCommand ''f'' []))) \<noteq> Some (Inl ne))"
proof -
  have g: "generate (Program (CallCommand ''f'' [])) = Inl (InvalidExpressionError (NodeCommand (CallCommand ''f'' [])))"
    by code_simp
  show ?thesis
    using unknown_function_message_latent [of "\<lambda>_. ''node''" "''f''" "Program (CallCommand ''f'' [])"
        "InvalidExpressionError (NodeCommand (CallCommand ''f'' []))"] g
    by simp
qed

end
