(* ===== verification/StackMachine.thy ===== *)
theory StackMachine
  imports CodeGen
begin

text \<open>
  What the code of an expression computes. The generator of
  \<open>src/codegen.py\<close> emits CPython 2 bytecode through byteplay; this theory
  gives the instructions that \<open>gen_expression\<close> emits the meaning the
  interpreter gives them on integers (\<open>exec_instr\<close>, \<open>exec\<close>: a value stack,
  the fast locals as a valuation of slot names, a failed instruction as
  \<open>None\<close>), and the expressions of the source language a reference
  evaluator \<open>eval_expr\<close> over the values of the variables. Python 2 integers
  are unbounded, \<open>/\<close> on integers is floor division and \<open>%\<close> the matching
  remainder, which are HOL's \<open>div\<close> and \<open>mod\<close> on \<open>int\<close>; a zero divisor
  raises \<open>ZeroDivisionError\<close>, here \<open>None\<close>. A comparison pushes a Python
  bool, which is the integer 0 or 1. The variable \<open>x\<close> of the source is read
  through the rename table of the generator: its value is the one of the
  slot on top of its stack in \<open>scope_vars\<close> (\<open>slot_env\<close>). The refinement
  lemma says that the emitted code, run on any stack, pushes exactly the value
  of the expression, and fails exactly when the evaluator fails.
\<close>

section \<open>The reference evaluator of expressions\<close>

fun apply_binop :: "string \<Rightarrow> int \<Rightarrow> int \<Rightarrow> int option" where
  "apply_binop oper a b =
     (if oper = ''+'' then Some (a + b)
      else if oper = ''*'' then Some (a * b)
      else if oper = ''-'' then Some (a - b)
      else if oper = ''/'' then (if b = 0 then None else Some (a div b))
      else if oper = ''<'' then Some (of_bool (a < b))
      else if oper = ''>'' then Some (of_bool (a > b))
      else if oper = ''='' then Some (of_bool (a = b))
      else if oper = [CHR 0x5C] then (if b = 0 then None else Some (a mod b))
      else None)"

fun apply_unop :: "string \<Rightarrow> int \<Rightarrow> int option" where
  "apply_unop oper a =
     (if oper = ''+'' then Some a else if oper = ''-'' then Some (- a) else None)"

fun eval_expr :: "(string \<Rightarrow> int option) \<Rightarrow> expression \<Rightarrow> int option" where
  "eval_expr env (BinaryExpression e1 oper e2) =
     (case eval_expr env e1 of None \<Rightarrow> None | Some a \<Rightarrow>
      (case eval_expr env e2 of None \<Rightarrow> None | Some b \<Rightarrow> apply_binop oper a b))"
| "eval_expr env (UnaryExpression oper e) =
     (case eval_expr env e of None \<Rightarrow> None | Some a \<Rightarrow> apply_unop oper a)"
| "eval_expr env (IntegerExpression n) = Some (int n)"
| "eval_expr env (VnameExpression (Vname x)) = env x"
| "eval_expr env (CallExpression f es) = None"

fun call_free :: "expression \<Rightarrow> bool" where
  "call_free (BinaryExpression e1 oper e2) \<longleftrightarrow> call_free e1 \<and> call_free e2"
| "call_free (UnaryExpression oper e) \<longleftrightarrow> call_free e"
| "call_free (IntegerExpression n) \<longleftrightarrow> True"
| "call_free (VnameExpression v) \<longleftrightarrow> True"
| "call_free (CallExpression f es) \<longleftrightarrow> False"

section \<open>The bytecode interpreter on integers\<close>

fun pop2 :: "(int \<Rightarrow> int \<Rightarrow> int option) \<Rightarrow> int list \<Rightarrow> int list option" where
  "pop2 f (b # a # st) = map_option (\<lambda>v. v # st) (f a b)"
| "pop2 f st = None"

fun pop1 :: "(int \<Rightarrow> int option) \<Rightarrow> int list \<Rightarrow> int list option" where
  "pop1 f (a # st) = map_option (\<lambda>v. v # st) (f a)"
| "pop1 f st = None"

fun exec_instr :: "(string \<Rightarrow> int option) \<Rightarrow> instr \<Rightarrow> int list \<Rightarrow> int list option" where
  "exec_instr \<sigma> (LOAD_CONST k) st = (case k of CInt n \<Rightarrow> Some (int n # st) | _ \<Rightarrow> None)"
| "exec_instr \<sigma> (LOAD_FAST v) st = map_option (\<lambda>a. a # st) (\<sigma> v)"
| "exec_instr \<sigma> BINARY_ADD st = pop2 (\<lambda>a b. Some (a + b)) st"
| "exec_instr \<sigma> BINARY_SUBTRACT st = pop2 (\<lambda>a b. Some (a - b)) st"
| "exec_instr \<sigma> BINARY_MULTIPLY st = pop2 (\<lambda>a b. Some (a * b)) st"
| "exec_instr \<sigma> BINARY_DIVIDE st = pop2 (\<lambda>a b. if b = 0 then None else Some (a div b)) st"
| "exec_instr \<sigma> BINARY_MODULO st = pop2 (\<lambda>a b. if b = 0 then None else Some (a mod b)) st"
| "exec_instr \<sigma> (COMPARE_OP oper) st =
     pop2 (\<lambda>a b. if oper = ''<'' then Some (of_bool (a < b))
                  else if oper = ''>'' then Some (of_bool (a > b))
                  else if oper = ''=='' then Some (of_bool (a = b)) else None) st"
| "exec_instr \<sigma> UNARY_POSITIVE st = pop1 Some st"
| "exec_instr \<sigma> UNARY_NEGATIVE st = pop1 (\<lambda>a. Some (- a)) st"
| "exec_instr \<sigma> i st = None"

fun exec :: "(string \<Rightarrow> int option) \<Rightarrow> instr list \<Rightarrow> int list \<Rightarrow> int list option" where
  "exec \<sigma> [] st = Some st"
| "exec \<sigma> (i # is) st = (case exec_instr \<sigma> i st of None \<Rightarrow> None | Some st' \<Rightarrow> exec \<sigma> is st')"

text \<open>The value of a source variable: the value of its current slot.\<close>

definition slot_env :: "(string \<rightharpoonup> string list) \<Rightarrow> (string \<Rightarrow> int option) \<Rightarrow> string \<Rightarrow> int option" where
  "slot_env sv \<sigma> x = (if rstack sv x = [] then None else \<sigma> (last (rstack sv x)))"

section \<open>Properties of the interpreter and the operator tables\<close>

lemma exec_append: "exec \<sigma> (xs @ ys) st = (case exec \<sigma> xs st of None \<Rightarrow> None | Some st' \<Rightarrow> exec \<sigma> ys st')"
  by (induction xs arbitrary: st) (auto split: option.splits)

lemma binary_op_cases:
  assumes "binary_op oper = Some i"
  obtains "oper = ''+''" "i = BINARY_ADD" | "oper = ''*''" "i = BINARY_MULTIPLY"
    | "oper = ''-''" "i = BINARY_SUBTRACT" | "oper = ''/''" "i = BINARY_DIVIDE"
    | "oper = ''<''" "i = COMPARE_OP oper" | "oper = ''>''" "i = COMPARE_OP oper"
    | "oper = ''=''" "i = COMPARE_OP ''==''" | "oper = [CHR 0x5C]" "i = BINARY_MODULO"
  using assms unfolding binary_op_def by (simp split: if_split_asm; blast)

lemma binary_op_exec:
  "binary_op oper = Some i \<Longrightarrow> exec_instr \<sigma> i (b # a # st) = map_option (\<lambda>v. v # st) (apply_binop oper a b)"
  by (erule binary_op_cases) simp_all

lemma unary_op_exec:
  "unary_op oper = Some i \<Longrightarrow> exec_instr \<sigma> i (a # st) = map_option (\<lambda>v. v # st) (apply_unop oper a)"
  by (simp add: unary_op_def split: if_split_asm)

section \<open>The emitted code computes the value of the expression\<close>

text \<open>
  The induction over expressions: the code emitted for a call-free expression
  pushes its value on any stack.
\<close>

lemma gen_expression_exec:
  "gen_expression e s = Inr s' \<Longrightarrow> call_free e \<Longrightarrow>
     \<exists>new. code s' = code s @ new \<and> exec \<sigma> new st = map_option (\<lambda>v. v # st) (eval_expr (slot_env (scope_vars s) \<sigma>) e)"
proof (induction e arbitrary: s s' st)
  case (BinaryExpression e1 oper e2)
  from BinaryExpression.prems(1) obtain s1 s2 i where a: "gen_expression e1 s = Inr s1"
    and b: "gen_expression e2 s1 = Inr s2" and i: "binary_op oper = Some i" and c: "s' = emit i s2"
    by (auto simp: bind_res_eq_Inr split: option.splits)
  from gen_expr_fields(1) [OF a] have sv: "scope_vars s1 = scope_vars s" by simp
  from BinaryExpression.IH(1) [OF a, of st] BinaryExpression.prems(2) obtain n1 where
    n1: "code s1 = code s @ n1" "exec \<sigma> n1 st = map_option (\<lambda>v. v # st) (eval_expr (slot_env (scope_vars s) \<sigma>) e1)" by auto
  show ?case
  proof (cases "eval_expr (slot_env (scope_vars s) \<sigma>) e1")
    case None
    from BinaryExpression.IH(2) [OF b] BinaryExpression.prems(2) obtain n2 where "code s2 = code s1 @ n2" by auto
    with n1 None c show ?thesis by (simp add: emit_def exec_append)
  next
    case (Some v1)
    from BinaryExpression.IH(2) [OF b, of "v1 # st"] BinaryExpression.prems(2) sv obtain n2 where
      n2: "code s2 = code s1 @ n2" "exec \<sigma> n2 (v1 # st) = map_option (\<lambda>v. v # v1 # st) (eval_expr (slot_env (scope_vars s) \<sigma>) e2)"
      by auto
    with n1 Some c binary_op_exec [OF i] show ?thesis
      by (simp add: emit_def exec_append split: option.split)
  qed
next
  case (UnaryExpression oper e)
  from UnaryExpression.prems(1) obtain s1 i where a: "gen_expression e s = Inr s1"
    and i: "unary_op oper = Some i" and c: "s' = emit i s1"
    by (auto simp: bind_res_eq_Inr split: option.splits)
  from UnaryExpression.IH [OF a, of st] UnaryExpression.prems(2) obtain n1 where
    n1: "code s1 = code s @ n1" "exec \<sigma> n1 st = map_option (\<lambda>v. v # st) (eval_expr (slot_env (scope_vars s) \<sigma>) e)" by auto
  with c unary_op_exec [OF i] show ?case
    by (simp add: emit_def exec_append split: option.split)
next
  case (VnameExpression v)
  obtain x where v: "v = Vname x" by (cases v)
  with VnameExpression.prems(1) obtain l where "scope_vars s x = Some l" "l \<noteq> []"
    "s' = emit (LOAD_FAST (last l)) s"
    by (auto simp: lookup_var_def bind_res_eq_Inr split: option.splits if_splits)
  with v show ?case by (simp add: emit_def slot_env_def rstack_def split: option.split)
qed (auto simp: emit_def)



text \<open>
  C29: when \<open>gen_expression\<close> succeeds on an expression with no call, it only
  appends code, and that code run by the interpreter on any stack pushes the
  value of the expression under the valuation of the variables read through
  the rename table, and fails exactly where the evaluator fails (an unknown
  variable or a zero divisor).
\<close>

theorem expression_code_computes_value:
  "gen_expression e s = Inr s' \<Longrightarrow> call_free e \<Longrightarrow>
     \<exists>new. code s' = code s @ new \<and> exec \<sigma> new st = map_option (\<lambda>v. v # st) (eval_expr (slot_env (scope_vars s) \<sigma>) e)"
  by (rule gen_expression_exec)

theorem expression_code_computes_value_witness:
  "\<exists>s'. gen_expression
      (BinaryExpression (IntegerExpression 3) ''+'' (UnaryExpression ''-'' (VnameExpression (Vname ''x''))))
      (snd (add_var ''x'' (raise_scope cg_init))) = Inr s' \<and>
   (\<exists>new. code s' = code (snd (add_var ''x'' (raise_scope cg_init))) @ new \<and>
     exec (\<lambda>v. if v = ''x1'' then Some 5 else None) new [] = Some [-2])"
proof -
  have "case gen_expression
      (BinaryExpression (IntegerExpression 3) ''+'' (UnaryExpression ''-'' (VnameExpression (Vname ''x''))))
      (snd (add_var ''x'' (raise_scope cg_init))) of Inl e \<Rightarrow> False | Inr a \<Rightarrow> True"
    by code_simp
  note h = Inr_projr [OF this]
  have v: "eval_expr (slot_env (scope_vars (snd (add_var ''x'' (raise_scope cg_init))))
      (\<lambda>v. if v = ''x1'' then Some 5 else None))
      (BinaryExpression (IntegerExpression 3) ''+'' (UnaryExpression ''-'' (VnameExpression (Vname ''x''))))
      = Some (-2)"
    by code_simp
  from expression_code_computes_value [OF h, of "\<lambda>v. if v = ''x1'' then Some 5 else None" "[]"] v h
  show ?thesis by auto
qed

end
