(* ===== verification/Bytecode.thy ===== *)
theory Bytecode
  imports StackMachine
begin

text \<open>
  What the code of a command does. \<open>bc_exec1\<close> is one step of the CPython 2
  interpreter on the instruction list that \<open>gen_command\<close> of
  \<open>src/codegen.py\<close> builds: byteplay resolves a label to the position of its
  \<open>LABEL\<close> pseudo-instruction, \<open>POP_JUMP_IF_FALSE\<close> pops the condition and
  jumps when it is 0, \<open>STORE_FAST\<close> pops into a local slot, \<open>PRINT_ITEM\<close> and
  \<open>PRINT_NEWLINE\<close> write to standard output, and the arithmetic instructions
  are those of \<open>StackMachine\<close>. \<open>cexec\<close> is a big-step semantics of the
  commands without declarations and calls other than \<open>putint\<close>, over the values
  of the source variables. The simulation theorem says that when a command runs
  to completion in \<open>cexec\<close>, the code \<open>gen_command\<close> emits for it, placed
  anywhere in a program, runs from its first to its last instruction, leaves
  the stack as it found it, prints the same items, and leaves the slots of the
  variables holding their new values.
\<close>

section \<open>The interpreter on the code of a command\<close>

datatype pevent = PItem int | PNewline

type_synonym bc_conf = "nat \<times> (string \<Rightarrow> int option) \<times> int list \<times> pevent list"

text \<open>The position of the first \<open>LABEL l\<close> of the program.\<close>

fun label_pos :: "instr list \<Rightarrow> label \<Rightarrow> nat option" where
  "label_pos [] l = None"
| "label_pos (i # is) l = (if i = LABEL l then Some 0 else map_option Suc (label_pos is l))"

definition jump_to :: "instr list \<Rightarrow> label \<Rightarrow> (string \<Rightarrow> int option) \<Rightarrow> int list \<Rightarrow> pevent list \<Rightarrow> bc_conf option" where
  "jump_to P l \<sigma> stk out = map_option (\<lambda>j. (j, \<sigma>, stk, out)) (label_pos P l)"

fun bc_exec1 :: "instr list \<Rightarrow> bc_conf \<Rightarrow> bc_conf option" where
  "bc_exec1 P (pc, \<sigma>, stk, out) =
     (if pc < length P then
        (case P ! pc of
           LABEL l \<Rightarrow> Some (Suc pc, \<sigma>, stk, out)
         | JUMP_FORWARD l \<Rightarrow> jump_to P l \<sigma> stk out
         | JUMP_ABSOLUTE l \<Rightarrow> jump_to P l \<sigma> stk out
         | POP_JUMP_IF_FALSE l \<Rightarrow>
             (case stk of [] \<Rightarrow> None
              | v # stk' \<Rightarrow> if v = 0 then jump_to P l \<sigma> stk' out else Some (Suc pc, \<sigma>, stk', out))
         | STORE_FAST x \<Rightarrow> (case stk of [] \<Rightarrow> None | v # stk' \<Rightarrow> Some (Suc pc, \<sigma>(x \<mapsto> v), stk', out))
         | PRINT_ITEM \<Rightarrow> (case stk of [] \<Rightarrow> None | v # stk' \<Rightarrow> Some (Suc pc, \<sigma>, stk', out @ [PItem v]))
         | PRINT_NEWLINE \<Rightarrow> Some (Suc pc, \<sigma>, stk, out @ [PNewline])
         | i \<Rightarrow> map_option (\<lambda>stk'. (Suc pc, \<sigma>, stk', out)) (exec_instr \<sigma> i stk))
      else None)"

definition bc_star :: "instr list \<Rightarrow> bc_conf \<Rightarrow> bc_conf \<Rightarrow> bool" where
  "bc_star P = (\<lambda>c c'. bc_exec1 P c = Some c')\<^sup>*\<^sup>*"

section \<open>The reference semantics of commands\<close>

inductive cexec :: "command \<Rightarrow> (string \<Rightarrow> int option) \<Rightarrow> pevent list \<Rightarrow>
    (string \<Rightarrow> int option) \<Rightarrow> pevent list \<Rightarrow> bool" where
  CAssign: "eval_expr env e = Some v \<Longrightarrow> cexec (AssignCommand (Vname x) e) env out (env(x \<mapsto> v)) out"
| CSeq: "cexec c1 env out env1 out1 \<Longrightarrow> cexec c2 env1 out1 env2 out2 \<Longrightarrow>
    cexec (SequentialCommand c1 c2) env out env2 out2"
| CIfTrue: "eval_expr env e = Some v \<Longrightarrow> v \<noteq> 0 \<Longrightarrow> cexec c1 env out env' out' \<Longrightarrow>
    cexec (IfCommand e c1 c2) env out env' out'"
| CIfFalse: "eval_expr env e = Some 0 \<Longrightarrow> cexec c2 env out env' out' \<Longrightarrow>
    cexec (IfCommand e c1 c2) env out env' out'"
| CWhileFalse: "eval_expr env e = Some 0 \<Longrightarrow> cexec (WhileCommand e c) env out env out"
| CWhileTrue: "eval_expr env e = Some v \<Longrightarrow> v \<noteq> 0 \<Longrightarrow> cexec c env out env1 out1 \<Longrightarrow>
    cexec (WhileCommand e c) env1 out1 env2 out2 \<Longrightarrow> cexec (WhileCommand e c) env out env2 out2"
| CPutint: "eval_expr env e = Some v \<Longrightarrow>
    cexec (CallCommand ''putint'' [e]) env out env (out @ [PItem v, PNewline])"

text \<open>
  The hypotheses on the generator state: every label already placed is below
  the label counter, and distinct names in scope have distinct current slots.
\<close>

definition labels_below :: "cg \<Rightarrow> bool" where
  "labels_below s \<longleftrightarrow> list_all (\<lambda>l. l < cg_labels s) (placed (code s))"

definition slots_inj :: "(string \<rightharpoonup> string list) \<Rightarrow> bool" where
  "slots_inj sv \<longleftrightarrow> (\<forall>x y. rstack sv x \<noteq> [] \<longrightarrow> rstack sv y \<noteq> [] \<longrightarrow>
     last (rstack sv x) = last (rstack sv y) \<longrightarrow> x = y)"

text \<open>The commands the simulation covers: no declarations, no calls but \<open>putint\<close>.\<close>

fun simple_cmd :: "command \<Rightarrow> bool" where
  "simple_cmd (SequentialCommand c1 c2) \<longleftrightarrow> simple_cmd c1 \<and> simple_cmd c2"
| "simple_cmd (AssignCommand v e) \<longleftrightarrow> True"
| "simple_cmd (CallCommand f es) \<longleftrightarrow> f = ''putint''"
| "simple_cmd (IfCommand e c1 c2) \<longleftrightarrow> simple_cmd c1 \<and> simple_cmd c2"
| "simple_cmd (WhileCommand e c) \<longleftrightarrow> simple_cmd c"
| "simple_cmd (LetCommand d c) \<longleftrightarrow> False"
| "simple_cmd (ReturnCommand e) \<longleftrightarrow> False"

section \<open>Running code embedded in a program\<close>

lemma bc_star_refl [intro, simp]: "bc_star P c c"
  by (simp add: bc_star_def)

lemma bc_star_step: "bc_exec1 P c = Some c' \<Longrightarrow> bc_star P c' c'' \<Longrightarrow> bc_star P c c''"
  by (simp add: bc_star_def converse_rtranclp_into_rtranclp)

lemma bc_star_trans [trans]: "bc_star P c c' \<Longrightarrow> bc_star P c' c'' \<Longrightarrow> bc_star P c c''"
  by (simp add: bc_star_def)

lemma bc_star_one: "bc_exec1 P c = Some c' \<Longrightarrow> bc_star P c c'"
  by (simp add: bc_star_def r_into_rtranclp)

lemma label_pos_append_notin:
  "l \<notin> set (placed xs) \<Longrightarrow> label_pos (xs @ ys) l = map_option (\<lambda>j. length xs + j) (label_pos ys l)"
  by (cases "label_pos ys l"; induction xs) (auto simp: placed_def)

lemma label_pos_here:
  "l \<notin> set (placed xs) \<Longrightarrow> label_pos (xs @ LABEL l # ys) l = Some (length xs)"
  by (simp add: label_pos_append_notin)

lemma exec_instr_straight:
  "exec_instr \<sigma> i stk = Some stk' \<Longrightarrow> pc < length P \<Longrightarrow> P ! pc = i \<Longrightarrow>
   bc_exec1 P (pc, \<sigma>, stk, out) = Some (Suc pc, \<sigma>, stk', out)"
  by (cases i) auto

lemma bc_exec_code:
  "exec \<sigma> xs stk = Some stk' \<Longrightarrow>
   bc_star (pre @ xs @ post) (length pre, \<sigma>, stk, out) (length pre + length xs, \<sigma>, stk', out)"
proof (induction xs arbitrary: pre stk)
  case Nil
  then show ?case by simp
next
  case (Cons i xs)
  from Cons.prems obtain stk1 where i: "exec_instr \<sigma> i stk = Some stk1" and r: "exec \<sigma> xs stk1 = Some stk'"
    by (auto split: option.splits)
  have "bc_exec1 (pre @ (i # xs) @ post) (length pre, \<sigma>, stk, out) = Some (Suc (length pre), \<sigma>, stk1, out)"
    by (rule exec_instr_straight [OF i]) simp_all
  moreover from Cons.IH [OF r, of "pre @ [i]"]
  have "bc_star (pre @ (i # xs) @ post) (Suc (length pre), \<sigma>, stk1, out) (length pre + length (i # xs), \<sigma>, stk', out)"
    by simp
  ultimately show ?case by (rule bc_star_step)
qed


text \<open>One instruction at a known position of the program.\<close>

lemma bc_step_label: "P = pre @ LABEL l # post \<Longrightarrow>
    bc_star P (length pre, \<sigma>, stk, out) (Suc (length pre), \<sigma>, stk, out)"
  by (simp add: bc_star_one)

lemma bc_step_store: "P = pre @ STORE_FAST x # post \<Longrightarrow>
    bc_star P (length pre, \<sigma>, v # stk, out) (Suc (length pre), \<sigma>(x \<mapsto> v), stk, out)"
  by (simp add: bc_star_one)

lemma bc_step_print: "P = pre @ PRINT_ITEM # PRINT_NEWLINE # post \<Longrightarrow>
    bc_star P (length pre, \<sigma>, v # stk, out) (Suc (Suc (length pre)), \<sigma>, stk, out @ [PItem v, PNewline])"
  by (rule bc_star_step [of _ _ "(Suc (length pre), \<sigma>, stk, out @ [PItem v])"])
     (simp_all add: bc_star_one nth_append)

lemma bc_step_pop_true: "P = pre @ POP_JUMP_IF_FALSE l # post \<Longrightarrow> v \<noteq> 0 \<Longrightarrow>
    bc_star P (length pre, \<sigma>, v # stk, out) (Suc (length pre), \<sigma>, stk, out)"
  by (simp add: bc_star_one)

lemma bc_step_pop_false: "P = pre @ POP_JUMP_IF_FALSE l # post \<Longrightarrow> label_pos P l = Some j \<Longrightarrow>
    bc_star P (length pre, \<sigma>, 0 # stk, out) (j, \<sigma>, stk, out)"
  by (simp add: bc_star_one jump_to_def)

lemma bc_step_jump: "P = pre @ i # post \<Longrightarrow> i = JUMP_FORWARD l \<or> i = JUMP_ABSOLUTE l \<Longrightarrow>
    label_pos P l = Some j \<Longrightarrow> bc_star P (length pre, \<sigma>, stk, out) (j, \<sigma>, stk, out)"
  by (auto simp: bc_star_one jump_to_def)

section \<open>The code of a command, piece by piece\<close>

lemma gen_if_parts:
  assumes "gen_command (IfCommand e c1 c2) s = Inr s'"
  obtains se s1 s2 where
    "gen_expression e (s\<lparr>cg_labels := Suc (Suc (cg_labels s))\<rparr>) = Inr se"
    "gen_command c1 (emit (POP_JUMP_IF_FALSE (cg_labels s)) se) = Inr s1"
    "gen_command c2 (emit (LABEL (cg_labels s)) (emit (JUMP_FORWARD (Suc (cg_labels s))) s1)) = Inr s2"
    "s' = emit (LABEL (Suc (cg_labels s))) s2"
  using assms by (auto simp: Let_def bind_res_eq_Inr)

lemma gen_while_parts:
  assumes "gen_command (WhileCommand e c) s = Inr s'"
  obtains se sc where
    "gen_expression e (emit (LABEL (cg_labels s)) (s\<lparr>cg_labels := Suc (Suc (cg_labels s))\<rparr>)) = Inr se"
    "gen_command c (emit (POP_JUMP_IF_FALSE (Suc (cg_labels s))) se) = Inr sc"
    "s' = emit (LABEL (Suc (cg_labels s))) (emit (JUMP_ABSOLUTE (cg_labels s)) sc)"
  using assms by (auto simp: Let_def bind_res_eq_Inr)

lemma gen_assign_parts:
  assumes "gen_command (AssignCommand (Vname x) e) s = Inr s'"
  obtains se l where "gen_expression e s = Inr se" "scope_vars se x = Some l" "l \<noteq> []"
    "s' = emit (STORE_FAST (last l)) se"
  using assms by (auto simp: bind_res_eq_Inr lookup_var_def split: option.splits if_splits)

lemma gen_putint_parts:
  assumes "gen_command (CallCommand ''putint'' [e]) s = Inr s'"
  obtains se where "gen_expression e s = Inr se" "s' = emit PRINT_NEWLINE (emit PRINT_ITEM se)"
  using assms by (auto simp: bind_res_eq_Inr)

text \<open>Labels below the counter are never placed again.\<close>

lemma gen_command_labels:
  assumes "gen_command c s = Inr s'"
  shows "cg_labels s \<le> cg_labels s'"
    and "l < cg_labels s \<Longrightarrow> l \<notin> set (placed (code s)) \<Longrightarrow> l \<notin> set (placed (code s'))"
    and "labels_below s \<Longrightarrow> labels_below s'"
  using gen_command_flow(1) [OF assms]
  by (auto 0 3 simp: flow_ok_def labels_below_def list_all_iff dest: subsetD intro: less_le_trans)

lemma labels_below_fresh: "labels_below s \<Longrightarrow> cg_labels s \<le> l \<Longrightarrow> l \<notin> set (placed (code s))"
  by (auto simp: labels_below_def list_all_iff)

lemma gen_expression_parts:
  assumes "gen_expression e s = Inr se"
  shows "scope_vars se = scope_vars s" "cg_labels se = cg_labels s" "placed (code se) = placed (code s)"
    and "\<exists>new. code se = code s @ new"
  using gen_expr_fields(1) [OF assms] gen_expression_straight(1) [OF assms] by auto

lemma eval_expr_call_free: "eval_expr env e = Some v \<Longrightarrow> call_free e"
  by (induction env e arbitrary: v rule: eval_expr.induct) (auto split: option.splits)

lemma gen_expression_run:
  assumes "gen_expression e s = Inr se" and "eval_expr (slot_env (scope_vars s) \<sigma>) e = Some v"
    and "P = code se @ post"
  shows "bc_star P (length (code s), \<sigma>, stk, out) (length (code se), \<sigma>, v # stk, out)"
proof -
  from gen_expression_exec [OF assms(1) eval_expr_call_free [OF assms(2)], of \<sigma> stk] assms(2)
  obtain new where "code se = code s @ new" "exec \<sigma> new stk = Some (v # stk)" by auto
  with bc_exec_code [of \<sigma> new stk "v # stk" "code s" post out] assms(3) show ?thesis by simp
qed

lemma slot_env_update:
  assumes "slots_inj sv" and "sv x = Some l" and "l \<noteq> []"
  shows "slot_env sv (\<sigma>(last l \<mapsto> v)) = (slot_env sv \<sigma>)(x \<mapsto> v)"
proof
  fix y
  show "slot_env sv (\<sigma>(last l \<mapsto> v)) y = ((slot_env sv \<sigma>)(x \<mapsto> v)) y"
    using assms by (auto simp: slot_env_def slots_inj_def rstack_def split: option.splits)
qed


lemma gen_command_code: "gen_command c s = Inr s' \<Longrightarrow> \<exists>new. code s' = code s @ new"
  using gen_command_flow(1) by blast

lemma simple_cmd_scope: "simple_cmd c \<Longrightarrow> gen_command c s = Inr s' \<Longrightarrow> scope_vars s' = scope_vars s"
proof (induction c arbitrary: s s')
  case (SequentialCommand c1 c2)
  then show ?case by (fastforce simp: bind_res_eq_Inr)
next
  case (AssignCommand v e)
  obtain x where "v = Vname x" by (cases v)
  with AssignCommand.prems(2) have "gen_command (AssignCommand (Vname x) e) s = Inr s'" by simp
  then obtain se l where "gen_expression e s = Inr se" "scope_vars se x = Some l" "l \<noteq> []"
    "s' = emit (STORE_FAST (last l)) se" by (rule gen_assign_parts)
  then show ?case by (simp add: gen_expression_parts(1))
next
  case (CallCommand f es)
  then show ?case
    by (auto simp: bind_res_eq_Inr emit_def dest: gen_expression_parts(1) split: list.splits)
next
  case (IfCommand e c1 c2)
  from IfCommand.prems(2) show ?case
    by (rule gen_if_parts) (use IfCommand in \<open>auto dest: gen_expression_parts(1)\<close>)
next
  case (WhileCommand e c)
  from WhileCommand.prems(2) show ?case
    by (rule gen_while_parts) (use WhileCommand in \<open>auto dest: gen_expression_parts(1)\<close>)
qed simp_all


lemma labels_below_emit [simp]:
  "label_of i = [] \<Longrightarrow> labels_below (emit i s) \<longleftrightarrow> labels_below s"
  by (simp add: labels_below_def emit_def)

lemma gen_if_layout:
  assumes g: "gen_command (IfCommand e c1 c2) s = Inr s'" and lb: "labels_below s"
  obtains se s1 s2 n1 n2 where
    "gen_expression e (s\<lparr>cg_labels := Suc (Suc (cg_labels s))\<rparr>) = Inr se"
    "gen_command c1 (emit (POP_JUMP_IF_FALSE (cg_labels s)) se) = Inr s1"
    "gen_command c2 (emit (LABEL (cg_labels s)) (emit (JUMP_FORWARD (Suc (cg_labels s))) s1)) = Inr s2"
    "code s' @ rest = code se @ POP_JUMP_IF_FALSE (cg_labels s) # n1 @
       JUMP_FORWARD (Suc (cg_labels s)) # LABEL (cg_labels s) # n2 @ LABEL (Suc (cg_labels s)) # rest"
    "code s1 = code se @ POP_JUMP_IF_FALSE (cg_labels s) # n1"
    "code s2 = code s1 @ JUMP_FORWARD (Suc (cg_labels s)) # LABEL (cg_labels s) # n2"
    "code s' = code s2 @ [LABEL (Suc (cg_labels s))]"
    "label_pos (code s' @ rest) (cg_labels s) = Some (Suc (length (code s1)))"
    "label_pos (code s' @ rest) (Suc (cg_labels s)) = Some (length (code s2))"
    "scope_vars se = scope_vars s"
    "labels_below (emit (POP_JUMP_IF_FALSE (cg_labels s)) se)"
    "labels_below (emit (LABEL (cg_labels s)) (emit (JUMP_FORWARD (Suc (cg_labels s))) s1))"
proof -
  let ?L = "cg_labels s"
  from g obtain se s1 s2 where p:
    "gen_expression e (s\<lparr>cg_labels := Suc (Suc ?L)\<rparr>) = Inr se"
    "gen_command c1 (emit (POP_JUMP_IF_FALSE ?L) se) = Inr s1"
    "gen_command c2 (emit (LABEL ?L) (emit (JUMP_FORWARD (Suc ?L)) s1)) = Inr s2"
    "s' = emit (LABEL (Suc ?L)) s2" by (rule gen_if_parts)
  note e = gen_expression_parts [OF p(1)]
  obtain n1 where n1: "code s1 = code se @ POP_JUMP_IF_FALSE ?L # n1"
    using gen_command_code [OF p(2)] by (auto simp: emit_def)
  obtain n2 where n2: "code s2 = code s1 @ JUMP_FORWARD (Suc ?L) # LABEL ?L # n2"
    using gen_command_code [OF p(3)] by (auto simp: emit_def)
  have s': "code s' = code s2 @ [LABEL (Suc ?L)]" using p(4) by (simp add: emit_def)
  have lba: "labels_below (emit (POP_JUMP_IF_FALSE ?L) se)"
    using lb e(2,3) by (auto simp: labels_below_def list_all_iff emit_def)
  have l1: "cg_labels (emit (POP_JUMP_IF_FALSE ?L) se) \<le> cg_labels s1"
    by (rule gen_command_labels(1) [OF p(2)])
  have lbb: "labels_below (emit (LABEL ?L) (emit (JUMP_FORWARD (Suc ?L)) s1))"
    using gen_command_labels(3) [OF p(2) lba] l1 e(2)
    by (auto simp: labels_below_def list_all_iff emit_def)
  have fresh: "l \<notin> set (placed (code s))" if "?L \<le> l" for l
    using labels_below_fresh [OF lb that] .
  have a1: "?L \<notin> set (placed (code s1))" "Suc ?L \<notin> set (placed (code s1))"
    using gen_command_labels(2) [OF p(2), of ?L] gen_command_labels(2) [OF p(2), of "Suc ?L"]
      fresh [of ?L] fresh [of "Suc ?L"] e(2,3) by (auto simp: emit_def)
  have a2: "Suc ?L \<notin> set (placed (code s2))"
    using gen_command_labels(2) [OF p(3), of "Suc ?L"] a1(2) l1 e(2) by (auto simp: emit_def)
  have q1: "label_pos (code s' @ rest) ?L = Some (Suc (length (code s1)))"
    using label_pos_here [of ?L "code s1 @ [JUMP_FORWARD (Suc ?L)]" "n2 @ LABEL (Suc ?L) # rest"] a1(1) n2 s'
    by simp
  have q2: "label_pos (code s' @ rest) (Suc ?L) = Some (length (code s2))"
    using label_pos_here [of "Suc ?L" "code s2" rest] a2 s' by simp
  have P: "code s' @ rest = code se @ POP_JUMP_IF_FALSE ?L # n1 @
       JUMP_FORWARD (Suc ?L) # LABEL ?L # n2 @ LABEL (Suc ?L) # rest"
    using s' n1 n2 by simp
  have sv: "scope_vars se = scope_vars s" using e(1) by simp
  show ?thesis by (rule that [OF p(1-3) P n1 n2 s' q1 q2 sv lba lbb])
qed

lemma gen_while_layout:
  assumes g: "gen_command (WhileCommand e c) s = Inr s'" and lb: "labels_below s"
  obtains se sc ne n where
    "gen_expression e (emit (LABEL (cg_labels s)) (s\<lparr>cg_labels := Suc (Suc (cg_labels s))\<rparr>)) = Inr se"
    "gen_command c (emit (POP_JUMP_IF_FALSE (Suc (cg_labels s))) se) = Inr sc"
    "code se = code s @ LABEL (cg_labels s) # ne"
    "code sc = code se @ POP_JUMP_IF_FALSE (Suc (cg_labels s)) # n"
    "code s' = code sc @ [JUMP_ABSOLUTE (cg_labels s), LABEL (Suc (cg_labels s))]"
    "label_pos (code s' @ rest) (cg_labels s) = Some (length (code s))"
    "label_pos (code s' @ rest) (Suc (cg_labels s)) = Some (Suc (length (code sc)))"
    "scope_vars se = scope_vars s"
    "labels_below (emit (POP_JUMP_IF_FALSE (Suc (cg_labels s))) se)"
proof -
  let ?L = "cg_labels s"
  let ?sa = "emit (LABEL ?L) (s\<lparr>cg_labels := Suc (Suc ?L)\<rparr>)"
  from g obtain se sc where p:
    "gen_expression e ?sa = Inr se"
    "gen_command c (emit (POP_JUMP_IF_FALSE (Suc ?L)) se) = Inr sc"
    "s' = emit (LABEL (Suc ?L)) (emit (JUMP_ABSOLUTE ?L) sc)" by (rule gen_while_parts)
  note e = gen_expression_parts [OF p(1)]
  obtain ne where ne: "code se = code s @ LABEL ?L # ne" using e(4) by (auto simp: emit_def)
  obtain n where n: "code sc = code se @ POP_JUMP_IF_FALSE (Suc ?L) # n"
    using gen_command_code [OF p(2)] by (auto simp: emit_def)
  have s': "code s' = code sc @ [JUMP_ABSOLUTE ?L, LABEL (Suc ?L)]" using p(3) by (simp add: emit_def)
  have lba: "labels_below (emit (POP_JUMP_IF_FALSE (Suc ?L)) se)"
    using lb e(2,3) by (auto simp: labels_below_def list_all_iff emit_def)
  have fresh: "l \<notin> set (placed (code s))" if "?L \<le> l" for l
    using labels_below_fresh [OF lb that] .
  have a1: "Suc ?L \<notin> set (placed (code sc))"
    using gen_command_labels(2) [OF p(2), of "Suc ?L"] fresh [of "Suc ?L"] e(2,3)
    by (auto simp: emit_def)
  have q1: "label_pos (code s' @ rest) ?L = Some (length (code s))"
    using label_pos_here [of ?L "code s"] fresh [of ?L] s' n ne by simp
  have q2: "label_pos (code s' @ rest) (Suc ?L) = Some (Suc (length (code sc)))"
    using label_pos_here [of "Suc ?L" "code sc @ [JUMP_ABSOLUTE ?L]" rest] a1 s' by simp
  have sv: "scope_vars se = scope_vars s" using e(1) by (simp add: emit_def)
  show ?thesis by (rule that [OF p(1,2) ne n s' q1 q2 sv lba])
qed


section \<open>The code of a command simulates the command\<close>

text \<open>
  C21: when a command without declarations, and without calls other than
  \<open>putint\<close>, runs to completion in the reference semantics, the code
  \<open>gen_command\<close> emits for it, placed anywhere in a program, runs from its
  first instruction to just past its last one. It leaves the value stack as
  it found it, prints the same items, and leaves every variable's current slot
  holding the variable's final value. This holds provided the labels already
  placed are below the counter and distinct variables in scope have distinct
  current slots.
\<close>

theorem command_code_simulates:
  "cexec c env out env' out' \<Longrightarrow> simple_cmd c \<Longrightarrow> gen_command c s = Inr s' \<Longrightarrow>
   env = slot_env (scope_vars s) \<sigma> \<Longrightarrow> slots_inj (scope_vars s) \<Longrightarrow> labels_below s \<Longrightarrow>
   \<exists>\<sigma>'. bc_star (code s' @ rest) (length (code s), \<sigma>, stk, out) (length (code s'), \<sigma>', stk, out') \<and>
     env' = slot_env (scope_vars s) \<sigma>'"
proof (induction arbitrary: s s' \<sigma> stk rest rule: cexec.induct)
  case (CAssign env e v x out)
  from CAssign.prems(2) obtain se l where g: "gen_expression e s = Inr se" "scope_vars se x = Some l"
    "l \<noteq> []" "s' = emit (STORE_FAST (last l)) se" by (rule gen_assign_parts)
  have sv: "scope_vars se = scope_vars s" by (rule gen_expression_parts(1) [OF g(1)])
  have P: "code s' @ rest = code se @ STORE_FAST (last l) # rest" using g(4) by (simp add: emit_def)
  have "bc_star (code s' @ rest) (length (code s), \<sigma>, stk, out) (length (code se), \<sigma>, v # stk, out)"
    using gen_expression_run [OF g(1) _ P] CAssign.hyps CAssign.prems(3) by simp
  also have "bc_star (code s' @ rest) (length (code se), \<sigma>, v # stk, out)
      (Suc (length (code se)), \<sigma>(last l \<mapsto> v), stk, out)"
    by (rule bc_step_store [OF P])
  finally have run: "bc_star (code s' @ rest) (length (code s), \<sigma>, stk, out)
      (length (code s'), \<sigma>(last l \<mapsto> v), stk, out)" using g(4) by (simp add: emit_def)
  have "env(x \<mapsto> v) = slot_env (scope_vars s) (\<sigma>(last l \<mapsto> v))"
    using slot_env_update [OF CAssign.prems(4), of x l] g(2,3) sv CAssign.prems(3) by simp
  with run show ?case by blast
next
  case (CSeq c1 env out env1 out1 c2 env2 out2)
  from CSeq.prems(2) obtain s1 where g1: "gen_command c1 s = Inr s1" and g2: "gen_command c2 s1 = Inr s'"
    by (auto simp: bind_res_eq_Inr)
  obtain n2 where n2: "code s' = code s1 @ n2" using gen_command_code [OF g2] by blast
  have sv: "scope_vars s1 = scope_vars s" using simple_cmd_scope [OF _ g1] CSeq.prems(1) by simp
  from CSeq.IH(1) [OF _ g1 CSeq.prems(3-5), where stk = stk and rest = "n2 @ rest"] CSeq.prems(1) n2
  obtain \<sigma>1 where r1: "bc_star (code s' @ rest) (length (code s), \<sigma>, stk, out) (length (code s1), \<sigma>1, stk, out1)"
    "env1 = slot_env (scope_vars s) \<sigma>1" by auto
  from CSeq.IH(2) [OF _ g2, where \<sigma> = \<sigma>1 and stk = stk and rest = rest] r1(2) sv CSeq.prems(1,4)
    gen_command_labels(3) [OF g1 CSeq.prems(5)]
  obtain \<sigma>2 where r2: "bc_star (code s' @ rest) (length (code s1), \<sigma>1, stk, out1) (length (code s'), \<sigma>2, stk, out2)"
    "env2 = slot_env (scope_vars s) \<sigma>2" by auto
  from r1(1) r2(1) have "bc_star (code s' @ rest) (length (code s), \<sigma>, stk, out) (length (code s'), \<sigma>2, stk, out2)"
    by (rule bc_star_trans)
  with r2(2) show ?case by blast
next
  case (CPutint env e v out)
  from CPutint.prems(2) obtain se where g: "gen_expression e s = Inr se"
    "s' = emit PRINT_NEWLINE (emit PRINT_ITEM se)" by (rule gen_putint_parts)
  have P: "code s' @ rest = code se @ PRINT_ITEM # PRINT_NEWLINE # rest" using g(2) by (simp add: emit_def)
  have "bc_star (code s' @ rest) (length (code s), \<sigma>, stk, out) (length (code se), \<sigma>, v # stk, out)"
    using gen_expression_run [OF g(1) _ P] CPutint.hyps CPutint.prems(3) by simp
  also have "bc_star (code s' @ rest) (length (code se), \<sigma>, v # stk, out)
      (Suc (Suc (length (code se))), \<sigma>, stk, out @ [PItem v, PNewline])"
    by (rule bc_step_print [OF P])
  finally show ?case using g(2) CPutint.prems(3) by (auto simp: emit_def)
next
  case (CIfTrue env e v c1 out env' out' c2)
  let ?L = "cg_labels s"
  from CIfTrue.prems(2,5) obtain se s1 s2 n1 n2 where L:
    "gen_expression e (s\<lparr>cg_labels := Suc (Suc ?L)\<rparr>) = Inr se"
    "gen_command c1 (emit (POP_JUMP_IF_FALSE ?L) se) = Inr s1"
    "gen_command c2 (emit (LABEL ?L) (emit (JUMP_FORWARD (Suc ?L)) s1)) = Inr s2"
    "code s' @ rest = code se @ POP_JUMP_IF_FALSE ?L # n1 @
       JUMP_FORWARD (Suc ?L) # LABEL ?L # n2 @ LABEL (Suc ?L) # rest"
    "code s1 = code se @ POP_JUMP_IF_FALSE ?L # n1"
    "code s2 = code s1 @ JUMP_FORWARD (Suc ?L) # LABEL ?L # n2"
    "code s' = code s2 @ [LABEL (Suc ?L)]"
    "label_pos (code s' @ rest) ?L = Some (Suc (length (code s1)))"
    "label_pos (code s' @ rest) (Suc ?L) = Some (length (code s2))"
    "scope_vars se = scope_vars s"
    "labels_below (emit (POP_JUMP_IF_FALSE ?L) se)"
    "labels_below (emit (LABEL ?L) (emit (JUMP_FORWARD (Suc ?L)) s1))"
    by (rule gen_if_layout)
  have "bc_star (code s' @ rest) (length (code s), \<sigma>, stk, out) (length (code se), \<sigma>, v # stk, out)"
    using gen_expression_run [OF L(1) _ L(4)] CIfTrue.hyps(1) CIfTrue.prems(3) by simp
  also have "bc_star (code s' @ rest) (length (code se), \<sigma>, v # stk, out) (Suc (length (code se)), \<sigma>, stk, out)"
    by (rule bc_step_pop_true [OF L(4) CIfTrue.hyps(2)])
  also obtain \<sigma>1 where r1: "bc_star (code s' @ rest) (Suc (length (code se)), \<sigma>, stk, out) (length (code s1), \<sigma>1, stk, out')"
    "env' = slot_env (scope_vars s) \<sigma>1"
    using CIfTrue.IH [OF _ L(2), where \<sigma> = \<sigma> and stk = stk and rest = "JUMP_FORWARD (Suc ?L) # LABEL ?L # n2 @ LABEL (Suc ?L) # rest"]
      CIfTrue.prems(1,3,4) L(4,5,10,11) by (auto simp: emit_def)
  note r1(1)
  also have "bc_star (code s' @ rest) (length (code s1), \<sigma>1, stk, out') (length (code s2), \<sigma>1, stk, out')"
    using bc_step_jump [of "code s' @ rest" "code s1" "JUMP_FORWARD (Suc ?L)"] L(4,5,9) by simp
  also have "bc_star (code s' @ rest) (length (code s2), \<sigma>1, stk, out') (length (code s'), \<sigma>1, stk, out')"
    using bc_step_label [of "code s' @ rest" "code s2"] L(7) by simp
  finally show ?case using r1(2) by blast
next
  case (CIfFalse env e c2 out env' out' c1)
  let ?L = "cg_labels s"
  let ?sb = "emit (LABEL ?L) (emit (JUMP_FORWARD (Suc ?L)) s1)"
  from CIfFalse.prems(2,5) obtain se s1 s2 n1 n2 where L:
    "gen_expression e (s\<lparr>cg_labels := Suc (Suc ?L)\<rparr>) = Inr se"
    "gen_command c1 (emit (POP_JUMP_IF_FALSE ?L) se) = Inr s1"
    "gen_command c2 (emit (LABEL ?L) (emit (JUMP_FORWARD (Suc ?L)) s1)) = Inr s2"
    "code s' @ rest = code se @ POP_JUMP_IF_FALSE ?L # n1 @
       JUMP_FORWARD (Suc ?L) # LABEL ?L # n2 @ LABEL (Suc ?L) # rest"
    "code s1 = code se @ POP_JUMP_IF_FALSE ?L # n1"
    "code s2 = code s1 @ JUMP_FORWARD (Suc ?L) # LABEL ?L # n2"
    "code s' = code s2 @ [LABEL (Suc ?L)]"
    "label_pos (code s' @ rest) ?L = Some (Suc (length (code s1)))"
    "label_pos (code s' @ rest) (Suc ?L) = Some (length (code s2))"
    "scope_vars se = scope_vars s"
    "labels_below (emit (POP_JUMP_IF_FALSE ?L) se)"
    "labels_below (emit (LABEL ?L) (emit (JUMP_FORWARD (Suc ?L)) s1))"
    by (rule gen_if_layout)
  have sv1: "scope_vars s1 = scope_vars s"
    using simple_cmd_scope [OF _ L(2)] CIfFalse.prems(1) L(10) by (simp add: emit_def)
  have "bc_star (code s' @ rest) (length (code s), \<sigma>, stk, out) (length (code se), \<sigma>, 0 # stk, out)"
    using gen_expression_run [OF L(1) _ L(4)] CIfFalse.hyps(1) CIfFalse.prems(3) by simp
  also have "bc_star (code s' @ rest) (length (code se), \<sigma>, 0 # stk, out) (Suc (length (code s1)), \<sigma>, stk, out)"
    by (rule bc_step_pop_false [OF L(4) L(8)])
  also have "bc_star (code s' @ rest) (Suc (length (code s1)), \<sigma>, stk, out) (Suc (Suc (length (code s1))), \<sigma>, stk, out)"
    using bc_step_label [of "code s' @ rest" "code s1 @ [JUMP_FORWARD (Suc ?L)]"] L(4,5) by simp
  also obtain \<sigma>2 where r2: "bc_star (code s' @ rest) (Suc (Suc (length (code s1))), \<sigma>, stk, out) (length (code s2), \<sigma>2, stk, out')"
    "env' = slot_env (scope_vars s) \<sigma>2"
    using CIfFalse.IH [OF _ L(3), where \<sigma> = \<sigma> and stk = stk and rest = "LABEL (Suc ?L) # rest"]
      CIfFalse.prems(1,3,4) L(6,7,12) sv1 by (auto simp: emit_def)
  note r2(1)
  also have "bc_star (code s' @ rest) (length (code s2), \<sigma>2, stk, out') (length (code s'), \<sigma>2, stk, out')"
    using bc_step_label [of "code s' @ rest" "code s2"] L(7) by simp
  finally show ?case using r2(2) by blast
next
  case (CWhileFalse env e c out)
  let ?L = "cg_labels s"
  from CWhileFalse.prems(2,5) obtain se sc ne n where W:
    "gen_expression e (emit (LABEL ?L) (s\<lparr>cg_labels := Suc (Suc ?L)\<rparr>)) = Inr se"
    "gen_command c (emit (POP_JUMP_IF_FALSE (Suc ?L)) se) = Inr sc"
    "code se = code s @ LABEL ?L # ne"
    "code sc = code se @ POP_JUMP_IF_FALSE (Suc ?L) # n"
    "code s' = code sc @ [JUMP_ABSOLUTE ?L, LABEL (Suc ?L)]"
    "label_pos (code s' @ rest) ?L = Some (length (code s))"
    "label_pos (code s' @ rest) (Suc ?L) = Some (Suc (length (code sc)))"
    "scope_vars se = scope_vars s"
    "labels_below (emit (POP_JUMP_IF_FALSE (Suc ?L)) se)"
    by (rule gen_while_layout)
  have P: "code s' @ rest = code se @ POP_JUMP_IF_FALSE (Suc ?L) # n @ JUMP_ABSOLUTE ?L # LABEL (Suc ?L) # rest"
    using W(4,5) by simp
  have "bc_star (code s' @ rest) (length (code s), \<sigma>, stk, out) (Suc (length (code s)), \<sigma>, stk, out)"
    using bc_step_label [of "code s' @ rest" "code s"] P W(3) by simp
  also have "bc_star (code s' @ rest) (Suc (length (code s)), \<sigma>, stk, out) (length (code se), \<sigma>, 0 # stk, out)"
    using gen_expression_run [OF W(1) _ P] CWhileFalse.hyps CWhileFalse.prems(3) by (simp add: emit_def)
  also have "bc_star (code s' @ rest) (length (code se), \<sigma>, 0 # stk, out) (Suc (length (code sc)), \<sigma>, stk, out)"
    by (rule bc_step_pop_false [OF P W(7)])
  also have "bc_star (code s' @ rest) (Suc (length (code sc)), \<sigma>, stk, out) (length (code s'), \<sigma>, stk, out)"
    using bc_step_label [of "code s' @ rest" "code sc @ [JUMP_ABSOLUTE ?L]"] W(5) by simp
  finally show ?case using CWhileFalse.prems(3) by blast
next
  case (CWhileTrue env e v c out env1 out1 env2 out2)
  let ?L = "cg_labels s"
  from CWhileTrue.prems(2,5) obtain se sc ne n where W:
    "gen_expression e (emit (LABEL ?L) (s\<lparr>cg_labels := Suc (Suc ?L)\<rparr>)) = Inr se"
    "gen_command c (emit (POP_JUMP_IF_FALSE (Suc ?L)) se) = Inr sc"
    "code se = code s @ LABEL ?L # ne"
    "code sc = code se @ POP_JUMP_IF_FALSE (Suc ?L) # n"
    "code s' = code sc @ [JUMP_ABSOLUTE ?L, LABEL (Suc ?L)]"
    "label_pos (code s' @ rest) ?L = Some (length (code s))"
    "label_pos (code s' @ rest) (Suc ?L) = Some (Suc (length (code sc)))"
    "scope_vars se = scope_vars s"
    "labels_below (emit (POP_JUMP_IF_FALSE (Suc ?L)) se)"
    by (rule gen_while_layout)
  have P: "code s' @ rest = code se @ POP_JUMP_IF_FALSE (Suc ?L) # n @ JUMP_ABSOLUTE ?L # LABEL (Suc ?L) # rest"
    using W(4,5) by simp
  have "bc_star (code s' @ rest) (length (code s), \<sigma>, stk, out) (Suc (length (code s)), \<sigma>, stk, out)"
    using bc_step_label [of "code s' @ rest" "code s"] P W(3) by simp
  also have "bc_star (code s' @ rest) (Suc (length (code s)), \<sigma>, stk, out) (length (code se), \<sigma>, v # stk, out)"
    using gen_expression_run [OF W(1) _ P] CWhileTrue.hyps(1) CWhileTrue.prems(3) by (simp add: emit_def)
  also have "bc_star (code s' @ rest) (length (code se), \<sigma>, v # stk, out) (Suc (length (code se)), \<sigma>, stk, out)"
    by (rule bc_step_pop_true [OF P CWhileTrue.hyps(2)])
  also obtain \<sigma>1 where r1: "bc_star (code s' @ rest) (Suc (length (code se)), \<sigma>, stk, out) (length (code sc), \<sigma>1, stk, out1)"
    "env1 = slot_env (scope_vars s) \<sigma>1"
    using CWhileTrue.IH(1) [OF _ W(2), where \<sigma> = \<sigma> and stk = stk and rest = "JUMP_ABSOLUTE ?L # LABEL (Suc ?L) # rest"]
      CWhileTrue.prems(1,3,4) W(4,5,8,9) by (auto simp: emit_def)
  note r1(1)
  also have "bc_star (code s' @ rest) (length (code sc), \<sigma>1, stk, out1) (length (code s), \<sigma>1, stk, out1)"
    using bc_step_jump [of "code s' @ rest" "code sc" "JUMP_ABSOLUTE ?L"] W(5,6) by simp
  also obtain \<sigma>2 where r2: "bc_star (code s' @ rest) (length (code s), \<sigma>1, stk, out1) (length (code s'), \<sigma>2, stk, out2)"
    "env2 = slot_env (scope_vars s) \<sigma>2"
    using CWhileTrue.IH(2) [OF CWhileTrue.prems(1,2) r1(2) CWhileTrue.prems(4,5), where rest = rest and stk = stk]
    by blast
  note r2(1)
  finally show ?case using r2(2) by blast
qed


lemma cexec_assign_eq:
  "eval_expr env e = Some v \<Longrightarrow> env' = env(x \<mapsto> v) \<Longrightarrow> cexec (AssignCommand (Vname x) e) env out env' out"
  by (simp add: CAssign)

lemma cexec_putint_eq:
  "eval_expr env e = Some v \<Longrightarrow> out' = out @ [PItem v, PNewline] \<Longrightarrow>
   cexec (CallCommand ''putint'' [e]) env out env out'"
  by (simp add: CPutint)

theorem command_code_simulates_witness:
  "\<exists>\<sigma>'. bc_star (code (projr (gen_command (SequentialCommand (AssignCommand (Vname ''x'') (IntegerExpression 2))
     (WhileCommand (BinaryExpression (VnameExpression (Vname ''x'')) ''>'' (IntegerExpression 0))
      (SequentialCommand (CallCommand ''putint'' [VnameExpression (Vname ''x'')])
      (AssignCommand (Vname ''x'') (BinaryExpression (VnameExpression (Vname ''x'')) ''-'' (IntegerExpression 1)))))) (snd (add_var ''x'' (raise_scope cg_init))))) @ [])
      (length (code (snd (add_var ''x'' (raise_scope cg_init)))), \<lambda>_. None, [], [])
      (length (code (projr (gen_command (SequentialCommand (AssignCommand (Vname ''x'') (IntegerExpression 2))
     (WhileCommand (BinaryExpression (VnameExpression (Vname ''x'')) ''>'' (IntegerExpression 0))
      (SequentialCommand (CallCommand ''putint'' [VnameExpression (Vname ''x'')])
      (AssignCommand (Vname ''x'') (BinaryExpression (VnameExpression (Vname ''x'')) ''-'' (IntegerExpression 1)))))) (snd (add_var ''x'' (raise_scope cg_init)))))), \<sigma>', [],
       [PItem 2, PNewline, PItem 1, PNewline])"
proof -
  have "case gen_command (SequentialCommand (AssignCommand (Vname ''x'') (IntegerExpression 2))
     (WhileCommand (BinaryExpression (VnameExpression (Vname ''x'')) ''>'' (IntegerExpression 0))
      (SequentialCommand (CallCommand ''putint'' [VnameExpression (Vname ''x'')])
      (AssignCommand (Vname ''x'') (BinaryExpression (VnameExpression (Vname ''x'')) ''-'' (IntegerExpression 1)))))) (snd (add_var ''x'' (raise_scope cg_init))) of Inl e \<Rightarrow> False | Inr a \<Rightarrow> True"
    by code_simp
  note g = Inr_projr [OF this]
  have d1: "slot_name ''x'' (Suc 0) = ''x1''"
    by code_simp
  have sv: "scope_vars (snd (add_var ''x'' (raise_scope cg_init))) = [''x'' \<mapsto> [''x1'']]"
    by (simp add: add_var_def raise_scope_def cg_init_def d1 Let_def)
  have lb: "labels_below (snd (add_var ''x'' (raise_scope cg_init)))"
    by code_simp
  have inj: "slots_inj [''x'' \<mapsto> [''x1'']]"
    by (simp add: slots_inj_def rstack_def)
  have env: "(\<lambda>_. None) = slot_env [''x'' \<mapsto> [''x1'']] (\<lambda>_. None)"
    by (simp add: fun_eq_iff slot_env_def)
  have simple: "simple_cmd (SequentialCommand (AssignCommand (Vname ''x'') (IntegerExpression 2))
     (WhileCommand (BinaryExpression (VnameExpression (Vname ''x'')) ''>'' (IntegerExpression 0))
      (SequentialCommand (CallCommand ''putint'' [VnameExpression (Vname ''x'')])
      (AssignCommand (Vname ''x'') (BinaryExpression (VnameExpression (Vname ''x'')) ''-'' (IntegerExpression 1))))))"
    by simp
  have b1: "cexec (SequentialCommand (CallCommand ''putint'' [VnameExpression (Vname ''x'')])
      (AssignCommand (Vname ''x'') (BinaryExpression (VnameExpression (Vname ''x'')) ''-'' (IntegerExpression 1)))) ((\<lambda>_. None)(''x'' \<mapsto> 1)) out ((\<lambda>_. None)(''x'' \<mapsto> 0)) (out @ [PItem 1, PNewline])"
    for out
    by (rule CSeq, rule cexec_putint_eq, simp, rule refl, rule cexec_assign_eq) simp_all
  have b2: "cexec (SequentialCommand (CallCommand ''putint'' [VnameExpression (Vname ''x'')])
      (AssignCommand (Vname ''x'') (BinaryExpression (VnameExpression (Vname ''x'')) ''-'' (IntegerExpression 1)))) ((\<lambda>_. None)(''x'' \<mapsto> 2)) out ((\<lambda>_. None)(''x'' \<mapsto> 1)) (out @ [PItem 2, PNewline])"
    for out
    by (rule CSeq, rule cexec_putint_eq, simp, rule refl, rule cexec_assign_eq) simp_all
  have w0: "cexec (WhileCommand (BinaryExpression (VnameExpression (Vname ''x'')) ''>'' (IntegerExpression 0))
      (SequentialCommand (CallCommand ''putint'' [VnameExpression (Vname ''x'')])
      (AssignCommand (Vname ''x'') (BinaryExpression (VnameExpression (Vname ''x'')) ''-'' (IntegerExpression 1))))) ((\<lambda>_. None)(''x'' \<mapsto> 0)) out ((\<lambda>_. None)(''x'' \<mapsto> 0)) out" for out
    by (rule CWhileFalse) simp
  have w1: "cexec (WhileCommand (BinaryExpression (VnameExpression (Vname ''x'')) ''>'' (IntegerExpression 0))
      (SequentialCommand (CallCommand ''putint'' [VnameExpression (Vname ''x'')])
      (AssignCommand (Vname ''x'') (BinaryExpression (VnameExpression (Vname ''x'')) ''-'' (IntegerExpression 1))))) ((\<lambda>_. None)(''x'' \<mapsto> 1)) [PItem 2, PNewline] ((\<lambda>_. None)(''x'' \<mapsto> 0))
      [PItem 2, PNewline, PItem 1, PNewline]"
    by (rule CWhileTrue [where v = 1], simp, simp, rule b1, simp only: append_Cons append_Nil, rule w0)
  have w2: "cexec (WhileCommand (BinaryExpression (VnameExpression (Vname ''x'')) ''>'' (IntegerExpression 0))
      (SequentialCommand (CallCommand ''putint'' [VnameExpression (Vname ''x'')])
      (AssignCommand (Vname ''x'') (BinaryExpression (VnameExpression (Vname ''x'')) ''-'' (IntegerExpression 1))))) ((\<lambda>_. None)(''x'' \<mapsto> 2)) [] ((\<lambda>_. None)(''x'' \<mapsto> 0))
      [PItem 2, PNewline, PItem 1, PNewline]"
    by (rule CWhileTrue [where v = 1], simp, simp, rule b2, simp only: append_Cons append_Nil, rule w1)
  have d: "cexec (SequentialCommand (AssignCommand (Vname ''x'') (IntegerExpression 2))
     (WhileCommand (BinaryExpression (VnameExpression (Vname ''x'')) ''>'' (IntegerExpression 0))
      (SequentialCommand (CallCommand ''putint'' [VnameExpression (Vname ''x'')])
      (AssignCommand (Vname ''x'') (BinaryExpression (VnameExpression (Vname ''x'')) ''-'' (IntegerExpression 1)))))) (\<lambda>_. None) [] ((\<lambda>_. None)(''x'' \<mapsto> 0)) [PItem 2, PNewline, PItem 1, PNewline]"
    by (rule CSeq [OF cexec_assign_eq w2]) simp_all
  have h: "(\<lambda>_. None) = slot_env (scope_vars (snd (add_var ''x'' (raise_scope cg_init)))) (\<lambda>_. None)"
    using env sv by simp
  have inj': "slots_inj (scope_vars (snd (add_var ''x'' (raise_scope cg_init))))"
    using inj sv by simp
  from command_code_simulates [OF d simple g h inj' lb, where stk = "[]" and rest = "[]"]
  show ?thesis by blast
qed

end
