(* ===== verification/Scanner_Roundtrip.thy ===== *)
theory Scanner_Roundtrip
  imports Scanner
begin

text \<open>
  The scanner of \<open>src/scanner.py\<close> read against a printer of token streams.
  \<open>print_token\<close> writes a token back as source text (the identifier or
  operator, the decimal digits of a literal, the keyword or punctuation), and
  \<open>print_tokens\<close> separates tokens by one blank. \<open>scanner_on w st\<close> says
  that the cursor of \<open>Scanner\<close> is at the start of the unread text \<open>w\<close>.
  The lemmas follow \<open>scan_token\<close> through each of its branches on printed
  text. They show that the keyword loop of \<open>scan_keyword\<close> computes
  \<open>takeWhile\<close> and \<open>dropWhile\<close> of the unread text, and that scanning a
  printed stream of well-formed tokens gives back their kinds and values,
  followed by the end-of-text token.
\<close>

section \<open>Printing tokens\<close>

fun keyword_text :: "token_kind \<Rightarrow> string" where
  "keyword_text TK_BEGIN = ''begin''"
| "keyword_text TK_CONST = ''const''"
| "keyword_text TK_DO = ''do''"
| "keyword_text TK_ELSE = ''else''"
| "keyword_text TK_END = ''end''"
| "keyword_text TK_IF = ''if''"
| "keyword_text TK_IN = ''in''"
| "keyword_text TK_LET = ''let''"
| "keyword_text TK_THEN = ''then''"
| "keyword_text TK_VAR = ''var''"
| "keyword_text TK_WHILE = ''while''"
| "keyword_text TK_FUNCDEF = ''func''"
| "keyword_text TK_RETURN = ''return''"
| "keyword_text TK_SEMICOLON = '';''"
| "keyword_text TK_COLON = '':''"
| "keyword_text TK_BECOMES = '':=''"
| "keyword_text TK_IS = ''~''"
| "keyword_text TK_LPAREN = ''(''"
| "keyword_text TK_RPAREN = '')''"
| "keyword_text TK_COMMA = '',''"
| "keyword_text k = []"

definition print_token :: "token \<Rightarrow> string" where
  "print_token t = (case tok_val t of
      VStr s \<Rightarrow> s
    | VInt n \<Rightarrow> if tok_type t = TK_INTLITERAL then py_str_nat n else keyword_text (tok_type t))"

definition print_tokens :: "token list \<Rightarrow> string" where
  "print_tokens ts = concat (map (\<lambda>t. print_token t @ '' '') ts)"

section \<open>The cursor at the start of a text\<close>

definition scanner_on :: "string \<Rightarrow> scanner \<Rightarrow> bool" where
  "scanner_on w st \<longleftrightarrow> sc_char st = take 1 w \<and> sc_rest st = drop 1 w \<and> (sc_eot st \<longleftrightarrow> w = [])"

section \<open>The branches of the scanner on printed text\<close>

lemma scanner_on_init: "scanner_on input (scanner_init input)"
  by (cases input) (auto simp: scanner_on_def scanner_init_def char_take_def)

lemma char_take_on:
  "scanner_on (c # w) st \<Longrightarrow> scanner_on w (snd (char_take st)) \<and> fst (char_take st) = [c]"
  by (cases w) (auto simp: scanner_on_def char_take_def Let_def)

lemma scanner_on_Cons: "scanner_on (c # w) st \<Longrightarrow> sc_char st = [c] \<and> \<not> sc_eot st"
  by (simp add: scanner_on_def)

lemma scan_digits_on:
  "list_all py_digit_char ds \<Longrightarrow> (w = [] \<or> \<not> py_digit_char (hd w)) \<Longrightarrow> scanner_on (ds @ w) st \<Longrightarrow>
   \<exists>st'. scan_digits acc st = (acc @ map (\<lambda>c. [c]) ds, st') \<and> scanner_on w st'"
proof (induction ds arbitrary: acc st)
  case Nil
  then show ?case by (cases w) (auto simp: scan_digits.simps [of acc st] scanner_on_def)
next
  case (Cons d ds)
  from char_take_on [of d "ds @ w" st] Cons.prems(3) have
    t: "scanner_on (ds @ w) (snd (char_take st))" "fst (char_take st) = [d]" by simp_all
  from Cons.prems(1) scanner_on_Cons [of d "ds @ w" st] Cons.prems(3) have "py_isdigit (sc_char st)" by simp
  with Cons.IH [of "snd (char_take st)" "acc @ [[d]]"] Cons.prems(1,2) t show ?case
    by (subst scan_digits.simps) simp
qed

lemma scan_alnum_takeWhile:
  "scanner_on w st \<Longrightarrow>
   \<exists>st'. scan_alnum word st = (word @ takeWhile (\<lambda>c. py_alpha_char c \<or> py_digit_char c) w, st') \<and>
     scanner_on (dropWhile (\<lambda>c. py_alpha_char c \<or> py_digit_char c) w) st'"
proof (induction w arbitrary: word st)
  case Nil
  then show ?case by (simp add: scan_alnum.simps [of word st] scanner_on_def)
next
  case (Cons c w)
  show ?case
  proof (cases "py_alpha_char c \<or> py_digit_char c")
    case True
    from char_take_on [OF Cons.prems] have "scanner_on w (snd (char_take st))" "fst (char_take st) = [c]"
      by simp_all
    with Cons.IH [of "snd (char_take st)" "word @ [c]"] Cons.prems True show ?thesis
      by (simp add: scan_alnum.simps [of word st] scanner_on_def)
  next
    case False
    with Cons.prems show ?thesis by (simp add: scan_alnum.simps [of word st] scanner_on_def)
  qed
qed

lemma scan_alnum_on:
  assumes "list_all (\<lambda>c. py_alpha_char c \<or> py_digit_char c) ds"
    and "w = [] \<or> \<not> (py_alpha_char (hd w) \<or> py_digit_char (hd w))" and "scanner_on (ds @ w) st"
  shows "\<exists>st'. scan_alnum word st = (word @ ds, st') \<and> scanner_on w st'"
proof -
  have "takeWhile (\<lambda>c. py_alpha_char c \<or> py_digit_char c) (ds @ w) = ds"
    "dropWhile (\<lambda>c. py_alpha_char c \<or> py_digit_char c) (ds @ w) = w"
    using assms(1,2) by (cases w; simp add: list_all_iff takeWhile_append2 dropWhile_append2)+
  with scan_alnum_takeWhile [OF assms(3), of word] show ?thesis by simp
qed

lemma scan_token_on_space:
  "scanner_on (c # w) st \<Longrightarrow> py_space_char c \<Longrightarrow> scan_token st = scan_token (snd (char_take st))"
  by (subst scan_token.simps) (simp add: scanner_on_def)

lemma alpha_char_classes:
  "py_alpha_char c \<Longrightarrow> \<not> py_space_char c \<and> c \<noteq> CHR ''!'' \<and> \<not> py_digit_char c"
  by (auto simp: py_space_char_def py_digit_char_def py_alpha_char_def)

lemma digit_char_classes:
  "py_digit_char c \<Longrightarrow> \<not> py_space_char c \<and> c \<noteq> CHR ''!''"
  by (auto simp: py_space_char_def py_digit_char_def)

lemma scan_token_on_alpha:
  "scanner_on (c # w) st \<Longrightarrow> py_alpha_char c \<Longrightarrow> scan_token st = Inr (scan_word_token st)"
  by (subst scan_token.simps) (simp add: scanner_on_def Let_def alpha_char_classes)

lemma scan_token_on_digit:
  "scanner_on (c # w) st \<Longrightarrow> py_digit_char c \<Longrightarrow> scan_token st = Inr (scan_int st)"
  by (subst scan_token.simps) (simp add: scanner_on_def Let_def digit_char_classes)

lemma operator_chars:
  "[c] \<in> set OPERATORS \<Longrightarrow> \<not> py_space_char c \<and> c \<noteq> CHR ''!'' \<and> \<not> py_digit_char c \<and> \<not> py_alpha_char c"
  by (auto simp: OPERATORS_def py_space_char_def py_digit_char_def py_alpha_char_def)

lemma scan_token_on_operator:
  "scanner_on (c # w) st \<Longrightarrow> [c] \<in> set OPERATORS \<Longrightarrow> scan_token st = Inr (scan_operator st)"
  by (subst scan_token.simps) (simp add: scanner_on_def Let_def operator_chars)

lemma scan_token_on_Nil:
  "scanner_on [] st \<Longrightarrow> scan_token st = Inr (\<lparr>tok_type = TK_EOT, tok_val = VInt 0, tok_pos = char_pos st\<rparr>, st)"
  by (subst scan_token.simps) (simp add: scanner_on_def)

lemma scan_word_on:
  assumes w: "ident_word word" and at: "scanner_on (word @ CHR '' '' # w) st"
  shows "scan_token st = Inr (scan_word_token st) \<and> scanner_on (CHR '' '' # w) (snd (scan_word_token st)) \<and>
    tok_type (fst (scan_word_token st)) = (case map_of KEYWORDS word of None \<Rightarrow> TK_IDENTIFIER | Some k \<Rightarrow> k) \<and>
    tok_val (fst (scan_word_token st)) = (case map_of KEYWORDS word of None \<Rightarrow> VStr word | Some k \<Rightarrow> VInt 0)"
proof -
  from w obtain c ds where word: "word = c # ds" and c: "py_alpha_char c"
    and ds: "list_all (\<lambda>c. py_alpha_char c \<or> py_digit_char c) ds"
    by (cases word) (auto simp: ident_word_def)
  from at word have at': "scanner_on (c # ds @ CHR '' '' # w) st" by simp
  from char_take_on [OF at'] have t: "scanner_on (ds @ CHR '' '' # w) (snd (char_take st))"
    "fst (char_take st) = [c]" by simp_all
  from scan_alnum_on [OF ds _ t(1), of "[c]"] obtain st' where
    a: "scan_alnum [c] (snd (char_take st)) = ([c] @ ds, st')" "scanner_on (CHR '' '' # w) st'"
    by (auto simp: py_alpha_char_def py_digit_char_def)
  have "scan_keyword st = (word, st')"
    using a(1) t(2) word by (simp add: scan_keyword_def split_beta)
  with a(2) scan_token_on_alpha [OF at' c] show ?thesis
    by (simp add: scan_word_token_def Let_def split: option.split)
qed


lemma scan_int_on:
  assumes at: "scanner_on (py_str_nat n @ CHR '' '' # w) st"
  shows "scan_token st = Inr (scan_int st) \<and> scanner_on (CHR '' '' # w) (snd (scan_int st)) \<and>
    tok_type (fst (scan_int st)) = TK_INTLITERAL \<and> tok_val (fst (scan_int st)) = VInt n"
proof -
  obtain c ds where n: "py_str_nat n = c # ds"
    by (cases "py_str_nat n") auto
  with py_str_nat_digits [of n] have c: "py_digit_char c" and ds: "list_all py_digit_char ds"
    by simp_all
  from at n have at': "scanner_on (c # ds @ CHR '' '' # w) st" by simp
  from char_take_on [OF at'] have t: "scanner_on (ds @ CHR '' '' # w) (snd (char_take st))"
    "fst (char_take st) = [c]" by simp_all
  from scan_digits_on [OF ds _ t(1), of "[[c]]"] obtain st' where
    d: "scan_digits [[c]] (snd (char_take st)) = ([[c]] @ map (\<lambda>c. [c]) ds, st')"
       "scanner_on (CHR '' '' # w) st'"
    by (auto simp: py_digit_char_def)
  have "concat ([[c]] @ map (\<lambda>c. [c]) ds) = py_str_nat n"
    using n by (simp add: concat_map_singleton)
  then have "scan_int st = (\<lparr>tok_type = TK_INTLITERAL, tok_val = VInt n, tok_pos = char_pos st\<rparr>, st')"
    using d(1) t(2) by (simp add: scan_int_def split_beta)
  with d(2) scan_token_on_digit [OF at' c] show ?thesis by simp
qed

lemma scan_one_char_on:
  assumes "scanner_on (c # w) st"
  shows "scanner_on w (snd (scan_punct k st)) \<and> tok_type (fst (scan_punct k st)) = k \<and>
      tok_val (fst (scan_punct k st)) = VInt 0"
    and "scanner_on w (snd (scan_operator st)) \<and> tok_type (fst (scan_operator st)) = TK_OPERATOR \<and>
      tok_val (fst (scan_operator st)) = VStr [c]"
  using char_take_on [OF assms]
  by (simp_all add: scan_punct_def scan_operator_def split_beta)

lemma scan_colon_on:
  assumes "scanner_on (CHR '':'' # CHR '' '' # w) st"
  shows "scanner_on (CHR '' '' # w) (snd (scan_colon st)) \<and>
      tok_type (fst (scan_colon st)) = TK_COLON \<and> tok_val (fst (scan_colon st)) = VInt 0"
  using char_take_on [OF assms]
  by (simp add: scan_colon_def split_beta scanner_on_def)

lemma scan_becomes_on:
  assumes at: "scanner_on (CHR '':'' # CHR ''='' # w) st"
  shows "scanner_on w (snd (scan_colon st)) \<and>
      tok_type (fst (scan_colon st)) = TK_BECOMES \<and> tok_val (fst (scan_colon st)) = VInt 0"
proof -
  from char_take_on [OF at] have t: "scanner_on (CHR ''='' # w) (snd (char_take st))" by simp
  then have "sc_char (snd (char_take st)) = ''=''" by (simp add: scanner_on_def)
  with char_take_on [OF t] show ?thesis by (simp add: scan_colon_def split_beta)
qed

lemma scan_token_on_punct:
  assumes "k \<in> {TK_SEMICOLON, TK_IS, TK_LPAREN, TK_RPAREN, TK_COMMA}"
    and "scanner_on (keyword_text k @ w) st"
  shows "scan_token st = Inr (scan_punct k st)"
  using assms
  by (subst scan_token.simps)
     (auto simp: scanner_on_def OPERATORS_def py_space_char_def py_digit_char_def py_alpha_char_def)

lemma scan_token_on_colon:
  assumes "scanner_on (CHR '':'' # w) st"
  shows "scan_token st = Inr (scan_colon st)"
  using assms
  by (subst scan_token.simps)
     (simp add: scanner_on_def OPERATORS_def py_space_char_def py_digit_char_def py_alpha_char_def)

lemma keyword_text_word:
  "k \<in> set (map snd KEYWORDS) \<Longrightarrow> ident_word (keyword_text k) \<and> map_of KEYWORDS (keyword_text k) = Some k"
  by (auto simp: KEYWORDS_def ident_word_def py_alpha_char_def py_digit_char_def)


lemma token_kind_groups:
  obtains "k = TK_IDENTIFIER" | "k = TK_INTLITERAL" | "k = TK_OPERATOR"
    | "k \<in> set (map snd KEYWORDS)" | "k \<in> {TK_SEMICOLON, TK_IS, TK_LPAREN, TK_RPAREN, TK_COMMA}"
    | "k = TK_COLON" | "k = TK_BECOMES" | "k = TK_EOT"
  by (cases k) (auto simp: KEYWORDS_def)

lemma scan_token_print:
  assumes wf: "token_wf t" and ne: "tok_type t \<noteq> TK_EOT"
    and at: "scanner_on (print_token t @ CHR '' '' # w) st"
  shows "\<exists>t' st'. scan_token st = Inr (t', st') \<and> tok_type t' = tok_type t \<and>
    tok_val t' = tok_val t \<and> scanner_on (CHR '' '' # w) st'"
proof (cases rule: token_kind_groups [of "tok_type t"])
  case 1
  with wf obtain word where v: "tok_val t = VStr word" "ident_word word" "map_of KEYWORDS word = None"
    by (auto simp: token_wf_def split: token_val.splits)
  with at scan_word_on [of word w st] 1 show ?thesis
    by (auto simp: print_token_def intro!: exI [of _ "fst (scan_word_token st)"] exI [of _ "snd (scan_word_token st)"])
next
  case 2
  with wf obtain n where v: "tok_val t = VInt n"
    by (auto simp: token_wf_def split: token_val.splits)
  with at scan_int_on [of n w st] 2 show ?thesis
    by (auto simp: print_token_def intro!: exI [of _ "fst (scan_int st)"] exI [of _ "snd (scan_int st)"])
next
  case 3
  with wf obtain c where v: "tok_val t = VStr [c]" "[c] \<in> set OPERATORS"
    by (auto simp: token_wf_def length_Suc_conv split: token_val.splits)
  with at have at': "scanner_on (c # CHR '' '' # w) st" by (simp add: print_token_def)
  with v scan_token_on_operator [OF at'] scan_one_char_on(2) [OF at'] 3 show ?thesis
    by (intro exI [of _ "fst (scan_operator st)"] exI [of _ "snd (scan_operator st)"]) auto
next
  case 4
  with wf KEYWORDS_kinds [of "keyword_text (tok_type t)"] keyword_text_word [OF 4]
  have v: "tok_val t = VInt 0" "print_token t = keyword_text (tok_type t)"
    by (auto simp: token_wf_def print_token_def)
  with at scan_word_on [of "keyword_text (tok_type t)" w st] keyword_text_word [OF 4] show ?thesis
    by (auto intro!: exI [of _ "fst (scan_word_token st)"] exI [of _ "snd (scan_word_token st)"])
next
  case 5
  with wf have v: "tok_val t = VInt 0" "print_token t = keyword_text (tok_type t)"
    by (auto simp: token_wf_def print_token_def)
  from 5 obtain c where c: "keyword_text (tok_type t) = [c]" by auto
  with at v have at': "scanner_on (c # CHR '' '' # w) st" by simp
  with v c at scan_token_on_punct [OF 5] scan_one_char_on(1) [OF at', of "tok_type t"] show ?thesis
    by (intro exI [of _ "fst (scan_punct (tok_type t) st)"] exI [of _ "snd (scan_punct (tok_type t) st)"]) auto
next
  case 6
  with wf have v: "tok_val t = VInt 0" "print_token t = '':''"
    by (auto simp: token_wf_def print_token_def)
  with at have at': "scanner_on (CHR '':'' # CHR '' '' # w) st" by simp
  with v 6 scan_token_on_colon [OF at'] scan_colon_on [OF at'] show ?thesis
    by (intro exI [of _ "fst (scan_colon st)"] exI [of _ "snd (scan_colon st)"]) auto
next
  case 7
  with wf have v: "tok_val t = VInt 0" "print_token t = '':=''"
    by (auto simp: token_wf_def print_token_def)
  with at have at': "scanner_on (CHR '':'' # CHR ''='' # CHR '' '' # w) st" by simp
  with v 7 scan_token_on_colon [OF at'] scan_becomes_on [OF at'] show ?thesis
    by (intro exI [of _ "fst (scan_colon st)"] exI [of _ "snd (scan_colon st)"]) auto
next
  case 8
  with ne show ?thesis by simp
qed


lemma print_tokens_Cons:
  "print_tokens (t # ts) = print_token t @ CHR '' '' # print_tokens ts"
  by (simp add: print_tokens_def)

lemma scan_loop_space:
  assumes "scanner_on (CHR '' '' # w) st"
  shows "scan_loop acc st = scan_loop acc (snd (char_take st))"
proof -
  have "scan_token st = scan_token (snd (char_take st))"
    using assms by (rule scan_token_on_space) (simp add: py_space_char_def)
  then show ?thesis
    by (simp only: scan_loop.simps [of acc st] scan_loop.simps [of acc "snd (char_take st)"])
qed

lemma scan_loop_print:
  "list_all (\<lambda>t. token_wf t \<and> tok_type t \<noteq> TK_EOT) ts \<Longrightarrow> scanner_on (print_tokens ts) st \<Longrightarrow>
   \<exists>res. scan_loop acc st = Inr res \<and>
     map (\<lambda>t. (tok_type t, tok_val t)) res = map (\<lambda>t. (tok_type t, tok_val t)) (acc @ ts) @ [(TK_EOT, VInt 0)]"
proof (induction ts arbitrary: acc st)
  case Nil
  then have "scanner_on [] st" by (simp add: print_tokens_def)
  then show ?case by (simp add: scan_loop.simps [of acc st] scan_token_on_Nil)
next
  case (Cons t ts)
  from Cons.prems obtain t' st1 where
    t': "scan_token st = Inr (t', st1)" "tok_type t' = tok_type t" "tok_val t' = tok_val t"
        "scanner_on (CHR '' '' # print_tokens ts) st1"
    using scan_token_print [of t "print_tokens ts" st] by (auto simp: print_tokens_Cons)
  have "scan_loop acc st = scan_loop (acc @ [t']) (snd (char_take st1))"
    using t' Cons.prems(1) scan_loop_space [OF t'(4)] by (simp add: scan_loop.simps [of acc st])
  moreover from char_take_on [OF t'(4)] have "scanner_on (print_tokens ts) (snd (char_take st1))" ..
  ultimately show ?case
    using Cons.IH [of "snd (char_take st1)" "acc @ [t']"] Cons.prems(1) t'(2,3) by auto
qed

section \<open>Scanning a printed token stream\<close>

text \<open>
  C28: scanning the printed form of a stream of well-formed tokens, none of
  them the end-of-text token, succeeds and gives back the kinds and values of
  the stream in order, followed by one end-of-text token of value 0.
\<close>

theorem scan_print_roundtrip:
  "list_all (\<lambda>t. token_wf t \<and> tok_type t \<noteq> TK_EOT) ts \<Longrightarrow>
   \<exists>res. scan (print_tokens ts) = Inr res \<and>
     map (\<lambda>t. (tok_type t, tok_val t)) res = map (\<lambda>t. (tok_type t, tok_val t)) ts @ [(TK_EOT, VInt 0)]"
  using scan_loop_print [of ts "scanner_init (print_tokens ts)" "[]"] scanner_on_init
  by (simp add: scan_def)

theorem scan_print_roundtrip_witness:
  "list_all (\<lambda>t. token_wf t \<and> tok_type t \<noteq> TK_EOT) [\<lparr>tok_type = TK_LET, tok_val = VInt 0, tok_pos = 0\<rparr>,
       \<lparr>tok_type = TK_IDENTIFIER, tok_val = VStr ''x1'', tok_pos = 0\<rparr>,
       \<lparr>tok_type = TK_BECOMES, tok_val = VInt 0, tok_pos = 0\<rparr>,
       \<lparr>tok_type = TK_INTLITERAL, tok_val = VInt 42, tok_pos = 0\<rparr>,
       \<lparr>tok_type = TK_OPERATOR, tok_val = VStr ''-'', tok_pos = 0\<rparr>,
       \<lparr>tok_type = TK_COLON, tok_val = VInt 0, tok_pos = 0\<rparr>] \<and>
   (\<exists>res. scan (print_tokens [\<lparr>tok_type = TK_LET, tok_val = VInt 0, tok_pos = 0\<rparr>,
       \<lparr>tok_type = TK_IDENTIFIER, tok_val = VStr ''x1'', tok_pos = 0\<rparr>,
       \<lparr>tok_type = TK_BECOMES, tok_val = VInt 0, tok_pos = 0\<rparr>,
       \<lparr>tok_type = TK_INTLITERAL, tok_val = VInt 42, tok_pos = 0\<rparr>,
       \<lparr>tok_type = TK_OPERATOR, tok_val = VStr ''-'', tok_pos = 0\<rparr>,
       \<lparr>tok_type = TK_COLON, tok_val = VInt 0, tok_pos = 0\<rparr>]) = Inr res \<and>
     map (\<lambda>t. (tok_type t, tok_val t)) res = [(TK_LET, VInt 0), (TK_IDENTIFIER, VStr ''x1''),
       (TK_BECOMES, VInt 0), (TK_INTLITERAL, VInt 42), (TK_OPERATOR, VStr ''-''), (TK_COLON, VInt 0),
       (TK_EOT, VInt 0)])"
proof -
  have h: "list_all (\<lambda>t. token_wf t \<and> tok_type t \<noteq> TK_EOT) [\<lparr>tok_type = TK_LET, tok_val = VInt 0, tok_pos = 0\<rparr>,
       \<lparr>tok_type = TK_IDENTIFIER, tok_val = VStr ''x1'', tok_pos = 0\<rparr>,
       \<lparr>tok_type = TK_BECOMES, tok_val = VInt 0, tok_pos = 0\<rparr>,
       \<lparr>tok_type = TK_INTLITERAL, tok_val = VInt 42, tok_pos = 0\<rparr>,
       \<lparr>tok_type = TK_OPERATOR, tok_val = VStr ''-'', tok_pos = 0\<rparr>,
       \<lparr>tok_type = TK_COLON, tok_val = VInt 0, tok_pos = 0\<rparr>]"
    by code_simp
  show ?thesis
    using h scan_print_roundtrip [OF h] by simp
qed


section \<open>The keyword loop against takeWhile\<close>

text \<open>
  C30: \<open>scan_keyword\<close> on a cursor at \<open>c # w\<close> takes \<open>c\<close> and then exactly
  the longest prefix of \<open>w\<close> of letters and digits (\<open>takeWhile\<close>), and leaves
  the cursor at the start of the rest (\<open>dropWhile\<close>).
\<close>

theorem scan_keyword_takeWhile:
  "scanner_on (c # w) st \<Longrightarrow>
   \<exists>st'. scan_keyword st = (c # takeWhile (\<lambda>c. py_alpha_char c \<or> py_digit_char c) w, st') \<and>
     scanner_on (dropWhile (\<lambda>c. py_alpha_char c \<or> py_digit_char c) w) st'"
  using char_take_on [of c w st] scan_alnum_takeWhile [of w "snd (char_take st)" "[c]"]
  by (auto simp: scan_keyword_def split_beta)

theorem scan_keyword_takeWhile_witness:
  "\<exists>st'. scan_keyword (scanner_init ''x1 := 2'') = (''x1'', st') \<and> scanner_on '' := 2'' st'"
  using scan_keyword_takeWhile [OF scanner_on_init [of "''x1 := 2''"]]
  by (simp add: py_alpha_char_def py_digit_char_def)

end
