(* ===== verification/Scanner_Steps.thy ===== *)
theory Scanner_Steps
  imports Scanner
begin

text \<open>
  The loop of \<open>Scanner.scan\<close> (\<open>src/scanner.py\<close>, lines 133-140) as a
  small-step machine: a configuration is the token list built so far with the
  scanner object, or the outcome of the loop (the returned list, or the
  \<open>ScannerError\<close> that escapes it). One step is one iteration of the
  \<open>while 1\<close> loop: one call of \<open>scan_token\<close>, the append, and the test for
  the end-of-text token. The lemmas show that the machine is deterministic, that
  every run reaches an outcome (the loop ends), and that the recursive
  \<open>scan_loop\<close> of \<open>Scanner\<close> computes exactly that outcome.
\<close>

section \<open>Configurations and steps\<close>

datatype scan_conf = Running "token list" scanner | Done "token list" | Failed scan_error

inductive scan_step :: "scan_conf \<Rightarrow> scan_conf \<Rightarrow> bool" where
  scan_step_token:
    "scan_token st = Inr (t, st') \<Longrightarrow> tok_type t \<noteq> TK_EOT \<Longrightarrow>
     scan_step (Running ts st) (Running (ts @ [t]) st')"
| scan_step_eot:
    "scan_token st = Inr (t, st') \<Longrightarrow> tok_type t = TK_EOT \<Longrightarrow>
     scan_step (Running ts st) (Done (ts @ [t]))"
| scan_step_error:
    "scan_token st = Inl e \<Longrightarrow> scan_step (Running ts st) (Failed e)"

code_pred scan_step .

fun scan_final :: "scan_conf \<Rightarrow> bool" where
  "scan_final (Running ts st) = False"
| "scan_final (Done ts) = True"
| "scan_final (Failed e) = True"

definition scan_outcome :: "scan_error + token list \<Rightarrow> scan_conf" where
  "scan_outcome r = (case r of Inl e \<Rightarrow> Failed e | Inr ts \<Rightarrow> Done ts)"

inductive_cases scan_step_RunningE: "scan_step (Running ts st) c"
inductive_cases scan_step_DoneE [elim!]: "scan_step (Done ts) c"
inductive_cases scan_step_FailedE [elim!]: "scan_step (Failed e) c"

section \<open>The machine is deterministic\<close>

lemma scan_step_final: "scan_final c \<Longrightarrow> \<not> scan_step c c'"
  by (cases c) auto

lemma scan_step_det: "scan_step c c1 \<Longrightarrow> scan_step c c2 \<Longrightarrow> c1 = c2"
  by (induction rule: scan_step.induct) (auto elim: scan_step_RunningE)

lemma scan_final_unique:
  assumes "scan_step\<^sup>*\<^sup>* c c1" and "scan_final c1" and "scan_step\<^sup>*\<^sup>* c c2" and "scan_final c2"
  shows "c1 = c2"
  using assms
proof (induction arbitrary: c2 rule: converse_rtranclp_induct)
  case base
  then show ?case by (auto elim: converse_rtranclpE dest: scan_step_final)
next
  case (step c c')
  from step.prems(2) have "scan_step\<^sup>*\<^sup>* c' c2"
  proof (cases rule: converse_rtranclpE)
    case base
    with step.prems(3) step.hyps(1) show ?thesis by (auto dest: scan_step_final)
  next
    case (step c'')
    with scan_step_det [OF step.hyps(1)] show ?thesis by simp
  qed
  with step.IH step.prems(1,3) show ?case by blast
qed

section \<open>The loop of scan ends and scan_loop computes its outcome\<close>

text \<open>
  C34: the loop of \<open>scan\<close> always ends: from every configuration of the
  machine a final one, a returned token list or an escaping scanner error, is
  reached.
\<close>

theorem scan_run_ends: "\<exists>c'. scan_step\<^sup>*\<^sup>* c c' \<and> scan_final c'"
proof (cases c)
  case (Running ts st)
  have "\<exists>c'. scan_step\<^sup>*\<^sup>* (Running ts st) c' \<and> scan_final c'"
  proof (induction "sc_measure st" arbitrary: ts st rule: less_induct)
    case less
    show ?case
    proof (cases "scan_token st")
      case (Inl e)
      then show ?thesis by (intro exI [of _ "Failed e"]) (auto intro: scan_step_error)
    next
      case (Inr r)
      obtain t st' where r: "scan_token st = Inr (t, st')" using Inr by (cases r) auto
      show ?thesis
      proof (cases "tok_type t = TK_EOT")
        case True
        with r show ?thesis by (intro exI [of _ "Done (ts @ [t])"]) (auto intro: scan_step_eot)
      next
        case False
        from less [OF scan_token_measure [OF r False], of "ts @ [t]"] obtain c' where
          "scan_step\<^sup>*\<^sup>* (Running (ts @ [t]) st') c'" "scan_final c'" by blast
        with scan_step_token [OF r False, of ts] show ?thesis
          by (blast intro: converse_rtranclp_into_rtranclp)
      qed
    qed
  qed
  with Running show ?thesis by simp
qed auto

lemma scan_loop_steps: "scan_step\<^sup>*\<^sup>* (Running ts st) (scan_outcome (scan_loop ts st))"
proof (induction ts st rule: scan_loop.induct)
  case (1 ts st)
  show ?case
  proof (cases "scan_token st")
    case (Inl e)
    then show ?thesis
      by (simp add: scan_loop.simps [of ts st] scan_outcome_def scan_step_error r_into_rtranclp)
  next
    case (Inr r)
    obtain t st' where r: "scan_token st = Inr (t, st')" using Inr by (cases r) auto
    show ?thesis
    proof (cases "tok_type t = TK_EOT")
      case True
      with r show ?thesis
        by (simp add: scan_loop.simps [of ts st] scan_outcome_def scan_step_eot r_into_rtranclp)
    next
      case False
      with r "1.IH" [OF r refl False] scan_step_token [OF r False, of ts] show ?thesis
        by (simp add: scan_loop.simps [of ts st] converse_rtranclp_into_rtranclp)
    qed
  qed
qed

text \<open>
  The recursive \<open>scan_loop\<close> computes the outcome of the step machine:
  the final configurations reached from a running configuration are exactly
  the one given by \<open>scan_loop\<close> on it.
\<close>

theorem scan_loop_is_run:
  "scan_step\<^sup>*\<^sup>* (Running ts st) c \<and> scan_final c \<longleftrightarrow> c = scan_outcome (scan_loop ts st)"
proof
  assume "scan_step\<^sup>*\<^sup>* (Running ts st) c \<and> scan_final c"
  moreover have "scan_final (scan_outcome (scan_loop ts st))"
    by (simp add: scan_outcome_def split: sum.split)
  ultimately show "c = scan_outcome (scan_loop ts st)"
    using scan_loop_steps scan_final_unique by blast
next
  assume "c = scan_outcome (scan_loop ts st)"
  then show "scan_step\<^sup>*\<^sup>* (Running ts st) c \<and> scan_final c"
    using scan_loop_steps by (simp add: scan_outcome_def split: sum.split)
qed

end
