(* ===== verification/Spec2Isabelle.thy ===== *)
theory Spec2Isabelle
  imports Driver Bytecode Pyc Scanner_Roundtrip Scanner_Steps
begin

text \<open>
  \<^bold>\<open>Mini Triangle compiler: a verification library.\<close>

  The program (\<open>src/\<close>) compiles Mini Triangle source text to CPython 2
  bytecode in three stages, each a total function of the previous stage's
  complete output: \<open>scanner.Scanner.scan\<close> turns the text into a token list
  ending in an end-of-text token, \<open>parser.Parser.parse\<close> builds the syntax tree
  by recursive descent, and \<open>codegen.CodeGen.generate\<close> emits byteplay
  instructions while it keeps a scope stack, a rename table and a function
  table. \<open>__main__\<close> of \<open>codegen.py\<close> chains the three and writes a \<open>.pyc\<close>.

  \<^bold>\<open>Theories.\<close>
  \<^item> \<open>Prelude\<close>: exceptions as the left summand of a sum (\<open>bind_res\<close> is Python's
    statement sequencing), Python 2's \<open>isspace\<close>/\<open>isdigit\<close>/\<open>isalpha\<close>,
    \<open>int()\<close> of a digit string and \<open>str()\<close> of a natural number.
  \<^item> \<open>Scanner\<close> (\<open>src/scanner.py\<close>): the token kinds, \<open>KEYWORDS\<close>, \<open>OPERATORS\<close>,
    the \<open>Scanner\<close> object as the record \<open>scanner\<close> (current character, rest of the
    input, position, end flag), \<open>char_take\<close>, the branches of \<open>scan_token\<close> and
    the loop \<open>scan\<close>. Loops are \<open>function\<close>s whose termination is proved by a
    measure on the unread input. Lemmas: the cursor invariant \<open>scanner_at\<close>
    (the state is determined by the position), every token well formed, positions
    strictly increasing, the end-of-text token last and unique, the error path.
  \<^item> \<open>AST\<close>: the tree classes of the module \<open>ast\<close>, which is imported by the
    sources but not part of them, modelled from the spec's data model and the
    constructor calls of \<open>parser.py\<close>.
  \<^item> \<open>Parser\<close> (\<open>src/parser.py\<close>): the \<open>Parser\<close> object as the record \<open>parser\<close>
    (tokens, \<open>curindex\<close>, \<open>curtoken\<close>), \<open>token_accept_any\<close>, \<open>token_accept\<close>, and
    the sixteen mutually recursive \<open>parse_*\<close> methods, each \<open>while\<close> loop a
    separate function. The recursion follows the grammar, not the input, so every
    method takes fuel; five units per token suffice (\<open>parse_fuel\<close>: a method's
    fuel bound is five times the tokens left plus a rank of at most four), hence
    the entry point \<open>parse\<close> never runs out of fuel. Lemmas: the cursor never
    moves backwards and stays on a token, the parser never reports a missing
    \<open>in\<close>, the binary operators of a parsed tree, zero-parameter functions.
  \<^item> \<open>CodeGen\<close> (\<open>src/codegen.py\<close>): the byteplay instructions, the exception
    classes, the \<open>CodeGen\<close> object as the record \<open>cg\<close>, the scope and rename-table
    methods, \<open>gen_expression\<close>/\<open>gen_call_command\<close> (structural recursion over
    expressions) and \<open>gen_command\<close>/\<open>gen_declaration\<close>/\<open>gen_function\<close>
    (structural recursion over commands), \<open>generate\<close> up to the byteplay
    \<open>Code\<close> object it hands to \<open>to_code\<close>. Lemmas: a command closes
    every scope it opens; the rename table is restored when a \<open>let\<close> or a
    function body ends, provided no scope declares a name twice; a nested
    declaration resolves to a fresh slot; an expression pushes exactly one value;
    every jump targets a label placed exactly once in the same buffer, and an
    \<open>if\<close> places its labels where the spec's lowering rule says; the arity
    checks; renaming by depth is injective only for names not ending in a digit;
    a name declared twice in a block keeps a slot after it, a constant can be
    assigned, the function table only grows, \<open>x := putint(e)\<close> stores a value
    it never pushed; an unknown function raises \<open>InvalidExpressionError\<close>.
  \<^item> \<open>Scanner_Roundtrip\<close>: a printer of token streams (not code of the
    repository) and the scanner read on printed text: \<open>scan_keyword\<close> computes
    \<open>takeWhile\<close>/\<open>dropWhile\<close> of the unread text, and scanning the printed form
    of well-formed tokens gives back their kinds and values (the round trip).
  \<^item> \<open>Scanner_Steps\<close>: the \<open>while 1\<close> loop of \<open>Scanner.scan\<close> as an
    inductive small-step relation \<open>scan_step\<close> on configurations (tokens so
    far and the scanner, or the outcome); it is deterministic and every run
    ends.
  \<^item> \<open>StackMachine\<close>: CPython 2's meaning of the emitted expression bytecode
    on integers (\<open>exec_instr\<close>, \<open>exec\<close>; floor \<open>/\<close> and \<open>%\<close>, a zero divisor
    fails) and a reference evaluator \<open>eval_expr\<close>; \<open>gen_expression\<close> refines the
    evaluator: its code pushes exactly the value of the expression, variables
    read through the rename table.
  \<^item> \<open>Bytecode\<close>: a jump-level interpreter \<open>bc_exec1\<close> for the code of
    commands (labels resolved to the position of their \<open>LABEL\<close>,
    \<open>POP_JUMP_IF_FALSE\<close>, \<open>STORE_FAST\<close> into slots, \<open>PRINT_ITEM\<close> and
    \<open>PRINT_NEWLINE\<close> as output events) and a big-step reference semantics
    \<open>cexec\<close> of assignments, sequences, \<open>if\<close>, \<open>while\<close> and \<open>putint\<close>;
    \<open>gen_command\<close> simulates it: the code of a command that terminates runs
    from its first instruction to its end with the same output and final
    values, provided distinct names in scope have distinct slots (which the
    renaming by depth does not guarantee, see \<open>slot_name_collision\<close>).
  \<^item> \<open>Pyc\<close> (\<open>gen_pyc\<close>): the bytes written to \<open>name.pyc\<close> as \<open>8 word\<close>s,
    the magic read as a big-endian number and packed back, the time packed by
    \<open>struct.pack('>L', ...)\<close>, which fails from \<open>2^32\<close> seconds on. The file
    is opened before the header is packed, so a failing pack leaves a
    truncated file: \<open>gen_pyc\<close> returns the bytes written and the error.
  \<^item> \<open>Driver\<close> (\<open>__main__\<close> of \<open>src/codegen.py\<close> and the \<open>__str__\<close> methods of
    the exceptions of all three stages): \<open>compile\<close> chains the stages;
    \<open>main\<close> maps \<open>sys.argv\<close> and a host (readable files, magic number, clock,
    byteplay's \<open>to_code\<close>, marshal) to the printed lines, the files written
    with their bytes, the exit status and the escaping exception, calling
    \<open>gen_pyc\<close> of \<open>Pyc\<close> on the assembled code. Lemmas: a file is written
    exactly when the text compiles and byteplay assembles its code object, and
    holds magic, time and code; when \<open>to_code\<close> raises, its \<open>ValueError\<close>
    escapes and nothing is written; from 2106 on the file keeps the
    magic only and \<open>struct.error\<close> escapes; failures exit with status 0
    unless the exception escapes; the text of a scanner error; the message of
    \<open>UnknownFunctionError\<close> raises \<open>NameError\<close>, but the generator never
    raises that class.
  \<^item> \<open>Spec2Isabelle\<close> (this theory): the properties that span stages (the
    parser consumes every token; a unary operator is accepted by the parser
    and rejected by the generator) and the spec's scenarios, evaluated.

  \<^bold>\<open>Correspondence.\<close> Python objects are records passed and returned
  explicitly; every \<open>raise\<close> is an \<open>Inl\<close> of the component's error datatype
  (\<open>scan_error\<close>, \<open>parse_error\<close>, \<open>cg_error\<close>), including Python's own
  \<open>IndexError\<close>, \<open>KeyError\<close> and \<open>AttributeError\<close> where the code can raise them.
  A byteplay \<open>Label()\<close> is a fresh number drawn from a counter; a byteplay
  \<open>Code\<close> object is the constant \<open>CCode name argnames code\<close>.

  \<^bold>\<open>What the model shows about the code.\<close> The parser's multiplicative tier
  lists the empty string where the modulo operator belongs, so modulo is never
  parsed; it never reports a missing \<open>in\<close>; it rejects functions without
  parameters and accepts any operator as a unary prefix. Spec scenario 1 as written
  fails in the code generator, because the \<open>let\<close> body is a single command.
  The generator pops one slot per environment key, so a name declared twice in one
  scope stays bound after the scope; renaming by depth collides for names ending in
  digits; call statements leave their result on the stack; \<open>putint\<close> inside an
  expression pushes nothing, so \<open>x := putint(e)\<close> pops a value that was never
  pushed (the generator accepts it; only byteplay's stack-depth analysis in
  \<open>to_code\<close> would reject it); constants can be assigned; the function table is not
  scoped; an unknown function raises \<open>InvalidExpressionError\<close>, and the
  class \<open>UnknownFunctionError\<close>, whose \<open>__str__\<close> reads an undefined global,
  is never raised. The driver
  exits with status 0 after a scanner or parser error, so a failed compilation
  looks successful to the shell, while a code generation error escapes with a
  traceback. From \<open>2^32\<close> seconds after the epoch (the year 2106) the driver
  leaves a \<open>.pyc\<close> holding only the magic number and exits with \<open>struct.error\<close>.

  \<^bold>\<open>Not modelled.\<close> byteplay's \<open>Code.to_code()\<close> (called by
  \<open>CodeGen.generate\<close>, line 118), which assembles the \<open>Code\<close> object into a
  CPython code object and raises \<open>ValueError\<close> when its stack-depth analysis
  finds a pop of an empty stack or two different depths at one label: it is
  the host's \<open>host_to_code\<close>, a parameter, so the driver's theorems hold
  whatever byteplay accepts, and the code lists \<open>compile\<close> returns are the
  \<open>Code\<close> objects before assembly. The bytes \<open>marshal.dump\<close> writes for a code
  object (the host's \<open>host_marshal\<close>) and \<open>FunctionType\<close>: libraries the
  sources only call. \<open>str()\<close> of
  the tree nodes of the absent module \<open>ast\<close> (the parameter \<open>ast_str\<close> of the
  code generator's messages), the messages of Python's own \<open>IndexError\<close> and
  \<open>KeyError\<close>, an \<open>IOError\<close> when \<open>name.pyc\<close> cannot be opened, and the
  run-time behaviour of declarations, function definitions and calls other
  than \<open>putint\<close> in emitted code (given their stack effect only,
  \<open>stack_effect\<close>, CPython 2's). \<open>time.time()\<close> is taken as a whole number
  of seconds. The interpreters identify a Python bool
  with 0 or 1: CPython prints \<open>True\<close> where the model prints 1 for
  \<open>putint(a < b)\<close>. \<open>os.path.splitext\<close> and \<open>struct.pack\<close> are Python's and
  are written out from their documented behaviour.
\<close>

section \<open>Properties across the stages\<close>

text \<open>
  C7: For the tokens of a successful scan, a successful parse_program leaves the cursor
  on the last token, the end-of-text token: the parser consumes every token.
\<close>

theorem parse_consumes_all:
  assumes "scan input = Inr toks" and "parser_init toks = Inr p"
    and "parse_program (parser_fuel toks) p = Inr (prog, p')"
  shows "p_tokens p' = toks \<and> curindex p' = length toks - 1 \<and> tok_type (curtoken p') = TK_EOT"
proof -
  from assms(3) obtain c p1 where c: "parse_command (parser_fuel toks) p = Inr (c, p1)"
    and e: "token_accept TK_EOT p1 = Inr p'"
    by (auto simp: parse_program_def bind_res_eq_Inr)
  from parser_init_wf [OF assms(2)] have p: "parser_wf p" "p_tokens p = toks" by simp_all
  from token_accept_kind [OF e] have k: "tok_type (curtoken p1) = TK_EOT" .
  with e have p': "p' = p1" by (simp add: token_accept_def token_accept_any_EOT)
  from parse_keeps_wf(1) [OF c p(1)] parse_moves_forward(1) [OF c] p(2)
  have w: "curindex p1 < length toks" "curtoken p1 = toks ! curindex p1" "p_tokens p1 = toks"
    by (auto simp: parser_wf_def sadv_def)
  have "\<not> curindex p1 < length toks - 1"
  proof
    assume "curindex p1 < length toks - 1"
    then have "toks ! curindex p1 \<in> set (butlast toks)"
      by (metis length_butlast nth_butlast nth_mem)
    with scan_loop_at [OF scanner_at_init assms(1) [unfolded scan_def]] k w(2) show False by auto
  qed
  with w k p' show ?thesis by simp
qed


theorem parse_consumes_all_witness:
  "p_tokens (snd (projr (parse_program (parser_fuel (projr (scan ''x := 1;'')))
      (projr (parser_init (projr (scan ''x := 1;''))))))) = projr (scan ''x := 1;'') \<and>
   curindex (snd (projr (parse_program (parser_fuel (projr (scan ''x := 1;'')))
      (projr (parser_init (projr (scan ''x := 1;''))))))) = length (projr (scan ''x := 1;'')) - 1 \<and>
   tok_type (curtoken (snd (projr (parse_program (parser_fuel (projr (scan ''x := 1;'')))
      (projr (parser_init (projr (scan ''x := 1;'')))))))) = TK_EOT"
proof -
  have "case scan ''x := 1;'' of Inl e \<Rightarrow> False | Inr a \<Rightarrow> True" by code_simp
  note h1 = Inr_projr [OF this]
  have "case parser_init (projr (scan ''x := 1;'')) of Inl e \<Rightarrow> False | Inr a \<Rightarrow> True" by code_simp
  note h2 = Inr_projr [OF this]
  have "case parse_program (parser_fuel (projr (scan ''x := 1;''))) (projr (parser_init (projr (scan ''x := 1;''))))
      of Inl e \<Rightarrow> False | Inr a \<Rightarrow> True" by code_simp
  then have h3: "parse_program (parser_fuel (projr (scan ''x := 1;''))) (projr (parser_init (projr (scan ''x := 1;'')))) =
      Inr (fst (projr (parse_program (parser_fuel (projr (scan ''x := 1;''))) (projr (parser_init (projr (scan ''x := 1;'')))))),
           snd (projr (parse_program (parser_fuel (projr (scan ''x := 1;''))) (projr (parser_init (projr (scan ''x := 1;'')))))))"
    by (subst prod.collapse) (rule Inr_projr)
  show ?thesis by (rule parse_consumes_all [OF h1 h2 h3])
qed


section \<open>The spec's concrete scenarios\<close>

text \<open>
  The scenarios of the spec, evaluated. \<open>compile\<close> yields the byteplay \<open>Code\<close>
  object before \<open>to_code\<close> assembles it (see \<open>Driver\<close>); these code lists
  are what \<open>generate\<close> hands to byteplay.
\<close>

text \<open>
  Scenario 1 of the spec as written parses with putint(x) outside the let block and
  fails in the code generator with an IndexError.
\<close>

theorem scenario_1_fails:
  "compile ''let var x: Integer; in x := 3 + 4; putint(x);'' = Inl (GenFailed CgIndexError) \<and>
   parse (projr (scan ''let var x: Integer; in x := 3 + 4; putint(x);'')) =
     Inr (Program (SequentialCommand
       (LetCommand (VarDeclaration ''x'' (TypeDenoter ''Integer''))
          (AssignCommand (Vname ''x'') (BinaryExpression (IntegerExpression 3) ''+'' (IntegerExpression 4))))
       (CallCommand ''putint'' [VnameExpression (Vname ''x'')])))"
  by code_simp

text \<open>
  Scenario 1 with its body in begin ... end compiles to a slot allocation for x,
  the addition 3+4, a store to that slot, a load and an output instruction.
\<close>

theorem scenario_1_block:
  "compile ''let var x: Integer; in begin x := 3 + 4; putint(x); end'' =
     Inr (CCode ''gencode'' []
       [LOAD_CONST CNone, STORE_FAST ''x1'', LOAD_CONST (CInt 3), LOAD_CONST (CInt 4), BINARY_ADD,
        STORE_FAST ''x1'', LOAD_FAST ''x1'', PRINT_ITEM, PRINT_NEWLINE, LOAD_CONST (CInt 0), RETURN_VALUE])"
  by code_simp

text \<open>
  Scenario 2 of the spec: the function f is compiled into its own code object
  returning its parameter, and the call site pushes one argument before the call.
\<close>

theorem scenario_2:
  "compile ''let func f(n: Integer): Integer return n; in putint(f(5));'' =
     Inr (CCode ''gencode'' []
       [LOAD_CONST (CCode ''f'' [''n2''] [LOAD_FAST ''n2'', RETURN_VALUE]), MAKE_FUNCTION 0, STORE_NAME ''f'',
        LOAD_GLOBAL ''f'', LOAD_CONST (CInt 5), CALL_FUNCTION 1, PRINT_ITEM, PRINT_NEWLINE,
        LOAD_CONST (CInt 0), RETURN_VALUE])"
  by code_simp

text \<open>
  Scenario 3 of the spec: putint(1,2) fails with an arity error for putint with
  expected count 1.
\<close>

theorem scenario_3: "compile ''putint(1,2);'' = Inl (GenFailed (IllegalFunctionArgumentError ''putint'' 1))"
  by code_simp

text \<open>
  Scenario 4 of the spec: a let block missing in fails to parse, but the error
  names the unexpected identifier and no expected token kind.
\<close>

theorem scenario_4:
  "compile ''let var x: Integer; x := 1;'' = Inl (ParseFailed (ParserException 20 TK_IDENTIFIER None))"
  by code_simp

text \<open>
  A function whose body calls itself compiles, because the function table entry is
  made before the body is generated.
\<close>

theorem recursive_function_compiles:
  "compile ''let func fact(n: Integer): Integer if n < 2 then return 1; else return n * fact(n - 1); in putint(fact(5));'' =
     Inr (CCode ''gencode'' []
       [LOAD_CONST (CCode ''fact'' [''n2'']
          [LOAD_FAST ''n2'', LOAD_CONST (CInt 2), COMPARE_OP ''<'', POP_JUMP_IF_FALSE 0, LOAD_CONST (CInt 1),
           RETURN_VALUE, JUMP_FORWARD 1, LABEL 0, LOAD_FAST ''n2'', LOAD_GLOBAL ''fact'', LOAD_FAST ''n2'',
           LOAD_CONST (CInt 1), BINARY_SUBTRACT, CALL_FUNCTION 1, BINARY_MULTIPLY, RETURN_VALUE, LABEL 1]),
        MAKE_FUNCTION 0, STORE_NAME ''fact'', LOAD_GLOBAL ''fact'', LOAD_CONST (CInt 5), CALL_FUNCTION 1,
        PRINT_ITEM, PRINT_NEWLINE, LOAD_CONST (CInt 0), RETURN_VALUE])"
  by code_simp

section \<open>Unary operators: accepted by the parser, rejected by the generator\<close>

text \<open>
  C27: The parser accepts any operator token as a unary prefix
  (\<open>parse_primary_expression\<close>, lines 192-195 of \<open>parser.py\<close>); the code
  generator rejects every unary operator other than + and - with
  \<open>InvalidExpressionError\<close>, after it has generated the operand.
\<close>

theorem unary_operator_rejected_late:
  assumes "tok_type (curtoken p) = TK_OPERATOR" and "token_accept_any p = Inr p1"
    and "parse_primary_expression n p1 = Inr (e, p2)"
    and "val_str (tok_val (curtoken p)) \<notin> {''+'', ''-''}" and "gen_expression e s = Inr s1"
  shows "parse_primary_expression (Suc n) p = Inr (UnaryExpression (val_str (tok_val (curtoken p))) e, p2) \<and>
    gen_expression (UnaryExpression (val_str (tok_val (curtoken p))) e) s =
      Inl (InvalidExpressionError (NodeExpression (UnaryExpression (val_str (tok_val (curtoken p))) e)))"
  using assms by (simp add: unary_op_def)

theorem unary_operator_rejected_late_witness:
  "parse_primary_expression 4 (projr (parser_init (projr (scan ''*2'')))) =
     Inr (UnaryExpression ''*'' (IntegerExpression 2),
       snd (projr (parse_primary_expression 3 (projr (token_accept_any (projr (parser_init (projr (scan ''*2''))))))))) \<and>
   gen_expression (UnaryExpression ''*'' (IntegerExpression 2)) cg_init =
     Inl (InvalidExpressionError (NodeExpression (UnaryExpression ''*'' (IntegerExpression 2))))"
proof -
  have h1: "tok_type (curtoken (projr (parser_init (projr (scan ''*2''))))) = TK_OPERATOR"
    by code_simp
  have h2: "token_accept_any (projr (parser_init (projr (scan ''*2'')))) =
      Inr (projr (token_accept_any (projr (parser_init (projr (scan ''*2''))))))"
    by code_simp
  have h3: "parse_primary_expression 3 (projr (token_accept_any (projr (parser_init (projr (scan ''*2'')))))) =
      Inr (IntegerExpression 2,
        snd (projr (parse_primary_expression 3 (projr (token_accept_any (projr (parser_init (projr (scan ''*2'')))))))))"
    by code_simp
  have v: "val_str (tok_val (curtoken (projr (parser_init (projr (scan ''*2'')))))) = ''*''"
    by code_simp
  have h5: "gen_expression (IntegerExpression 2) cg_init = Inr (emit (LOAD_CONST (CInt 2)) cg_init)"
    by simp
  from unary_operator_rejected_late [OF h1 h2 h3 _ h5] v show ?thesis
    by (simp add: numeral_eq_Suc)
qed

end
